(* ===== verification/Prelude.thy ===== *)
theory Prelude
  imports Main "HOL-Library.Word" "HOL-Library.AList" "HOL-Library.Char_ord"
    "HOL-Library.List_Lexorder"
begin

text \<open>
  The vocabulary every theory of the development shares:
  \<^item> machine integers (\<open>u64\<close>, \<open>u32\<close>) with Rust's saturating operations;
  \<^item> \<open>Result\<close> values (\<open>'e + 'a\<close>, with \<open>Inl\<close> for \<open>Err\<close>), the \<open>?\<close> operator as \<open>bind_res\<close>,
    and actions that also thread a state (\<open>act\<close>, with \<open>bind_act\<close> for a sequenced \<open>?\<close>);
  \<^item> the string functions of Rust's standard library that the mediator uses. A \<open>string\<close> is a
    list of \<open>char\<close>, and a HOL \<open>char\<close> is one byte, so a Rust \<open>str\<close> is its UTF-8 bytes,
    \<open>len\<close> is \<open>length\<close>, and byte slices have the same type;
  \<^item> ordered maps (\<open>BTreeMap\<close>) as association lists sorted by key, and decimal numerals.
\<close>

named_theorems act_simps \<open>unfolding of actions at a state\<close>
named_theorems res_simps \<open>unfolding of results\<close>

section \<open>Machine integers\<close>

type_synonym u64 = "64 word"
type_synonym u32 = "32 word"
type_synonym bytes = "string"

definition saturating_sub :: "u64 \<Rightarrow> u64 \<Rightarrow> u64" where
  "saturating_sub a b = (if a < b then 0 else a - b)"

definition saturating_add :: "u64 \<Rightarrow> u64 \<Rightarrow> u64" where
  "saturating_add a b = (if unat a + unat b < 2 ^ 64 then a + b else - 1)"

definition usize_MAX :: nat where
  "usize_MAX = 18446744073709551615"

lemma unat_u64_less: "unat (a :: u64) < 18446744073709551616"
  using unsigned_less [of a] by simp

lemma unat_saturating_sub: "unat (saturating_sub a b) = unat a - unat b"
  by (simp add: saturating_sub_def unat_sub_if' word_less_nat_alt word_le_nat_alt)

lemma unat_saturating_add: "unat (saturating_add a b) = min (unat a + unat b) (2 ^ 64 - 1)"
  by (auto simp: saturating_add_def unat_word_ariths min_def unsigned_minus_1_eq_mask mask_eq_exp_minus_1)

lemma saturating_sub_le: "saturating_sub a b \<le> a"
  by (simp add: word_le_nat_alt unat_saturating_sub)

lemma saturating_add_ge: "a \<le> saturating_add a b"
  using unat_u64_less [of a] by (simp add: word_le_nat_alt unat_saturating_add)

section \<open>Results\<close>

definition bind_res :: "'e + 'a \<Rightarrow> ('a \<Rightarrow> 'e + 'b) \<Rightarrow> 'e + 'b" where
  "bind_res r f = (case r of Inl e \<Rightarrow> Inl e | Inr a \<Rightarrow> f a)"

definition ok_or :: "'e \<Rightarrow> 'a option \<Rightarrow> 'e + 'a" where
  "ok_or e x = (case x of None \<Rightarrow> Inl e | Some a \<Rightarrow> Inr a)"

definition ensure :: "bool \<Rightarrow> 'e \<Rightarrow> 'e + unit" where
  "ensure b e = (if b then Inr () else Inl e)"

definition map_err :: "('e \<Rightarrow> 'f) \<Rightarrow> 'e + 'a \<Rightarrow> 'f + 'a" where
  "map_err f r = (case r of Inl e \<Rightarrow> Inl (f e) | Inr a \<Rightarrow> Inr a)"

text \<open>\<open>collect\<close> of an iterator of results, which stops at the first error.\<close>

fun mapM_res :: "('a \<Rightarrow> 'e + 'b) \<Rightarrow> 'a list \<Rightarrow> 'e + 'b list" where
  "mapM_res f [] = Inr []"
| "mapM_res f (x # xs) = bind_res (f x) (\<lambda>y. bind_res (mapM_res f xs) (\<lambda>ys. Inr (y # ys)))"

lemma bind_res_simps [simp]: "bind_res (Inl e) f = Inl e" "bind_res (Inr a) f = f a"
  by (simp_all add: bind_res_def)

lemma bind_res_Inr [simp]: "bind_res r f = Inr b \<longleftrightarrow> (\<exists>a. r = Inr a \<and> f a = Inr b)"
  by (cases r) simp_all

lemma bind_res_Inl: "bind_res r f = Inl e \<longleftrightarrow> r = Inl e \<or> (\<exists>a. r = Inr a \<and> f a = Inl e)"
  by (cases r) simp_all

lemma bind_res_cong [fundef_cong]:
  "r = r' \<Longrightarrow> (\<And>a. r' = Inr a \<Longrightarrow> f a = g a) \<Longrightarrow> bind_res r f = bind_res r' g"
  by (cases r') simp_all

lemma ok_or_simps [simp]: "ok_or e None = Inl e" "ok_or e (Some a) = Inr a"
  by (simp_all add: ok_or_def)

lemma ok_or_Inr [simp]: "ok_or e x = Inr a \<longleftrightarrow> x = Some a"
  by (cases x) simp_all

lemma ensure_simps [simp]: "ensure True e = Inr ()" "ensure False e = Inl e"
  by (simp_all add: ensure_def)

lemma ensure_Inr [simp]: "ensure b e = Inr u \<longleftrightarrow> b"
  by (cases b) simp_all

lemma map_err_simps [simp]: "map_err f (Inl e) = Inl (f e)" "map_err f (Inr a) = Inr a"
  by (simp_all add: map_err_def)

lemma map_err_Inr [simp]: "map_err f r = Inr a \<longleftrightarrow> r = Inr a"
  by (cases r) simp_all

lemma mapM_res_length: "mapM_res f xs = Inr ys \<Longrightarrow> length ys = length xs"
  by (induction xs arbitrary: ys) auto

lemma mapM_res_nth:
  "mapM_res f xs = Inr ys \<Longrightarrow> i < length xs \<Longrightarrow> f (xs ! i) = Inr (ys ! i)"
  by (induction xs arbitrary: ys i) (auto simp: nth_Cons split: nat.split)

lemma mapM_res_set: "mapM_res f xs = Inr ys \<Longrightarrow> y \<in> set ys \<Longrightarrow> \<exists>x\<in>set xs. f x = Inr y"
  by (induction xs arbitrary: ys) auto

lemma mapM_res_ok: "\<forall>x\<in>set xs. f x = Inr (g x) \<Longrightarrow> mapM_res f xs = Inr (map g xs)"
  by (induction xs) auto

lemmas res_defs = bind_res_def ok_or_def ensure_def map_err_def

section \<open>Actions: results that thread a state\<close>

type_synonym ('s, 'e, 'a) act = "'s \<Rightarrow> ('e + 'a) \<times> 's"

definition return_act :: "'a \<Rightarrow> ('s, 'e, 'a) act" where
  "return_act a s = (Inr a, s)"

definition throw_act :: "'e \<Rightarrow> ('s, 'e, 'a) act" where
  "throw_act e s = (Inl e, s)"

definition lift_act :: "'e + 'a \<Rightarrow> ('s, 'e, 'a) act" where
  "lift_act r s = (r, s)"

definition bind_act :: "('s, 'e, 'a) act \<Rightarrow> ('a \<Rightarrow> ('s, 'e, 'b) act) \<Rightarrow> ('s, 'e, 'b) act" where
  "bind_act m f s = (case m s of (Inl e, s') \<Rightarrow> (Inl e, s') | (Inr a, s') \<Rightarrow> f a s')"

definition map_err_act :: "('e \<Rightarrow> 'f) \<Rightarrow> ('s, 'e, 'a) act \<Rightarrow> ('s, 'f, 'a) act" where
  "map_err_act f m s = (case m s of (r, s') \<Rightarrow> (map_err f r, s'))"

text \<open>A result used as a value: \<open>match\<close> on a \<open>Result\<close> instead of \<open>?\<close>.\<close>

definition catch_act :: "('w, 'e, 'a) act \<Rightarrow> ('w, 'f, 'e + 'a) act" where
  "catch_act m w = (case m w of (r, w') \<Rightarrow> (Inr r, w'))"

text \<open>A loop \<open>for x in xs\<close> whose body may fail and changes the state.\<close>

fun for_act :: "'a list \<Rightarrow> ('a \<Rightarrow> ('s, 'e, unit) act) \<Rightarrow> ('s, 'e, unit) act" where
  "for_act [] f = return_act ()"
| "for_act (x # xs) f = bind_act (f x) (\<lambda>_. for_act xs f)"

text \<open>The same loop with a list of results.\<close>

fun mapM_act :: "('a \<Rightarrow> ('s, 'e, 'b) act) \<Rightarrow> 'a list \<Rightarrow> ('s, 'e, 'b list) act" where
  "mapM_act f [] = return_act []"
| "mapM_act f (x # xs) = bind_act (f x) (\<lambda>y. bind_act (mapM_act f xs) (\<lambda>ys. return_act (y # ys)))"

lemma return_act_apply [simp, act_simps]: "return_act a s = (Inr a, s)"
  by (simp add: return_act_def)

lemma throw_act_apply [simp, act_simps]: "throw_act e s = (Inl e, s)"
  by (simp add: throw_act_def)

lemma lift_act_apply [simp, act_simps]: "lift_act r s = (r, s)"
  by (simp add: lift_act_def)

lemma bind_act_Inr:
  "bind_act m f s = (Inr b, s'') \<longleftrightarrow> (\<exists>a s'. m s = (Inr a, s') \<and> f a s' = (Inr b, s''))"
  by (auto simp: bind_act_def split: prod.splits sum.splits)

lemma bind_act_Inl:
  "bind_act m f s = (Inl e, s'') \<longleftrightarrow>
     m s = (Inl e, s'') \<or> (\<exists>a s'. m s = (Inr a, s') \<and> f a s' = (Inl e, s''))"
  by (auto simp: bind_act_def split: prod.splits sum.splits)

lemma bind_act_ok: "m s = (Inr a, s') \<Longrightarrow> bind_act m f s = f a s'"
  by (simp add: bind_act_def)

lemma bind_act_err: "m s = (Inl e, s') \<Longrightarrow> bind_act m f s = (Inl e, s')"
  by (simp add: bind_act_def)

lemma bind_return_act [simp]: "bind_act (return_act a) f = f a"
  by (rule ext) (simp add: bind_act_def)

lemma bind_throw_act [simp]: "bind_act (throw_act e) f = throw_act e"
  by (rule ext) (simp add: bind_act_def)

lemma bind_act_assoc: "bind_act (bind_act m f) g = bind_act m (\<lambda>a. bind_act (f a) g)"
  by (rule ext) (auto simp: bind_act_def split: prod.splits sum.splits)

text \<open>
  The invariant rule of actions: whatever an action leaves behind, on success or on error,
  satisfies \<open>P\<close> if every part of it keeps \<open>P\<close>.
\<close>

definition keeps :: "('s \<Rightarrow> bool) \<Rightarrow> ('s, 'e, 'a) act \<Rightarrow> bool" where
  "keeps P m \<longleftrightarrow> (\<forall>s. P s \<longrightarrow> P (snd (m s)))"

lemma keepsI [intro?]: "(\<And>s. P s \<Longrightarrow> P (snd (m s))) \<Longrightarrow> keeps P m"
  by (simp add: keeps_def)

lemma keepsD: "keeps P m \<Longrightarrow> P s \<Longrightarrow> P (snd (m s))"
  by (simp add: keeps_def)

lemma keeps_return [simp, intro!]: "keeps P (return_act a)"
  by (simp add: keeps_def)

lemma keeps_throw [simp, intro!]: "keeps P (throw_act e)"
  by (simp add: keeps_def)

lemma keeps_lift [simp, intro!]: "keeps P (lift_act r)"
  by (simp add: keeps_def)

lemma keeps_bind [intro]: "keeps P m \<Longrightarrow> (\<And>a. keeps P (f a)) \<Longrightarrow> keeps P (bind_act m f)"
  unfolding keeps_def bind_act_def
proof (intro allI impI)
  fix s
  assume m: "\<forall>s. P s \<longrightarrow> P (snd (m s))" and f: "\<And>a. \<forall>s. P s \<longrightarrow> P (snd (f a s))" and "P s"
  obtain r s' where ms: "m s = (r, s')" by (cases "m s")
  with m \<open>P s\<close> have "P s'" by (metis snd_conv)
  with f show "P (snd (case m s of (Inl e, s') \<Rightarrow> (Inl e, s') | (Inr a, s') \<Rightarrow> f a s'))"
    by (cases r) (simp_all add: ms)
qed

lemma keeps_map_err [intro]: "keeps P m \<Longrightarrow> keeps P (map_err_act f m)"
  by (simp add: keeps_def map_err_act_def split_beta)

lemma keeps_if [intro]: "(b \<Longrightarrow> keeps P m) \<Longrightarrow> (\<not> b \<Longrightarrow> keeps P n) \<Longrightarrow> keeps P (if b then m else n)"
  by simp

lemma keeps_for_act [intro]: "(\<And>x. keeps P (f x)) \<Longrightarrow> keeps P (for_act xs f)"
  by (induction xs) auto

lemma keeps_mapM_act [intro]: "(\<And>x. keeps P (f x)) \<Longrightarrow> keeps P (mapM_act f xs)"
  by (induction xs) auto

text \<open>
  Guarantees of actions: \<open>steps \<rho> m\<close> says that whatever \<open>m\<close> does to a state, on success or on
  error, is allowed by the relation \<open>\<rho>\<close>. For a preorder the guarantee of a compound action
  follows from those of its parts.
\<close>

definition steps :: "('s \<Rightarrow> 's \<Rightarrow> bool) \<Rightarrow> ('s, 'e, 'a) act \<Rightarrow> bool" where
  "steps \<rho> m \<longleftrightarrow> (\<forall>s. \<rho> s (snd (m s)))"

lemma stepsI [intro?]: "(\<And>s. \<rho> s (snd (m s))) \<Longrightarrow> steps \<rho> m"
  by (simp add: steps_def)

lemma stepsD: "steps \<rho> m \<Longrightarrow> m s = (r, s') \<Longrightarrow> \<rho> s s'"
  by (metis steps_def snd_conv)

locale guarantee =
  fixes \<rho> :: "'s \<Rightarrow> 's \<Rightarrow> bool"
  assumes refl: "\<rho> s s"
    and trans: "\<rho> a b \<Longrightarrow> \<rho> b c \<Longrightarrow> \<rho> a c"
begin

lemma pure: "steps \<rho> (return_act a)" "steps \<rho> (throw_act e)" "steps \<rho> (lift_act r)"
  by (simp_all add: steps_def refl)

lemma bind:
  assumes "steps \<rho> m" "\<And>a. steps \<rho> (f a)"
  shows "steps \<rho> (bind_act m f)"
proof (rule stepsI)
  fix s
  obtain r s' where ms: "m s = (r, s')" by (cases "m s")
  have 1: "\<rho> s s'" by (rule stepsD [OF assms(1) ms])
  show "\<rho> s (snd (bind_act m f s))"
  proof (cases r)
    case (Inr a)
    have "\<rho> s' (snd (f a s'))" using assms(2) by (simp add: steps_def)
    then show ?thesis using trans [OF 1] ms Inr by (simp add: bind_act_def)
  qed (simp add: bind_act_def ms 1)
qed

lemma map_error: "steps \<rho> m \<Longrightarrow> steps \<rho> (map_err_act f m)"
  by (simp add: steps_def map_err_act_def split_beta)

lemma catch: "steps \<rho> m \<Longrightarrow> steps \<rho> (catch_act m)"
  by (simp add: steps_def catch_act_def split_beta)

lemma cond: "(b \<Longrightarrow> steps \<rho> m) \<Longrightarrow> (\<not> b \<Longrightarrow> steps \<rho> n) \<Longrightarrow> steps \<rho> (if b then m else n)"
  by simp

lemma for_loop: "(\<And>x. steps \<rho> (f x)) \<Longrightarrow> steps \<rho> (for_act xs f)"
  by (induction xs) (auto intro: pure bind)

lemma map_loop: "(\<And>x. steps \<rho> (f x)) \<Longrightarrow> steps \<rho> (mapM_act f xs)"
  by (induction xs) (auto intro!: pure bind)

lemma case_opt: "(v = None \<Longrightarrow> steps \<rho> m) \<Longrightarrow> (\<And>x. v = Some x \<Longrightarrow> steps \<rho> (f x)) \<Longrightarrow>
    steps \<rho> (case v of None \<Rightarrow> m | Some x \<Rightarrow> f x)"
  by (cases v) auto

lemma case_res: "(\<And>e. r = Inl e \<Longrightarrow> steps \<rho> (g e)) \<Longrightarrow> (\<And>x. r = Inr x \<Longrightarrow> steps \<rho> (f x)) \<Longrightarrow>
    steps \<rho> (case r of Inl e \<Rightarrow> g e | Inr x \<Rightarrow> f x)"
  by (cases r) auto

lemma case_truth: "(b \<Longrightarrow> steps \<rho> m) \<Longrightarrow> (\<not> b \<Longrightarrow> steps \<rho> n) \<Longrightarrow>
    steps \<rho> (case b of True \<Rightarrow> m | False \<Rightarrow> n)"
  by (cases b) auto

lemma case_pair: "(\<And>a b. p = (a, b) \<Longrightarrow> steps \<rho> (f a b)) \<Longrightarrow> steps \<rho> (case p of (a, b) \<Rightarrow> f a b)"
  by (cases p) auto

lemmas rules = pure bind map_error catch cond for_loop map_loop case_opt case_res case_truth case_pair

end

end
