(* ===== verification/Rust_Std.thy ===== *)
theory Rust_Std
  imports Prelude
begin

text \<open>
  The parts of Rust's standard library that the mediator's code calls, as executable
  functions: string scanning and splitting, decimal formatting and parsing of \<open>u64\<close>,
  UTF-8 validation, and \<open>BTreeMap\<close> / \<open>BTreeSet\<close> as lists kept sorted by key. A
  \<open>HashMap\<close> whose size or iteration order the code looks at is an association list with
  distinct keys (\<open>AList.update\<close>, \<open>AList.delete\<close>); its order stands for the unspecified
  iteration order, and no theorem depends on which order it is.
\<close>

section \<open>Strings\<close>

definition starts_with :: "string \<Rightarrow> string \<Rightarrow> bool" where
  "starts_with s p \<longleftrightarrow> take (length p) s = p"

definition ends_with :: "string \<Rightarrow> string \<Rightarrow> bool" where
  "ends_with s p \<longleftrightarrow> length p \<le> length s \<and> drop (length s - length p) s = p"

definition strip_prefix :: "string \<Rightarrow> string \<Rightarrow> string option" where
  "strip_prefix p s = (if starts_with s p then Some (drop (length p) s) else None)"

definition strip_suffix :: "string \<Rightarrow> string \<Rightarrow> string option" where
  "strip_suffix p s = (if ends_with s p then Some (take (length s - length p) s) else None)"

text \<open>\<open>str::split_once\<close>, \<open>rsplit_once\<close> and \<open>split\<close> with a one-byte pattern.\<close>

fun split_once :: "char \<Rightarrow> string \<Rightarrow> (string \<times> string) option" where
  "split_once c [] = None"
| "split_once c (x # xs) =
     (if x = c then Some ([], xs)
      else map_option (\<lambda>(a, b). (x # a, b)) (split_once c xs))"

definition rsplit_once :: "char \<Rightarrow> string \<Rightarrow> (string \<times> string) option" where
  "rsplit_once c s = map_option (\<lambda>(a, b). (rev b, rev a)) (split_once c (rev s))"

fun split :: "char \<Rightarrow> string \<Rightarrow> string list" where
  "split c [] = [[]]"
| "split c (x # xs) =
     (if x = c then [] # split c xs
      else (case split c xs of [] \<Rightarrow> [[x]] | y # ys \<Rightarrow> (x # y) # ys))"

fun join :: "string \<Rightarrow> string list \<Rightarrow> string" where
  "join sep [] = []"
| "join sep [x] = x"
| "join sep (x # y # ys) = x @ sep @ join sep (y # ys)"

definition trim_end_matches :: "char \<Rightarrow> string \<Rightarrow> string" where
  "trim_end_matches c s = rev (dropWhile (\<lambda>x. x = c) (rev s))"

definition to_ascii_lowercase :: "string \<Rightarrow> string" where
  "to_ascii_lowercase s = map (\<lambda>c. if 65 \<le> (of_char c :: nat) \<and> (of_char c :: nat) \<le> 90
     then char_of ((of_char c :: nat) + 32) else c) s"

text \<open>\<open>str::replace\<close> with a non-empty pattern: matches do not overlap; \<open>n\<close> bytes of a match are skipped.\<close>

fun replace_skip :: "nat \<Rightarrow> string \<Rightarrow> string \<Rightarrow> string \<Rightarrow> string" where
  "replace_skip n p r [] = []"
| "replace_skip (Suc n) p r (c # cs) = replace_skip n p r cs"
| "replace_skip 0 p r (c # cs) =
     (if starts_with (c # cs) p then r @ replace_skip (length p - 1) p r cs
      else c # replace_skip 0 p r cs)"

definition replace :: "string \<Rightarrow> string \<Rightarrow> string \<Rightarrow> string" where
  "replace p r s = replace_skip 0 p r s"

definition is_ascii_digit :: "char \<Rightarrow> bool" where
  "is_ascii_digit c \<longleftrightarrow> 48 \<le> (of_char c :: nat) \<and> (of_char c :: nat) \<le> 57"

definition is_ascii_hexdigit :: "char \<Rightarrow> bool" where
  "is_ascii_hexdigit c \<longleftrightarrow> is_ascii_digit c
     \<or> (65 \<le> (of_char c :: nat) \<and> (of_char c :: nat) \<le> 70)
     \<or> (97 \<le> (of_char c :: nat) \<and> (of_char c :: nat) \<le> 102)"

definition is_ascii_graphic :: "char \<Rightarrow> bool" where
  "is_ascii_graphic c \<longleftrightarrow> 33 \<le> (of_char c :: nat) \<and> (of_char c :: nat) \<le> 126"

definition is_ascii_alphanumeric :: "char \<Rightarrow> bool" where
  "is_ascii_alphanumeric c \<longleftrightarrow> is_ascii_digit c
     \<or> (65 \<le> (of_char c :: nat) \<and> (of_char c :: nat) \<le> 90)
     \<or> (97 \<le> (of_char c :: nat) \<and> (of_char c :: nat) \<le> 122)"

lemma starts_with_append [simp]: "starts_with (p @ s) p"
  by (simp add: starts_with_def)

lemma starts_with_iff: "starts_with s p \<longleftrightarrow> (\<exists>r. s = p @ r)"
  by (metis append_eq_conv_conj append_take_drop_id starts_with_def)

lemma strip_prefix_append [simp]: "strip_prefix p (p @ s) = Some s"
  by (simp add: strip_prefix_def)

lemma strip_prefix_Some: "strip_prefix p s = Some r \<longleftrightarrow> s = p @ r"
  by (auto simp: strip_prefix_def starts_with_iff)

lemma split_once_Some:
  "split_once c s = Some (a, b) \<longleftrightarrow> s = a @ c # b \<and> c \<notin> set a"
proof (induction s arbitrary: a)
  case Nil
  then show ?case by simp
next
  case (Cons x xs)
  then show ?case by (cases a) auto
qed

lemma split_once_None: "split_once c s = None \<longleftrightarrow> c \<notin> set s"
  by (induction s) auto

lemma split_once_append [simp]: "c \<notin> set a \<Longrightarrow> split_once c (a @ c # b) = Some (a, b)"
  by (simp add: split_once_Some)

lemma split_append: "split c (s @ c # t) = split c s @ split c t"
proof (induction s)
  case (Cons x s)
  have "split c s \<noteq> []" by (cases s) (auto split: list.split)
  then show ?case using Cons by (cases "split c s") auto
qed simp

lemma split_none: "c \<notin> set t \<Longrightarrow> split c t = [t]"
  by (induction t) auto

lemma rsplit_once_Some:
  "rsplit_once c s = Some (a, b) \<longleftrightarrow> s = a @ c # b \<and> c \<notin> set b"
proof
  assume "rsplit_once c s = Some (a, b)"
  then obtain u v where uv: "split_once c (rev s) = Some (u, v)" and ab: "a = rev v" "b = rev u"
    by (auto simp: rsplit_once_def)
  from uv have "rev s = u @ c # v" and "c \<notin> set u" by (auto simp: split_once_Some)
  then have "s = rev (u @ c # v)" by (metis rev_rev_ident)
  then show "s = a @ c # b \<and> c \<notin> set b" using ab \<open>c \<notin> set u\<close> by simp
next
  assume "s = a @ c # b \<and> c \<notin> set b"
  then have "split_once c (rev s) = Some (rev b, rev a)" by simp
  then show "rsplit_once c s = Some (a, b)" by (simp add: rsplit_once_def)
qed

lemma split_nonempty [simp]: "split c s \<noteq> []"
  by (induction s) (auto split: list.splits)

lemma join_split: "join [c] (split c s) = s"
proof (induction s)
  case Nil
  then show ?case by simp
next
  case (Cons x xs)
  obtain y ys where ys: "split c xs = y # ys" by (metis neq_Nil_conv split_nonempty)
  with Cons show ?case by (cases ys) auto
qed

lemma split_parts: "p \<in> set (split c s) \<Longrightarrow> c \<notin> set p"
  by (induction s arbitrary: p) (auto split: list.splits if_splits)

section \<open>Decimal numerals\<close>

fun show_nat :: "nat \<Rightarrow> string" where
  "show_nat n = (if n < 10 then [char_of (48 + n)] else show_nat (n div 10) @ [char_of (48 + n mod 10)])"

declare show_nat.simps [simp del]

definition digits_val :: "string \<Rightarrow> nat" where
  "digits_val s = foldl (\<lambda>a c. a * 10 + (of_char c - 48)) 0 s"

text \<open>\<open>u64::from_str\<close>: an optional \<open>+\<close>, at least one digit, and no overflow.\<close>

definition parse_u64 :: "string \<Rightarrow> u64 option" where
  "parse_u64 s =
     (let ds = (case s of [] \<Rightarrow> [] | c # cs \<Rightarrow> if c = CHR ''+'' then cs else s)
      in if ds = [] \<or> \<not> list_all is_ascii_digit ds then None
         else if digits_val ds < 2 ^ 64 then Some (of_nat (digits_val ds)) else None)"

definition show_u64 :: "u64 \<Rightarrow> string" where
  "show_u64 w = show_nat (unat w)"

lemma of_char_digit: "n < 10 \<Longrightarrow> of_char (char_of (48 + n) :: char) = (48 + n :: nat)"
  by simp

lemma is_ascii_digit_char_of: "(n :: nat) < 10 \<Longrightarrow> is_ascii_digit (char_of (48 + n))"
  by (simp add: is_ascii_digit_def of_char_digit)

lemma show_nat_digits: "list_all is_ascii_digit (show_nat n)"
proof (induction n rule: show_nat.induct)
  case (1 n)
  then show ?case
    by (subst show_nat.simps) (simp add: is_ascii_digit_char_of)
qed

lemma show_nat_nonempty [simp]: "show_nat n \<noteq> []"
  by (subst show_nat.simps) simp

lemma digits_val_show_nat [simp]: "digits_val (show_nat n) = n"
proof (induction n rule: show_nat.induct)
  case (1 n)
  show ?case
  proof (cases "n < 10")
    case True
    then show ?thesis by (simp add: show_nat.simps [of n] digits_val_def)
  next
    case False
    with 1 have IH: "digits_val (show_nat (n div 10)) = n div 10" by simp
    have "digits_val (show_nat n)
        = digits_val (show_nat (n div 10)) * 10 + (of_char (char_of (48 + n mod 10) :: char) - 48)"
      using False by (simp add: show_nat.simps [of n] digits_val_def)
    also have "\<dots> = n" by (simp add: IH of_char_digit)
    finally show ?thesis .
  qed
qed

lemma digit_not_plus: "is_ascii_digit c \<Longrightarrow> c \<noteq> CHR ''+''"
  by (auto simp: is_ascii_digit_def)

lemma digit_not_minus: "is_ascii_digit c \<Longrightarrow> c \<noteq> CHR ''-''"
  by (auto simp: is_ascii_digit_def)

lemma show_nat_no_minus [simp]: "CHR ''-'' \<notin> set (show_nat n)"
  using show_nat_digits [of n] digit_not_minus by (auto simp: list_all_iff)

lemma parse_show_u64 [simp]: "parse_u64 (show_u64 w) = Some w"
proof -
  obtain c cs where c: "show_nat (unat w) = c # cs" by (metis neq_Nil_conv show_nat_nonempty)
  have d: "list_all is_ascii_digit (show_nat (unat w))" by (rule show_nat_digits)
  with c have "c \<noteq> CHR ''+''" using digit_not_plus by simp
  then show ?thesis
    using c d digits_val_show_nat [of "unat w"] unat_u64_less [of w]
    by (simp add: parse_u64_def show_u64_def)
qed

section \<open>UTF-8\<close>

definition is_cont :: "nat \<Rightarrow> bool" where
  "is_cont b \<longleftrightarrow> 128 \<le> b \<and> b \<le> 191"

text \<open>The well-formed byte sequences of Unicode, table 3-7, which \<open>String::from_utf8\<close> accepts.\<close>

fun utf8_nats :: "nat list \<Rightarrow> bool" where
  "utf8_nats [] = True"
| "utf8_nats (b # bs) =
     (if b < 128 then utf8_nats bs
      else if 194 \<le> b \<and> b \<le> 223 then
        (case bs of c # r \<Rightarrow> is_cont c \<and> utf8_nats r | _ \<Rightarrow> False)
      else if 224 \<le> b \<and> b \<le> 239 then
        (case bs of c # d # r \<Rightarrow>
           (if b = 224 then 160 \<le> c \<and> c \<le> 191
            else if b = 237 then 128 \<le> c \<and> c \<le> 159 else is_cont c)
           \<and> is_cont d \<and> utf8_nats r | _ \<Rightarrow> False)
      else if 240 \<le> b \<and> b \<le> 244 then
        (case bs of c # d # e # r \<Rightarrow>
           (if b = 240 then 144 \<le> c \<and> c \<le> 191
            else if b = 244 then 128 \<le> c \<and> c \<le> 143 else is_cont c)
           \<and> is_cont d \<and> is_cont e \<and> utf8_nats r | _ \<Rightarrow> False)
      else False)"

definition from_utf8 :: "bytes \<Rightarrow> string option" where
  "from_utf8 bs = (if utf8_nats (map of_char bs) then Some bs else None)"

definition is_char_boundary :: "string \<Rightarrow> nat \<Rightarrow> bool" where
  "is_char_boundary s i \<longleftrightarrow>
     i = 0 \<or> i = length s \<or> (i < length s \<and> \<not> is_cont (of_char (s ! i)))"

lemma from_utf8_Some: "from_utf8 bs = Some s \<Longrightarrow> s = bs"
  by (simp add: from_utf8_def split: if_splits)

lemma utf8_ascii: "\<forall>b\<in>set bs. b < 128 \<Longrightarrow> utf8_nats bs"
  by (induction bs) auto

lemma from_utf8_ascii: "\<forall>c\<in>set s. of_char c < (128 :: nat) \<Longrightarrow> from_utf8 s = Some s"
  by (simp add: from_utf8_def utf8_ascii)

section \<open>BTreeMap and BTreeSet\<close>

fun bt_insert :: "'k::linorder \<Rightarrow> 'v \<Rightarrow> ('k \<times> 'v) list \<Rightarrow> ('k \<times> 'v) list" where
  "bt_insert k v [] = [(k, v)]"
| "bt_insert k v ((k', v') # m) =
     (if k < k' then (k, v) # (k', v') # m
      else if k = k' then (k, v) # m
      else (k', v') # bt_insert k v m)"

definition bt_remove :: "'k \<Rightarrow> ('k \<times> 'v) list \<Rightarrow> ('k \<times> 'v) list" where
  "bt_remove k m = filter (\<lambda>e. fst e \<noteq> k) m"

definition bt_wf :: "('k::linorder \<times> 'v) list \<Rightarrow> bool" where
  "bt_wf m \<longleftrightarrow> sorted (map fst m) \<and> distinct (map fst m)"

lemma bt_wf_Nil [simp]: "bt_wf []"
  by (simp add: bt_wf_def)

lemma map_of_bt_insert [simp]: "map_of (bt_insert k v m) = (map_of m)(k \<mapsto> v)"
  by (induction k v m rule: bt_insert.induct) auto

lemma map_of_bt_remove [simp]: "map_of (bt_remove k m) = (map_of m)(k := None)"
  by (induction m) (auto simp: bt_remove_def)

lemma keys_bt_insert: "fst ` set (bt_insert k v m) = insert k (fst ` set m)"
  by (induction k v m rule: bt_insert.induct) auto

lemma bt_wf_insert [simp]: "bt_wf m \<Longrightarrow> bt_wf (bt_insert k v m)"
proof (induction k v m rule: bt_insert.induct)
  case (2 k v k' v' m)
  have IH: "k' < k \<Longrightarrow> sorted (map fst (bt_insert k v m)) \<and> distinct (map fst (bt_insert k v m))"
    using 2 by (auto simp: bt_wf_def)
  show ?case
  proof (cases "k' < k")
    case True
    have "fst ` set (bt_insert k v m) = insert k (fst ` set m)" by (rule keys_bt_insert)
    then show ?thesis using True IH 2(2) by (auto simp: bt_wf_def)
  next
    case False
    then show ?thesis using 2(2) by (force simp: bt_wf_def)
  qed
qed (simp add: bt_wf_def)

lemma bt_wf_filter [simp]: "bt_wf m \<Longrightarrow> bt_wf (filter P m)"
  by (induction m) (auto simp: bt_wf_def)

lemma bt_wf_remove [simp]: "bt_wf m \<Longrightarrow> bt_wf (bt_remove k m)"
  by (simp add: bt_remove_def)

lemma bt_wf_map_snd [simp]: "bt_wf (map (\<lambda>(k, v). (k, f k v)) m) = bt_wf m"
  by (simp add: bt_wf_def comp_def case_prod_beta')

lemma length_bt_insert_old: "bt_wf m \<Longrightarrow> k \<in> fst ` set m \<Longrightarrow> length (bt_insert k v m) = length m"
  by (induction k v m rule: bt_insert.induct) (auto simp: bt_wf_def)

lemma length_bt_insert_new: "k \<notin> fst ` set m \<Longrightarrow> length (bt_insert k v m) = Suc (length m)"
  by (induction k v m rule: bt_insert.induct) auto


lemma length_bt_insert_le: "length (bt_insert k v m) \<le> Suc (length m)"
  by (induction k v m rule: bt_insert.induct) auto

text \<open>\<open>AList.update\<close> as \<open>HashMap::insert\<close>: what it adds, and by how much it grows.\<close>

lemma set_alist_update: "e \<in> set (AList.update k v m) \<Longrightarrow> e = (k, v) \<or> e \<in> set m"
  by (induction m) (auto split: if_splits)

lemma length_alist_update_le: "length (AList.update k v m) \<le> Suc (length m)"
  by (induction m) auto

lemma length_alist_update_old: "k \<in> fst ` set m \<Longrightarrow> length (AList.update k v m) = length m"
  by (induction m) auto

lemma length_alist_update_new: "k \<notin> fst ` set m \<Longrightarrow> length (AList.update k v m) = Suc (length m)"
  by (induction m) auto

lemma map_of_map_key: "map_of (map (\<lambda>(k, v). (k, f k v)) m) k = map_option (f k) (map_of m k)"
  by (induction m) auto

end
