(* ===== verification/Json.thy ===== *)
theory Json
  imports Rust_Std
begin

text \<open>
  JSON values and the errors of the DIDComm library. \<open>json\<close> is \<open>serde_json::Value\<close>; the
  workspace builds \<open>serde_json\<close> with \<open>preserve_order\<close>, so an object is an association list in
  insertion order. A value read from a text keeps the members as the text has them;
  \<open>json_dedup\<close> is what \<open>Value\<close> makes of repeated keys, and \<open>de_fields\<close> is what a derived
  \<open>Deserialize\<close> of a struct makes of an object (repeated known fields are an error) or of an
  array (the fields in declaration order). \<open>error\<close> is \<open>crates/didcomm/src/error.rs\<close>.
\<close>

section \<open>Values\<close>

datatype jnum = PosInt u64 | NegInt int | Float string

datatype json = JNull | JBool bool | JNum jnum | JStr string | JArr "json list"
  | JObj "(string \<times> json) list"

abbreviation JU64 :: "u64 \<Rightarrow> json" where
  "JU64 n \<equiv> JNum (PosInt n)"

abbreviation JNat :: "nat \<Rightarrow> json" where
  "JNat n \<equiv> JNum (PosInt (of_nat n))"

text \<open>\<open>Value::get\<close> with a string key, and the \<open>as_\<close> views.\<close>

fun jget :: "string \<Rightarrow> json \<Rightarrow> json option" where
  "jget k (JObj m) = map_of m k"
| "jget k _ = None"

fun as_str :: "json \<Rightarrow> string option" where
  "as_str (JStr s) = Some s"
| "as_str _ = None"

fun as_bool :: "json \<Rightarrow> bool option" where
  "as_bool (JBool b) = Some b"
| "as_bool _ = None"

fun as_u64 :: "json \<Rightarrow> u64 option" where
  "as_u64 (JNum (PosInt n)) = Some n"
| "as_u64 _ = None"

fun as_array :: "json \<Rightarrow> json list option" where
  "as_array (JArr vs) = Some vs"
| "as_array _ = None"

fun as_object :: "json \<Rightarrow> (string \<times> json) list option" where
  "as_object (JObj m) = Some m"
| "as_object _ = None"

definition is_object :: "json \<Rightarrow> bool" where
  "is_object v \<longleftrightarrow> as_object v \<noteq> None"

text \<open>\<open>value[k] = v\<close> on an object, \<open>value[k]\<close> as an rvalue, and a string-valued member.\<close>

fun jset :: "string \<Rightarrow> json \<Rightarrow> json \<Rightarrow> json" where
  "jset k v (JObj m) = JObj (AList.update k v m)"
| "jset k v j = j"

definition jindex :: "string \<Rightarrow> json \<Rightarrow> json" where
  "jindex k j = (case jget k j of None \<Rightarrow> JNull | Some v \<Rightarrow> v)"

definition jget_str :: "string \<Rightarrow> json \<Rightarrow> string option" where
  "jget_str k j = Option.bind (jget k j) as_str"

lemma as_str_Some [simp]: "as_str v = Some s \<longleftrightarrow> v = JStr s"
  by (cases v) auto

lemma as_object_Some [simp]: "as_object v = Some m \<longleftrightarrow> v = JObj m"
  by (cases v) auto

lemma as_array_Some [simp]: "as_array v = Some m \<longleftrightarrow> v = JArr m"
  by (cases v) auto

lemma as_bool_Some [simp]: "as_bool v = Some b \<longleftrightarrow> v = JBool b"
  by (cases v) auto

lemma as_u64_Some [simp]: "as_u64 v = Some n \<longleftrightarrow> v = JU64 n"
  by (cases v rule: as_u64.cases) auto

lemma is_object_JObj [simp]: "is_object (JObj m)"
  by (simp add: is_object_def)

lemma jget_jset [simp]: "is_object j \<Longrightarrow> jget k (jset k' v j) = (if k = k' then Some v else jget k j)"
  by (cases j) (auto simp: is_object_def update_conv)

lemma is_object_jset [simp]: "is_object (jset k v j) = is_object j"
  by (cases j) (auto simp: is_object_def)

section \<open>Objects with repeated keys, and derived decoders\<close>

fun obj_of :: "(string \<times> json) list \<Rightarrow> (string \<times> json) list \<Rightarrow> (string \<times> json) list" where
  "obj_of acc [] = acc"
| "obj_of acc ((k, v) # m) = obj_of (AList.update k v acc) m"

fun json_dedup :: "json \<Rightarrow> json" where
  "json_dedup (JArr vs) = JArr (map json_dedup vs)"
| "json_dedup (JObj m) = JObj (obj_of [] (map (\<lambda>e. (fst e, json_dedup (snd e))) m))"
| "json_dedup v = v"

fun json_wf :: "json \<Rightarrow> bool" where
  "json_wf (JArr vs) = (\<forall>v\<in>set vs. json_wf v)"
| "json_wf (JObj m) = (distinct (map fst m) \<and> (\<forall>e\<in>set m. json_wf (snd e)))"
| "json_wf v = True"

text \<open>The values whose text every JSON library reads back: no floating point numbers.\<close>

fun json_plain :: "json \<Rightarrow> bool" where
  "json_plain (JNum (PosInt _)) = True"
| "json_plain (JNum _) = False"
| "json_plain (JArr vs) = (\<forall>v\<in>set vs. json_plain v)"
| "json_plain (JObj m) = (\<forall>e\<in>set m. json_plain (snd e))"
| "json_plain _ = True"

definition de_fields :: "string list \<Rightarrow> json \<Rightarrow> (string \<Rightarrow> json option) option" where
  "de_fields names v =
     (case v of
        JObj m \<Rightarrow> if distinct (filter (\<lambda>k. k \<in> set names) (map fst m)) then Some (map_of m) else None
      | JArr vs \<Rightarrow> if length vs \<le> length names then Some (map_of (zip names vs)) else None
      | _ \<Rightarrow> None)"

text \<open>A required string field, and an \<open>Option\<close> field with \<open>#[serde(default)]\<close>: \<open>null\<close> is \<open>None\<close>.\<close>

definition req_str :: "(string \<Rightarrow> json option) \<Rightarrow> string \<Rightarrow> string option" where
  "req_str f k = Option.bind (f k) as_str"

definition opt_field :: "(json \<Rightarrow> 'a option) \<Rightarrow> (string \<Rightarrow> json option) \<Rightarrow> string \<Rightarrow> 'a option option" where
  "opt_field d f k =
     (case f k of
        None \<Rightarrow> Some None
      | Some JNull \<Rightarrow> Some None
      | Some v \<Rightarrow> map_option Some (d v))"

fun mapM_opt :: "('a \<Rightarrow> 'b option) \<Rightarrow> 'a list \<Rightarrow> 'b list option" where
  "mapM_opt f [] = Some []"
| "mapM_opt f (x # xs) = Option.bind (f x) (\<lambda>y. map_option ((#) y) (mapM_opt f xs))"

definition de_string_list :: "json \<Rightarrow> string list option" where
  "de_string_list v = Option.bind (as_array v) (mapM_opt as_str)"

lemma mapM_opt_map: "(\<And>x. x \<in> set xs \<Longrightarrow> f (g x) = Some x) \<Longrightarrow> mapM_opt f (map g xs) = Some xs"
  by (induction xs) auto

lemma de_string_list_map [simp]: "de_string_list (JArr (map JStr xs)) = Some xs"
  by (simp add: de_string_list_def mapM_opt_map)

lemma obj_of_distinct:
  "distinct (map fst acc @ map fst m) \<Longrightarrow> obj_of acc m = acc @ m"
proof (induction acc m rule: obj_of.induct)
  case (2 acc k v m)
  then have "k \<notin> fst ` set acc" by auto
  then have "AList.update k v acc = acc @ [(k, v)]" by (induction acc) auto
  with 2 show ?case by auto
qed simp

lemma json_dedup_wf [simp]: "json_wf v \<Longrightarrow> json_dedup v = v"
proof (induction v rule: json_wf.induct)
  case (1 vs)
  then show ?case by (simp add: map_idI)
next
  case (2 m)
  then have "map (\<lambda>e. (fst e, json_dedup (snd e))) m = m"
    by (intro map_idI) auto
  with 2 show ?case by (simp add: obj_of_distinct)
qed simp_all

section \<open>Errors of the DIDComm library\<close>

datatype error = Malformed string | Unsupported string | InvalidKey string | Crypto string
  | DidNotFound string | DidUrlNotFound string | SecretNotFound string
  | NoCompatibleKeys string | Inconsistent string | Resolver string

text \<open>\<open>impl From<serde_json::Error> for Error\<close>.\<close>

definition json_error :: "string \<Rightarrow> error" where
  "json_error e = Malformed (''JSON: '' @ e)"

end
