(* ===== verification/Extern.thy ===== *)
theory Extern
  imports Json
begin

text \<open>
  What the DIDComm library takes from other crates. The key, cipher, hash, base64 and JSON
  text functions are not part of this repository, so they are the fields of a record \<open>ext\<close>
  that every definition which uses them takes as an argument; the theorems that rely on their
  documented behaviour say so with a named hypothesis. The enumerations the record's types
  need (\<open>Curve\<close>, \<open>ContentEncryption\<close>) are the repository's own. \<open>node\<close> is the state that
  packing and unpacking change: what the DID resolver remembers, and how many random draws
  were made.
\<close>

datatype curve = Ed25519 | X25519 | P256 | P384 | P521 | Secp256k1

datatype content_encryption = A256CbcHs512 | A256Gcm | Xc20p

record ext =
  json_parse :: "string \<Rightarrow> string + json"
  json_print :: "json \<Rightarrow> string"
  serde_text :: "string"
  b64_enc :: "bytes \<Rightarrow> string"
  b64_dec :: "string \<Rightarrow> bytes option"
  b58_enc :: "bytes \<Rightarrow> string"
  b58_dec :: "string \<Rightarrow> bytes option"
  sha256 :: "bytes \<Rightarrow> bytes"
  hmac_sha512 :: "bytes \<Rightarrow> bytes \<Rightarrow> bytes"
  pk_decode :: "curve \<Rightarrow> bytes \<Rightarrow> bytes option"
  pk_point :: "curve \<Rightarrow> bytes \<Rightarrow> bytes"
  sk_decode :: "curve \<Rightarrow> bytes \<Rightarrow> bytes option"
  sk_public :: "curve \<Rightarrow> bytes \<Rightarrow> bytes"
  ed_montgomery :: "bytes \<Rightarrow> bytes"
  ecdh :: "curve \<Rightarrow> bytes \<Rightarrow> bytes \<Rightarrow> bytes"
  contributory :: "bytes \<Rightarrow> bytes \<Rightarrow> bool"
  sig_sign :: "curve \<Rightarrow> bytes \<Rightarrow> bytes \<Rightarrow> bytes option"
  sig_verify :: "curve \<Rightarrow> bytes \<Rightarrow> bytes \<Rightarrow> bytes \<Rightarrow> bool"
  kw_wrap :: "bytes \<Rightarrow> bytes \<Rightarrow> bytes option"
  kw_unwrap :: "bytes \<Rightarrow> bytes \<Rightarrow> bytes option"
  cbc_encrypt :: "bytes \<Rightarrow> bytes \<Rightarrow> bytes \<Rightarrow> bytes"
  cbc_decrypt :: "bytes \<Rightarrow> bytes \<Rightarrow> bytes \<Rightarrow> bytes option"
  aead_seal :: "content_encryption \<Rightarrow> bytes \<Rightarrow> bytes \<Rightarrow> bytes \<Rightarrow> bytes \<Rightarrow> (bytes \<times> bytes) option"
  aead_open :: "content_encryption \<Rightarrow> bytes \<Rightarrow> bytes \<Rightarrow> bytes \<Rightarrow> bytes \<Rightarrow> bytes \<Rightarrow> bytes option"
  random_bytes :: "nat \<Rightarrow> nat \<Rightarrow> bytes option"
  uuid_v4 :: "nat \<Rightarrow> string"

record 'r node =
  resolver_state :: 'r
  draws :: nat

text \<open>\<open>getrandom::fill\<close> and \<open>Uuid::new_v4\<close>: the \<open>n\<close>-th draw of the process.\<close>

definition random_fill :: "ext \<Rightarrow> nat \<Rightarrow> (('r, 'z) node_scheme, error, bytes) act" where
  "random_fill X len s =
     (ok_or (Crypto ''random number generator'') (random_bytes X (draws s) len),
      s\<lparr>draws := Suc (draws s)\<rparr>)"

definition draw_uuid :: "ext \<Rightarrow> (('r, 'z) node_scheme, 'e, string) act" where
  "draw_uuid X s = (Inr (uuid_v4 X (draws s)), s\<lparr>draws := Suc (draws s)\<rparr>)"

text \<open>
  \<open>crates/didcomm/src/b64.rs\<close>: unpadded base64url, with the crate's own error; and
  \<open>serde_json::from_str\<close> into a \<open>Value\<close> or into a struct with decoder \<open>d\<close>.
\<close>

definition b64_encode :: "ext \<Rightarrow> bytes \<Rightarrow> string" where
  "b64_encode X bs = b64_enc X bs"

definition b64_decode :: "ext \<Rightarrow> string \<Rightarrow> error + bytes" where
  "b64_decode X t = ok_or (Malformed ''invalid base64url'') (b64_dec X t)"

definition from_str_value :: "ext \<Rightarrow> string \<Rightarrow> error + json" where
  "from_str_value X t =
     (case json_parse X t of Inl e \<Rightarrow> Inl (json_error e) | Inr v \<Rightarrow> Inr (json_dedup v))"

definition from_str_as :: "ext \<Rightarrow> (json \<Rightarrow> 'a option) \<Rightarrow> string \<Rightarrow> error + 'a" where
  "from_str_as X d t =
     (case json_parse X t of
        Inl e \<Rightarrow> Inl (json_error e)
      | Inr v \<Rightarrow> ok_or (json_error (serde_text X)) (d v))"

definition from_value_as :: "ext \<Rightarrow> (json \<Rightarrow> 'a option) \<Rightarrow> json \<Rightarrow> error + 'a" where
  "from_value_as X d v = ok_or (json_error (serde_text X)) (d v)"

end
