(* ===== verification/Keys.thy ===== *)
theory Keys
  imports Extern
begin

text \<open>
  Typed keys: \<open>crates/didcomm/src/crypto/keys.rs\<close> and \<open>crates/didcomm/src/jwk.rs\<close>. A key of a
  curve crate is held as its canonical encoding (what the crate's \<open>to_bytes\<close> or compressed
  point gives); decoding, point expansion, signing and ECDH are the fields of \<open>ext\<close>.
\<close>

section \<open>Curves\<close>

definition from_jwk_crv :: "string \<Rightarrow> error + curve" where
  "from_jwk_crv crv =
     (if crv = ''Ed25519'' then Inr Ed25519
      else if crv = ''X25519'' then Inr X25519
      else if crv = ''P-256'' then Inr P256
      else if crv = ''P-384'' then Inr P384
      else if crv = ''P-521'' then Inr P521
      else if crv = ''secp256k1'' then Inr Secp256k1
      else Inl (Unsupported (''curve '' @ crv)))"

fun jwk_crv :: "curve \<Rightarrow> string" where
  "jwk_crv Ed25519 = ''Ed25519''"
| "jwk_crv X25519 = ''X25519''"
| "jwk_crv P256 = ''P-256''"
| "jwk_crv P384 = ''P-384''"
| "jwk_crv P521 = ''P-521''"
| "jwk_crv Secp256k1 = ''secp256k1''"

fun jwk_kty :: "curve \<Rightarrow> string" where
  "jwk_kty Ed25519 = ''OKP''"
| "jwk_kty X25519 = ''OKP''"
| "jwk_kty _ = ''EC''"

definition is_key_agreement :: "curve \<Rightarrow> bool" where
  "is_key_agreement c \<longleftrightarrow> c = X25519 \<or> c = P256 \<or> c = P384 \<or> c = P521"

fun signature_alg :: "curve \<Rightarrow> string option" where
  "signature_alg Ed25519 = Some ''EdDSA''"
| "signature_alg P256 = Some ''ES256''"
| "signature_alg Secp256k1 = Some ''ES256K''"
| "signature_alg _ = None"

fun field_len :: "curve \<Rightarrow> nat" where
  "field_len P384 = 48"
| "field_len P521 = 66"
| "field_len _ = 32"

section \<open>Keys\<close>

record jwk =
  j_kty :: string
  j_crv :: string
  j_x :: string
  j_y :: "string option"
  j_d :: "string option"
  j_kid :: "string option"

datatype public_key = PkEd25519 bytes | PkX25519 bytes | PkP256 bytes | PkP384 bytes
  | PkP521 bytes | PkSecp256k1 bytes

datatype secret_key = SkEd25519 bytes | SkX25519 bytes | SkP256 bytes | SkP384 bytes
  | SkP521 bytes | SkSecp256k1 bytes

fun pk_curve :: "public_key \<Rightarrow> curve" where
  "pk_curve (PkEd25519 _) = Ed25519"
| "pk_curve (PkX25519 _) = X25519"
| "pk_curve (PkP256 _) = P256"
| "pk_curve (PkP384 _) = P384"
| "pk_curve (PkP521 _) = P521"
| "pk_curve (PkSecp256k1 _) = Secp256k1"

fun public_to_bytes :: "public_key \<Rightarrow> bytes" where
  "public_to_bytes (PkEd25519 k) = k"
| "public_to_bytes (PkX25519 k) = k"
| "public_to_bytes (PkP256 k) = k"
| "public_to_bytes (PkP384 k) = k"
| "public_to_bytes (PkP521 k) = k"
| "public_to_bytes (PkSecp256k1 k) = k"

definition public_from_bytes :: "ext \<Rightarrow> curve \<Rightarrow> bytes \<Rightarrow> error + public_key" where
  "public_from_bytes X c bs =
     (let bad = InvalidKey (jwk_crv c @ '' public key'') in
      case c of
        Ed25519 \<Rightarrow> bind_res (ensure (length bs = 32) bad)
          (\<lambda>_. ok_or bad (map_option PkEd25519 (pk_decode X Ed25519 bs)))
      | X25519 \<Rightarrow> bind_res (ensure (length bs = 32) bad) (\<lambda>_. Inr (PkX25519 bs))
      | P256 \<Rightarrow> ok_or bad (map_option PkP256 (pk_decode X P256 bs))
      | P384 \<Rightarrow> ok_or bad (map_option PkP384 (pk_decode X P384 bs))
      | P521 \<Rightarrow> ok_or bad (map_option PkP521 (pk_decode X P521 bs))
      | Secp256k1 \<Rightarrow> ok_or bad (map_option PkSecp256k1 (pk_decode X Secp256k1 bs)))"

fun uncompressed :: "ext \<Rightarrow> public_key \<Rightarrow> bytes option" where
  "uncompressed X (PkP256 k) = Some (pk_point X P256 k)"
| "uncompressed X (PkP384 k) = Some (pk_point X P384 k)"
| "uncompressed X (PkP521 k) = Some (pk_point X P521 k)"
| "uncompressed X (PkSecp256k1 k) = Some (pk_point X Secp256k1 k)"
| "uncompressed X (PkEd25519 _) = None"
| "uncompressed X (PkX25519 _) = None"

definition public_from_jwk :: "ext \<Rightarrow> jwk \<Rightarrow> error + public_key" where
  "public_from_jwk X j =
     bind_res (from_jwk_crv (j_crv j)) (\<lambda>c.
     bind_res (ensure (j_kty j = jwk_kty c)
       (InvalidKey (''kty '' @ j_kty j @ '' with crv '' @ j_crv j))) (\<lambda>_.
     bind_res (b64_decode X (j_x j)) (\<lambda>x.
     if jwk_kty c = ''OKP'' then public_from_bytes X c x
     else
       bind_res (bind_res (ok_or (InvalidKey ''EC JWK without y'') (j_y j)) (b64_decode X)) (\<lambda>y.
       bind_res (ensure (length x = field_len c \<and> length y = field_len c)
         (InvalidKey (j_crv j @ '' coordinate length''))) (\<lambda>_.
       public_from_bytes X c (char_of (4 :: nat) # x @ y))))))"

definition public_to_jwk :: "ext \<Rightarrow> public_key \<Rightarrow> jwk" where
  "public_to_jwk X k =
     (let c = pk_curve k;
          (x, y) = (case uncompressed X k of
             Some point \<Rightarrow>
               (b64_encode X (take (field_len c) (drop 1 point)),
                Some (b64_encode X (drop (1 + field_len c) point)))
           | None \<Rightarrow> (b64_encode X (public_to_bytes k), None))
      in \<lparr>j_kty = jwk_kty c, j_crv = jwk_crv c, j_x = x, j_y = y, j_d = None, j_kid = None\<rparr>)"

definition public_verify :: "ext \<Rightarrow> public_key \<Rightarrow> bytes \<Rightarrow> bytes \<Rightarrow> error + unit" where
  "public_verify X k m sg =
     (case k of
        PkEd25519 p \<Rightarrow> ensure (sig_verify X Ed25519 p m sg) (Crypto ''signature'')
      | PkP256 p \<Rightarrow> ensure (sig_verify X P256 p m sg) (Crypto ''signature'')
      | PkSecp256k1 p \<Rightarrow> ensure (sig_verify X Secp256k1 p m sg) (Crypto ''signature'')
      | _ \<Rightarrow> Inl (Unsupported (''signatures with '' @ jwk_crv (pk_curve k))))"

fun sk_curve :: "secret_key \<Rightarrow> curve" where
  "sk_curve (SkEd25519 _) = Ed25519"
| "sk_curve (SkX25519 _) = X25519"
| "sk_curve (SkP256 _) = P256"
| "sk_curve (SkP384 _) = P384"
| "sk_curve (SkP521 _) = P521"
| "sk_curve (SkSecp256k1 _) = Secp256k1"

fun secret_to_bytes :: "secret_key \<Rightarrow> bytes" where
  "secret_to_bytes (SkEd25519 k) = k"
| "secret_to_bytes (SkX25519 k) = k"
| "secret_to_bytes (SkP256 k) = k"
| "secret_to_bytes (SkP384 k) = k"
| "secret_to_bytes (SkP521 k) = k"
| "secret_to_bytes (SkSecp256k1 k) = k"

definition secret_from_bytes :: "ext \<Rightarrow> curve \<Rightarrow> bytes \<Rightarrow> error + secret_key" where
  "secret_from_bytes X c bs =
     (let bad = InvalidKey (jwk_crv c @ '' private key'') in
      case c of
        Ed25519 \<Rightarrow> bind_res (ensure (length bs = 32) bad) (\<lambda>_. Inr (SkEd25519 bs))
      | X25519 \<Rightarrow> bind_res (ensure (length bs = 32) bad) (\<lambda>_. Inr (SkX25519 bs))
      | P256 \<Rightarrow> ok_or bad (map_option SkP256 (sk_decode X P256 bs))
      | P384 \<Rightarrow> ok_or bad (map_option SkP384 (sk_decode X P384 bs))
      | P521 \<Rightarrow> ok_or bad (map_option SkP521 (sk_decode X P521 bs))
      | Secp256k1 \<Rightarrow> ok_or bad (map_option SkSecp256k1 (sk_decode X Secp256k1 bs)))"

text \<open>
  \<open>SecretKey::generate\<close> draws until a draw is a valid scalar. The loop may run for ever on a
  broken generator, so it has fuel; running out is reported like a failed generator.
  \<open>generate_first\<close> below says that fuel that reaches the first valid draw is enough.
\<close>

definition mask_p521 :: "curve \<Rightarrow> bytes \<Rightarrow> bytes" where
  "mask_p521 c bs =
     (case bs of [] \<Rightarrow> [] | b # r \<Rightarrow> if c = P521 then char_of (of_char b mod 2 :: nat) # r else bs)"

fun generate_fuel :: "nat \<Rightarrow> ext \<Rightarrow> curve \<Rightarrow> (('r, 'z) node_scheme, error, secret_key) act" where
  "generate_fuel 0 X c = throw_act (Crypto ''random number generator'')"
| "generate_fuel (Suc n) X c =
     bind_act (random_fill X (field_len c)) (\<lambda>bs.
       case secret_from_bytes X c (mask_p521 c bs) of
         Inr key \<Rightarrow> return_act key
       | Inl _ \<Rightarrow> generate_fuel n X c)"

definition GENERATE_FUEL :: nat where
  "GENERATE_FUEL = 64"

definition generate :: "ext \<Rightarrow> curve \<Rightarrow> (('r, 'z) node_scheme, error, secret_key) act" where
  "generate X c = generate_fuel GENERATE_FUEL X c"

fun public_key_of :: "ext \<Rightarrow> secret_key \<Rightarrow> public_key" where
  "public_key_of X (SkEd25519 k) = PkEd25519 (sk_public X Ed25519 k)"
| "public_key_of X (SkX25519 k) = PkX25519 (sk_public X X25519 k)"
| "public_key_of X (SkP256 k) = PkP256 (sk_public X P256 k)"
| "public_key_of X (SkP384 k) = PkP384 (sk_public X P384 k)"
| "public_key_of X (SkP521 k) = PkP521 (sk_public X P521 k)"
| "public_key_of X (SkSecp256k1 k) = PkSecp256k1 (sk_public X Secp256k1 k)"

definition secret_from_jwk :: "ext \<Rightarrow> jwk \<Rightarrow> error + secret_key" where
  "secret_from_jwk X j =
     bind_res (from_jwk_crv (j_crv j)) (\<lambda>c.
     bind_res (ok_or (InvalidKey ''JWK without d'') (j_d j)) (\<lambda>d.
     bind_res (b64_decode X d) (\<lambda>bs.
     bind_res (secret_from_bytes X c bs) (\<lambda>key.
     let public = public_to_jwk X (public_key_of X key) in
     if j_x public \<noteq> j_x j \<or> (j_y j \<noteq> None \<and> j_y public \<noteq> j_y j)
     then Inl (InvalidKey ''JWK public part does not match d'')
     else Inr key))))"

definition secret_to_jwk :: "ext \<Rightarrow> secret_key \<Rightarrow> jwk" where
  "secret_to_jwk X k =
     (public_to_jwk X (public_key_of X k))\<lparr>j_d := Some (b64_encode X (secret_to_bytes k))\<rparr>"

definition secret_sign :: "ext \<Rightarrow> secret_key \<Rightarrow> bytes \<Rightarrow> error + bytes" where
  "secret_sign X k m =
     (case k of
        SkEd25519 s \<Rightarrow> ok_or (Crypto ''signing'') (sig_sign X Ed25519 s m)
      | SkP256 s \<Rightarrow> ok_or (Crypto ''signing'') (sig_sign X P256 s m)
      | SkSecp256k1 s \<Rightarrow> ok_or (Crypto ''signing'') (sig_sign X Secp256k1 s m)
      | _ \<Rightarrow> Inl (Unsupported (''signatures with '' @ jwk_crv (sk_curve k))))"

definition diffie_hellman :: "ext \<Rightarrow> secret_key \<Rightarrow> public_key \<Rightarrow> error + bytes" where
  "diffie_hellman X sk pk =
     (case (sk, pk) of
        (SkX25519 s, PkX25519 p) \<Rightarrow>
          if contributory X s p then Inr (ecdh X X25519 s p)
          else Inl (InvalidKey ''low-order X25519 public key'')
      | (SkP256 s, PkP256 p) \<Rightarrow> Inr (ecdh X P256 s p)
      | (SkP384 s, PkP384 p) \<Rightarrow> Inr (ecdh X P384 s p)
      | (SkP521 s, PkP521 p) \<Rightarrow> Inr (ecdh X P521 s p)
      | _ \<Rightarrow> Inl (Unsupported (''key agreement between '' @ jwk_crv (sk_curve sk)
               @ '' and '' @ jwk_crv (pk_curve pk))))"

section \<open>Properties\<close>

lemma from_jwk_crv_jwk_crv [simp]: "from_jwk_crv (jwk_crv c) = Inr c"
  by (cases c) (simp_all add: from_jwk_crv_def)

lemma from_jwk_crv_Inr: "from_jwk_crv s = Inr c \<Longrightarrow> s = jwk_crv c"
  by (auto simp: from_jwk_crv_def split: if_splits)

lemma pk_curve_public_key_of [simp]: "pk_curve (public_key_of X k) = sk_curve k"
  by (cases k) simp_all

lemma public_from_bytes_curve: "public_from_bytes X c bs = Inr k \<Longrightarrow> pk_curve k = c"
  by (cases c) (auto simp: public_from_bytes_def Let_def)

lemma public_from_jwk_curve: "public_from_jwk X j = Inr k \<Longrightarrow> j_crv j = jwk_crv (pk_curve k)"
  by (auto simp: public_from_jwk_def split: if_splits
      dest!: public_from_bytes_curve from_jwk_crv_Inr)

lemma secret_from_bytes_curve: "secret_from_bytes X c bs = Inr k \<Longrightarrow> sk_curve k = c"
  by (cases c) (auto simp: secret_from_bytes_def Let_def)

lemma generate_fuel_curve: "generate_fuel n X c s = (Inr k, s') \<Longrightarrow> sk_curve k = c"
proof (induction n arbitrary: s)
  case (Suc n)
  then obtain bs t where step: "(case secret_from_bytes X c (mask_p521 c bs) of
      Inr key \<Rightarrow> return_act key | Inl _ \<Rightarrow> generate_fuel n X c) t = (Inr k, s')"
    by (auto simp: bind_act_Inr)
  then show ?case
    by (cases "secret_from_bytes X c (mask_p521 c bs)")
      (auto dest: secret_from_bytes_curve Suc.IH)
qed simp

lemma generate_curve: "generate X c s = (Inr k, s') \<Longrightarrow> sk_curve k = c"
  by (simp add: generate_def generate_fuel_curve)

text \<open>Fuel that reaches the first valid draw is enough, and later fuel changes nothing.\<close>

lemma generate_first:
  fixes s :: "('r, 'z) node_scheme"
  assumes "\<forall>i<n. \<exists>bs. random_bytes X (draws s + i) (field_len c) = Some bs
      \<and> (\<exists>e. secret_from_bytes X c (mask_p521 c bs) = Inl e)"
    and "random_bytes X (draws s + n) (field_len c) = Some bs"
    and "secret_from_bytes X c (mask_p521 c bs) = Inr key"
    and "n < fuel"
  shows "generate_fuel fuel X c s = (Inr key, s\<lparr>draws := Suc (draws s + n)\<rparr>)"
  using assms
proof (induction n arbitrary: s fuel)
  case 0
  then show ?case by (cases fuel) (simp_all add: bind_act_def random_fill_def)
next
  case (Suc n)
  then obtain f where f: "fuel = Suc f" by (cases fuel) auto
  let ?s = "s\<lparr>draws := Suc (draws s)\<rparr>"
  have IH: "generate_fuel f X c ?s = (Inr key, ?s\<lparr>draws := Suc (draws ?s + n)\<rparr>)"
  proof (rule Suc.IH)
    show "\<forall>i<n. \<exists>bs. random_bytes X (draws ?s + i) (field_len c) = Some bs
        \<and> (\<exists>e. secret_from_bytes X c (mask_p521 c bs) = Inl e)"
    proof (intro allI impI)
      fix i assume "i < n"
      then have "Suc i < Suc n" by simp
      with Suc.prems(1) have "\<exists>bs. random_bytes X (draws s + Suc i) (field_len c) = Some bs
          \<and> (\<exists>e. secret_from_bytes X c (mask_p521 c bs) = Inl e)" by blast
      then show "\<exists>bs. random_bytes X (draws ?s + i) (field_len c) = Some bs
          \<and> (\<exists>e. secret_from_bytes X c (mask_p521 c bs) = Inl e)" by simp
    qed
  qed (use Suc.prems f in simp_all)
  from Suc.prems(1) obtain b e where "random_bytes X (draws s) (field_len c) = Some b"
    and "secret_from_bytes X c (mask_p521 c b) = Inl e"
    by (metis add.right_neutral zero_less_Suc)
  with IH show ?case by (simp add: f bind_act_def random_fill_def)
qed

text \<open>A curve signs exactly when it has a JWS algorithm.\<close>

lemma sign_unsupported_iff:
  "(\<exists>t. secret_sign X k m = Inl (Unsupported t)) \<longleftrightarrow> signature_alg (sk_curve k) = None"
  by (cases k) (auto simp: secret_sign_def ok_or_def split: option.splits)

lemma verify_needs_alg: "public_verify X k m sg = Inr () \<Longrightarrow> signature_alg (pk_curve k) \<noteq> None"
  by (cases k) (auto simp: public_verify_def)

lemma diffie_hellman_curve:
  "diffie_hellman X sk pk = Inr z \<Longrightarrow> sk_curve sk = pk_curve pk \<and> is_key_agreement (sk_curve sk)"
  by (cases sk; cases pk) (auto simp: diffie_hellman_def is_key_agreement_def split: if_splits)

end
