(* ===== verification/Content.thy ===== *)
theory Content
  imports Keys
begin

text \<open>
  Content encryption of JWEs: \<open>crates/didcomm/src/crypto/content.rs\<close>. The block cipher, the
  AEADs and HMAC are external; the composition \<open>A256CBC-HS512\<close> (encrypt-then-MAC with the
  associated data's bit length, RFC 7518) is the repository's own and is modelled here.
\<close>

text \<open>Big-endian encoding of \<open>n\<close> in \<open>k\<close> bytes (\<open>to_be_bytes\<close>).\<close>

definition be_bytes :: "nat \<Rightarrow> nat \<Rightarrow> bytes" where
  "be_bytes k n = map (\<lambda>i. char_of (n div 256 ^ (k - 1 - i))) [0..<k]"

fun key_len :: "content_encryption \<Rightarrow> nat" where
  "key_len A256CbcHs512 = 64"
| "key_len A256Gcm = 32"
| "key_len Xc20p = 32"

fun iv_len :: "content_encryption \<Rightarrow> nat" where
  "iv_len A256CbcHs512 = 16"
| "iv_len A256Gcm = 12"
| "iv_len Xc20p = 24"

definition check_lengths :: "content_encryption \<Rightarrow> bytes \<Rightarrow> bytes \<Rightarrow> error + unit" where
  "check_lengths e key iv =
     (if length key \<noteq> key_len e \<or> length iv \<noteq> iv_len e
      then Inl (Malformed ''content key or iv length'') else Inr ())"

definition cbc_hs512_tag :: "ext \<Rightarrow> bytes \<Rightarrow> bytes \<Rightarrow> bytes \<Rightarrow> bytes \<Rightarrow> error + bytes" where
  "cbc_hs512_tag X mac_key iv aad ciphertext =
     (if length aad * 8 < 2 ^ 64
      then Inr (take 32 (hmac_sha512 X mac_key (aad @ iv @ ciphertext @ be_bytes 8 (length aad * 8))))
      else Inl (Malformed ''AAD too long''))"

definition content_encrypt ::
  "ext \<Rightarrow> content_encryption \<Rightarrow> bytes \<Rightarrow> bytes \<Rightarrow> bytes \<Rightarrow> bytes \<Rightarrow> error + (bytes \<times> bytes)" where
  "content_encrypt X e key iv aad plaintext =
     bind_res (check_lengths e key iv) (\<lambda>_.
     case e of
       A256CbcHs512 \<Rightarrow>
         (let mac_key = take 32 key; enc_key = drop 32 key;
              ciphertext = cbc_encrypt X enc_key iv plaintext
          in bind_res (cbc_hs512_tag X mac_key iv aad ciphertext) (\<lambda>tag. Inr (ciphertext, tag)))
     | A256Gcm \<Rightarrow> ok_or (Crypto ''content encryption'') (aead_seal X A256Gcm key iv aad plaintext)
     | Xc20p \<Rightarrow> ok_or (Crypto ''content encryption'') (aead_seal X Xc20p key iv aad plaintext))"

definition content_decrypt ::
  "ext \<Rightarrow> content_encryption \<Rightarrow> bytes \<Rightarrow> bytes \<Rightarrow> bytes \<Rightarrow> bytes \<Rightarrow> bytes \<Rightarrow> error + bytes" where
  "content_decrypt X e key iv aad ciphertext tag =
     bind_res (check_lengths e key iv) (\<lambda>_.
     case e of
       A256CbcHs512 \<Rightarrow>
         (let mac_key = take 32 key; enc_key = drop 32 key
          in bind_res (cbc_hs512_tag X mac_key iv aad ciphertext) (\<lambda>expected.
             if expected \<noteq> tag then Inl (Crypto ''content tag'')
             else ok_or (Crypto ''content padding'') (cbc_decrypt X enc_key iv ciphertext)))
     | A256Gcm \<Rightarrow> ok_or (Crypto ''content tag'') (aead_open X A256Gcm key iv aad ciphertext tag)
     | Xc20p \<Rightarrow> ok_or (Crypto ''content tag'') (aead_open X Xc20p key iv aad ciphertext tag))"

text \<open>What decryption relies on from the cipher crates: opening undoes sealing.\<close>

definition ciphers_ok :: "ext \<Rightarrow> bool" where
  "ciphers_ok X \<longleftrightarrow>
     (\<forall>k iv p. cbc_decrypt X k iv (cbc_encrypt X k iv p) = Some p)
   \<and> (\<forall>e k iv a p c t. aead_seal X e k iv a p = Some (c, t) \<longrightarrow> aead_open X e k iv a c t = Some p)"

lemma be_bytes_length [simp]: "length (be_bytes k n) = k"
  by (simp add: be_bytes_def)

lemma content_round_trip:
  assumes "ciphers_ok X" and "content_encrypt X e key iv aad p = Inr (c, t)"
  shows "content_decrypt X e key iv aad c t = Inr p"
  using assms
  by (cases e) (auto simp: content_encrypt_def content_decrypt_def ciphers_ok_def Let_def)

text \<open>A ciphertext whose tag is not the expected one is never decrypted.\<close>

lemma content_decrypt_cbc_tag:
  assumes "content_decrypt X A256CbcHs512 key iv aad c t = Inr p"
  shows "cbc_hs512_tag X (take 32 key) iv aad c = Inr t \<and> length key = 64 \<and> length iv = 16"
  using assms
  by (auto simp: content_decrypt_def Let_def check_lengths_def split: if_splits)

lemma content_encrypt_ok:
  assumes "length key = key_len e" and "length iv = iv_len e"
    and "length aad * 8 < 2 ^ 64"
    and "\<And>k iv a p. e \<noteq> A256CbcHs512 \<Longrightarrow> aead_seal X e k iv a p \<noteq> None"
  shows "\<exists>c t. content_encrypt X e key iv aad p = Inr (c, t)"
  using assms
  by (cases e) (auto simp: content_encrypt_def check_lengths_def cbc_hs512_tag_def Let_def)

end
