(* ===== verification/Jwe.thy ===== *)
theory Jwe
  imports Content
begin

text \<open>
  JSON Web Encryption: \<open>crates/didcomm/src/crypto/jwe.rs\<close>. Anoncrypt (\<open>ECDH-ES+A256KW\<close>) and
  authcrypt (\<open>ECDH-1PU+A256KW\<close>) share \<open>jwe_encrypt\<close>; \<open>jwe_decrypt\<close> is the receiving side. The
  structs' derived JSON forms are written out from their serde attributes.
\<close>

definition ENCRYPTED_TYP :: string where
  "ENCRYPTED_TYP = ''application/didcomm-encrypted+json''"

datatype key_wrap = EcdhEsA256Kw | Ecdh1PuA256Kw

fun key_wrap_name :: "key_wrap \<Rightarrow> string" where
  "key_wrap_name EcdhEsA256Kw = ''ECDH-ES+A256KW''"
| "key_wrap_name Ecdh1PuA256Kw = ''ECDH-1PU+A256KW''"

record jwe_recipient =
  r_kid :: string
  r_encrypted_key :: string

record jwe =
  jwe_protected :: string
  jwe_recipients :: "jwe_recipient list"
  jwe_iv :: string
  jwe_ciphertext :: string
  jwe_tag :: string

record jwe_protected_header =
  ph_typ :: "string option"
  ph_alg :: key_wrap
  ph_enc :: content_encryption
  ph_epk :: jwk
  ph_skid :: "string option"
  ph_apu :: "string option"
  ph_apv :: string

section \<open>Derived JSON forms\<close>

definition opt_member :: "string \<Rightarrow> ('a \<Rightarrow> json) \<Rightarrow> 'a option \<Rightarrow> (string \<times> json) list" where
  "opt_member k f x = (case x of None \<Rightarrow> [] | Some v \<Rightarrow> [(k, f v)])"

text \<open>A unit variant is its name, or an object with that one member set to \<open>null\<close>.\<close>

definition variant_name :: "json \<Rightarrow> string option" where
  "variant_name v = (case v of JStr s \<Rightarrow> Some s | JObj [(k, JNull)] \<Rightarrow> Some k | _ \<Rightarrow> None)"

fun enc_name :: "content_encryption \<Rightarrow> string" where
  "enc_name A256CbcHs512 = ''A256CBC-HS512''"
| "enc_name A256Gcm = ''A256GCM''"
| "enc_name Xc20p = ''XC20P''"

definition de_enc :: "json \<Rightarrow> content_encryption option" where
  "de_enc v = Option.bind (variant_name v) (\<lambda>s.
     if s = ''A256CBC-HS512'' then Some A256CbcHs512
     else if s = ''A256GCM'' then Some A256Gcm
     else if s = ''XC20P'' then Some Xc20p else None)"

definition de_key_wrap :: "json \<Rightarrow> key_wrap option" where
  "de_key_wrap v = Option.bind (variant_name v) (\<lambda>s.
     if s = ''ECDH-ES+A256KW'' then Some EcdhEsA256Kw
     else if s = ''ECDH-1PU+A256KW'' then Some Ecdh1PuA256Kw else None)"

definition se_jwk :: "jwk \<Rightarrow> json" where
  "se_jwk j = JObj ([(''kty'', JStr (j_kty j)), (''crv'', JStr (j_crv j)), (''x'', JStr (j_x j))]
     @ opt_member ''y'' JStr (j_y j) @ opt_member ''d'' JStr (j_d j) @ opt_member ''kid'' JStr (j_kid j))"

definition de_jwk :: "json \<Rightarrow> jwk option" where
  "de_jwk v =
     Option.bind (de_fields [''kty'', ''crv'', ''x'', ''y'', ''d'', ''kid''] v) (\<lambda>f.
     Option.bind (req_str f ''kty'') (\<lambda>kty.
     Option.bind (req_str f ''crv'') (\<lambda>crv.
     Option.bind (req_str f ''x'') (\<lambda>x.
     Option.bind (opt_field as_str f ''y'') (\<lambda>y.
     Option.bind (opt_field as_str f ''d'') (\<lambda>d.
     Option.bind (opt_field as_str f ''kid'') (\<lambda>kid.
     Some \<lparr>j_kty = kty, j_crv = crv, j_x = x, j_y = y, j_d = d, j_kid = kid\<rparr>)))))))"

definition se_header :: "jwe_protected_header \<Rightarrow> json" where
  "se_header h = JObj (opt_member ''typ'' JStr (ph_typ h)
     @ [(''alg'', JStr (key_wrap_name (ph_alg h))), (''enc'', JStr (enc_name (ph_enc h))),
        (''epk'', se_jwk (ph_epk h))]
     @ opt_member ''skid'' JStr (ph_skid h) @ opt_member ''apu'' JStr (ph_apu h)
     @ [(''apv'', JStr (ph_apv h))])"

definition de_header :: "json \<Rightarrow> jwe_protected_header option" where
  "de_header v =
     Option.bind (de_fields [''typ'', ''alg'', ''enc'', ''epk'', ''skid'', ''apu'', ''apv''] v) (\<lambda>f.
     Option.bind (opt_field as_str f ''typ'') (\<lambda>typ.
     Option.bind (Option.bind (f ''alg'') de_key_wrap) (\<lambda>alg.
     Option.bind (Option.bind (f ''enc'') de_enc) (\<lambda>enc.
     Option.bind (Option.bind (f ''epk'') de_jwk) (\<lambda>epk.
     Option.bind (opt_field as_str f ''skid'') (\<lambda>skid.
     Option.bind (opt_field as_str f ''apu'') (\<lambda>apu.
     Option.bind (req_str f ''apv'') (\<lambda>apv.
     Some \<lparr>ph_typ = typ, ph_alg = alg, ph_enc = enc, ph_epk = epk, ph_skid = skid,
           ph_apu = apu, ph_apv = apv\<rparr>))))))))"

definition se_recipient :: "jwe_recipient \<Rightarrow> json" where
  "se_recipient r = JObj [(''header'', JObj [(''kid'', JStr (r_kid r))]),
     (''encrypted_key'', JStr (r_encrypted_key r))]"

definition de_recipient :: "json \<Rightarrow> jwe_recipient option" where
  "de_recipient v =
     Option.bind (de_fields [''header'', ''encrypted_key''] v) (\<lambda>f.
     Option.bind (Option.bind (f ''header'') (de_fields [''kid''])) (\<lambda>h.
     Option.bind (req_str h ''kid'') (\<lambda>kid.
     Option.bind (req_str f ''encrypted_key'') (\<lambda>k.
     Some \<lparr>r_kid = kid, r_encrypted_key = k\<rparr>))))"

definition se_jwe :: "jwe \<Rightarrow> json" where
  "se_jwe j = JObj [(''protected'', JStr (jwe_protected j)),
     (''recipients'', JArr (map se_recipient (jwe_recipients j))),
     (''iv'', JStr (jwe_iv j)), (''ciphertext'', JStr (jwe_ciphertext j)), (''tag'', JStr (jwe_tag j))]"

definition de_jwe :: "json \<Rightarrow> jwe option" where
  "de_jwe v =
     Option.bind (de_fields [''protected'', ''recipients'', ''iv'', ''ciphertext'', ''tag''] v) (\<lambda>f.
     Option.bind (req_str f ''protected'') (\<lambda>p.
     Option.bind (Option.bind (Option.bind (f ''recipients'') as_array) (mapM_opt de_recipient)) (\<lambda>rs.
     Option.bind (req_str f ''iv'') (\<lambda>iv.
     Option.bind (req_str f ''ciphertext'') (\<lambda>c.
     Option.bind (req_str f ''tag'') (\<lambda>t.
     Some \<lparr>jwe_protected = p, jwe_recipients = rs, jwe_iv = iv, jwe_ciphertext = c, jwe_tag = t\<rparr>))))))"

definition jwe_parse :: "ext \<Rightarrow> string \<Rightarrow> error + jwe" where
  "jwe_parse X t = from_str_as X de_jwe t"

definition jwe_to_json :: "ext \<Rightarrow> jwe \<Rightarrow> string" where
  "jwe_to_json X j = json_print X (se_jwe j)"

definition protected_header :: "ext \<Rightarrow> jwe \<Rightarrow> error + jwe_protected_header" where
  "protected_header X j = bind_res (b64_decode X (jwe_protected j)) (from_str_as X de_header)"

definition recipient_kids :: "jwe \<Rightarrow> string list" where
  "recipient_kids j = map r_kid (jwe_recipients j)"

definition sender_kid :: "ext \<Rightarrow> jwe_protected_header \<Rightarrow> error + string option" where
  "sender_kid X h =
     bind_res (case ph_apu h of
         Some apu \<Rightarrow> bind_res (b64_decode X apu) (\<lambda>bs.
           bind_res (ok_or (Malformed ''apu is not UTF-8'') (from_utf8 bs)) (\<lambda>s. Inr (Some s)))
       | None \<Rightarrow> Inr None) (\<lambda>from_apu.
     case (ph_skid h, from_apu) of
       (Some skid, Some apu) \<Rightarrow>
         if skid \<noteq> apu then Inl (Inconsistent ''skid does not match apu'') else Inr (Some skid)
     | (Some skid, None) \<Rightarrow> Inr (Some skid)
     | (None, apu) \<Rightarrow> Inr apu)"

section \<open>Key derivation and wrapping\<close>

definition apv_of :: "ext \<Rightarrow> string list \<Rightarrow> string" where
  "apv_of X kids = b64_encode X (sha256 X (join ''.'' (sort kids)))"

definition decode_opt :: "ext \<Rightarrow> string option \<Rightarrow> error + bytes" where
  "decode_opt X v = (case v of None \<Rightarrow> Inr [] | Some t \<Rightarrow> b64_decode X t)"

definition with_len :: "bytes \<Rightarrow> bytes" where
  "with_len data = be_bytes 4 (length data) @ data"

definition concat_kdf :: "ext \<Rightarrow> bytes \<Rightarrow> key_wrap \<Rightarrow> bytes \<Rightarrow> bytes \<Rightarrow> bytes option \<Rightarrow> bytes" where
  "concat_kdf X z alg apu apv tag =
     sha256 X (be_bytes 4 1 @ z @ with_len (key_wrap_name alg) @ with_len apu @ with_len apv
       @ be_bytes 4 256 @ (case tag of None \<Rightarrow> [] | Some t \<Rightarrow> with_len t))"

definition wrap_key :: "ext \<Rightarrow> bytes \<Rightarrow> bytes \<Rightarrow> error + bytes" where
  "wrap_key X kek cek = ok_or (Crypto ''key wrap'') (kw_wrap X kek cek)"

definition unwrap_key :: "ext \<Rightarrow> bytes \<Rightarrow> bytes \<Rightarrow> error + bytes" where
  "unwrap_key X kek wrapped =
     (if length wrapped < 8 then Inl (Malformed ''encrypted_key too short'')
      else ok_or (Crypto ''key unwrap'') (kw_unwrap X kek wrapped))"

section \<open>Decryption\<close>

definition jwe_decrypt ::
  "ext \<Rightarrow> jwe \<Rightarrow> string \<Rightarrow> secret_key \<Rightarrow> public_key option \<Rightarrow> error + bytes" where
  "jwe_decrypt X j kid key sender =
     bind_res (protected_header X j) (\<lambda>h.
     bind_res (ok_or (SecretNotFound kid) (List.find (\<lambda>r. r_kid r = kid) (jwe_recipients j))) (\<lambda>r.
     bind_res (ensure (ph_apv h = apv_of X (recipient_kids j))
       (Inconsistent ''apv does not match the recipient kids'')) (\<lambda>_.
     bind_res (public_from_jwk X (ph_epk h)) (\<lambda>epk.
     bind_res (ensure (pk_curve epk = sk_curve key)
       (Inconsistent ''epk and recipient key are on different curves'')) (\<lambda>_.
     bind_res (decode_opt X (ph_apu h)) (\<lambda>apu.
     bind_res (b64_decode X (ph_apv h)) (\<lambda>apv.
     bind_res (b64_decode X (jwe_tag j)) (\<lambda>tag.
     bind_res (case ph_alg h of
         EcdhEsA256Kw \<Rightarrow>
           bind_res (diffie_hellman X key epk) (\<lambda>z.
           Inr (concat_kdf X z (ph_alg h) apu apv None))
       | Ecdh1PuA256Kw \<Rightarrow>
           bind_res (ensure (ph_enc h = A256CbcHs512)
             (Unsupported ''ECDH-1PU requires A256CBC-HS512'')) (\<lambda>_.
           bind_res (ok_or (Malformed ''authcrypt without sender key'') sender) (\<lambda>sender.
           bind_res (ensure (pk_curve sender = sk_curve key)
             (Inconsistent ''sender and recipient keys are on different curves'')) (\<lambda>_.
           bind_res (diffie_hellman X key epk) (\<lambda>ze.
           bind_res (diffie_hellman X key sender) (\<lambda>zs.
           Inr (concat_kdf X (ze @ zs) (ph_alg h) apu apv (Some tag)))))))) (\<lambda>kek.
     bind_res (b64_decode X (r_encrypted_key r)) (\<lambda>wrapped.
     bind_res (unwrap_key X kek wrapped) (\<lambda>cek.
     bind_res (b64_decode X (jwe_iv j)) (\<lambda>iv.
     bind_res (b64_decode X (jwe_ciphertext j)) (\<lambda>ct.
     content_decrypt X (ph_enc h) cek iv (jwe_protected j) ct tag)))))))))))))"

section \<open>Encryption\<close>

text \<open>One recipient's entry: the content key wrapped under the agreed key.\<close>

definition wrap_for ::
  "ext \<Rightarrow> secret_key \<Rightarrow> (string \<times> secret_key) option \<Rightarrow> key_wrap \<Rightarrow> bytes \<Rightarrow> bytes \<Rightarrow> bytes \<Rightarrow> bytes
     \<Rightarrow> string \<times> public_key \<Rightarrow> error + jwe_recipient" where
  "wrap_for X ephemeral sender alg apu apv tag cek = (\<lambda>(kid, key).
     bind_res (diffie_hellman X ephemeral key) (\<lambda>ze.
     bind_res (case sender of
         Some (_, skey) \<Rightarrow>
           bind_res (diffie_hellman X skey key) (\<lambda>zs.
           Inr (concat_kdf X (ze @ zs) alg apu apv (Some tag)))
       | None \<Rightarrow> Inr (concat_kdf X ze alg apu apv None)) (\<lambda>kek.
     bind_res (wrap_key X kek cek) (\<lambda>w.
     Inr \<lparr>r_kid = kid, r_encrypted_key = b64_encode X w\<rparr>))))"

text \<open>The protected header, and what is done with the content key once it is drawn.\<close>

definition jwe_header ::
  "ext \<Rightarrow> secret_key \<Rightarrow> (string \<times> secret_key) option \<Rightarrow> (string \<times> public_key) list \<Rightarrow> content_encryption
     \<Rightarrow> jwe_protected_header" where
  "jwe_header X ephemeral sender recipients enc =
     \<lparr>ph_typ = Some ENCRYPTED_TYP,
      ph_alg = (if sender \<noteq> None then Ecdh1PuA256Kw else EcdhEsA256Kw), ph_enc = enc,
      ph_epk = public_to_jwk X (public_key_of X ephemeral),
      ph_skid = map_option fst sender,
      ph_apu = map_option (\<lambda>s. b64_encode X (fst s)) sender,
      ph_apv = apv_of X (map fst recipients)\<rparr>"

definition jwe_seal ::
  "ext \<Rightarrow> bytes \<Rightarrow> (string \<times> secret_key) option \<Rightarrow> (string \<times> public_key) list \<Rightarrow> secret_key
     \<Rightarrow> jwe_protected_header \<Rightarrow> bytes \<Rightarrow> bytes \<Rightarrow> error + jwe" where
  "jwe_seal X plaintext sender recipients ephemeral header cek iv =
     (let protected = b64_encode X (json_print X (se_header header)) in
      bind_res (content_encrypt X (ph_enc header) cek iv protected plaintext) (\<lambda>(ciphertext, tag).
      bind_res (decode_opt X (ph_apu header)) (\<lambda>apu.
      bind_res (b64_decode X (ph_apv header)) (\<lambda>apv.
      bind_res (mapM_res (wrap_for X ephemeral sender (ph_alg header) apu apv tag cek) recipients) (\<lambda>rs.
      Inr \<lparr>jwe_protected = protected, jwe_recipients = rs, jwe_iv = b64_encode X iv,
           jwe_ciphertext = b64_encode X ciphertext, jwe_tag = b64_encode X tag\<rparr>)))))"

definition jwe_encrypt ::
  "ext \<Rightarrow> bytes \<Rightarrow> (string \<times> secret_key) option \<Rightarrow> (string \<times> public_key) list \<Rightarrow> content_encryption
     \<Rightarrow> (('r, 'z) node_scheme, error, jwe) act" where
  "jwe_encrypt X plaintext sender recipients enc =
     (case recipients of
        [] \<Rightarrow> throw_act (Malformed ''no recipients'')
      | first # _ \<Rightarrow>
     (let curve = pk_curve (snd first) in
     if \<not> is_key_agreement curve
     then throw_act (Unsupported (''key agreement with '' @ jwk_crv curve))
     else if \<exists>r\<in>set recipients. pk_curve (snd r) \<noteq> curve
     then throw_act (NoCompatibleKeys ''recipient keys on different curves'')
     else if (case sender of Some (_, k) \<Rightarrow> sk_curve k \<noteq> curve | None \<Rightarrow> False)
     then throw_act (NoCompatibleKeys ''sender and recipients on different curves'')
     else
       bind_act (generate X curve) (\<lambda>ephemeral.
       bind_act (random_fill X (key_len enc)) (\<lambda>cek.
       bind_act (random_fill X (iv_len enc)) (\<lambda>iv.
       lift_act (jwe_seal X plaintext sender recipients ephemeral
         (jwe_header X ephemeral sender recipients enc) cek iv))))))"

definition anoncrypt ::
  "ext \<Rightarrow> bytes \<Rightarrow> (string \<times> public_key) list \<Rightarrow> content_encryption
     \<Rightarrow> (('r, 'z) node_scheme, error, jwe) act" where
  "anoncrypt X plaintext recipients enc = jwe_encrypt X plaintext None recipients enc"

definition authcrypt ::
  "ext \<Rightarrow> bytes \<Rightarrow> string \<times> secret_key \<Rightarrow> (string \<times> public_key) list
     \<Rightarrow> (('r, 'z) node_scheme, error, jwe) act" where
  "authcrypt X plaintext sender recipients =
     jwe_encrypt X plaintext (Some sender) recipients A256CbcHs512"

section \<open>Properties\<close>

text \<open>
  What the envelope relies on from other crates: base64url and JSON texts are read back, key
  agreement is symmetric, a wrapped key unwraps under the same key (and is at least one block
  long), and a public key survives its JWK form.
\<close>

definition text_laws :: "ext \<Rightarrow> bool" where
  "text_laws X \<longleftrightarrow> (\<forall>bs. b64_dec X (b64_enc X bs) = Some bs)
     \<and> (\<forall>v. json_plain v \<longrightarrow> json_parse X (json_print X v) = Inr v)"

definition key_laws :: "ext \<Rightarrow> bool" where
  "key_laws X \<longleftrightarrow>
     (\<forall>c a b. ecdh X c a (sk_public X c b) = ecdh X c b (sk_public X c a))
   \<and> (\<forall>a b. contributory X a (sk_public X X25519 b) = contributory X b (sk_public X X25519 a))
   \<and> (\<forall>kek cek w. kw_wrap X kek cek = Some w \<longrightarrow> kw_unwrap X kek w = Some cek \<and> 8 \<le> length w)"

definition jwk_law :: "ext \<Rightarrow> curve \<Rightarrow> bool" where
  "jwk_law X c \<longleftrightarrow> (\<forall>k. sk_curve k = c \<longrightarrow>
     public_from_jwk X (public_to_jwk X (public_key_of X k)) = Inr (public_key_of X k))"

lemma b64_round_trip [simp]: "text_laws X \<Longrightarrow> b64_decode X (b64_encode X bs) = Inr bs"
  by (simp add: text_laws_def b64_decode_def b64_encode_def)

lemma from_str_as_print [simp]:
  "text_laws X \<Longrightarrow> json_plain v \<Longrightarrow> d v = Some a \<Longrightarrow> from_str_as X d (json_print X v) = Inr a"
  by (simp add: text_laws_def from_str_as_def)

lemma diffie_hellman_sym:
  "key_laws X \<Longrightarrow> diffie_hellman X a (public_key_of X b) = Inr z \<Longrightarrow>
     diffie_hellman X b (public_key_of X a) = Inr z"
  by (cases a; cases b) (auto simp: diffie_hellman_def key_laws_def split: if_splits)

lemma unwrap_wrap:
  assumes "key_laws X" and "wrap_key X kek cek = Inr w"
  shows "unwrap_key X kek w = Inr cek"
proof -
  have "kw_wrap X kek cek = Some w" using assms(2) by (simp add: wrap_key_def)
  then have "kw_unwrap X kek w = Some cek \<and> 8 \<le> length w"
    using assms(1) unfolding key_laws_def by blast
  then show ?thesis by (simp add: unwrap_key_def)
qed

lemma de_jwk_se_jwk [simp]: "de_jwk (se_jwk j) = Some j"
  by (cases "j_y j"; cases "j_d j"; cases "j_kid j")
    (simp_all add: de_jwk_def se_jwk_def opt_member_def de_fields_def req_str_def opt_field_def)

lemma json_plain_jwk [simp]: "json_plain (se_jwk j)"
  by (auto simp: se_jwk_def opt_member_def split: option.splits)

lemma de_enc_name [simp]: "de_enc (JStr (enc_name e)) = Some e"
  by (cases e) (simp_all add: de_enc_def variant_name_def)

lemma de_key_wrap_name [simp]: "de_key_wrap (JStr (key_wrap_name a)) = Some a"
  by (cases a) (simp_all add: de_key_wrap_def variant_name_def)

lemma de_header_se_header [simp]: "de_header (se_header h) = Some h"
  by (cases "ph_typ h"; cases "ph_skid h"; cases "ph_apu h")
    (simp_all add: de_header_def se_header_def opt_member_def de_fields_def req_str_def opt_field_def)

lemma json_plain_header [simp]: "json_plain (se_header h)"
  by (auto simp: se_header_def opt_member_def split: option.splits)

lemma de_recipient_se_recipient [simp]: "de_recipient (se_recipient r) = Some r"
  by (simp add: de_recipient_def se_recipient_def de_fields_def req_str_def)

lemma de_jwe_se_jwe [simp]: "de_jwe (se_jwe j) = Some j"
  by (simp add: de_jwe_def se_jwe_def de_fields_def req_str_def mapM_opt_map)

lemma json_plain_jwe [simp]: "json_plain (se_jwe j)"
  by (simp add: se_jwe_def se_recipient_def)

lemma jwe_parse_to_json [simp]: "text_laws X \<Longrightarrow> jwe_parse X (jwe_to_json X j) = Inr j"
  by (simp add: jwe_parse_def jwe_to_json_def)

text \<open>What \<open>jwe_encrypt\<close> produces when it succeeds.\<close>

lemma jwe_encrypt_ok:
  assumes "jwe_encrypt X p sender recipients enc s = (Inr j, s')"
  obtains ephemeral cek iv where
    "\<forall>r\<in>set recipients. pk_curve (snd r) = sk_curve ephemeral"
    "\<forall>skid sk. sender = Some (skid, sk) \<longrightarrow> sk_curve sk = sk_curve ephemeral"
    "is_key_agreement (sk_curve ephemeral)"
    "jwe_seal X p sender recipients ephemeral (jwe_header X ephemeral sender recipients enc) cek iv = Inr j"
proof (cases recipients)
  case (Cons first rest)
  let ?c = "pk_curve (snd first)"
  have "is_key_agreement ?c" and "\<forall>r\<in>set recipients. pk_curve (snd r) = ?c"
    and "\<forall>skid sk. sender = Some (skid, sk) \<longrightarrow> sk_curve sk = ?c"
    and "\<exists>e cek iv. sk_curve e = ?c
      \<and> jwe_seal X p sender recipients e (jwe_header X e sender recipients enc) cek iv = Inr j"
    using assms Cons
    by (auto simp: jwe_encrypt_def bind_act_Inr Let_def split: if_splits option.splits dest!: generate_curve)
  then show ?thesis using that by metis
qed (use assms in \<open>simp add: jwe_encrypt_def\<close>)

lemma jwe_seal_ok:
  assumes "jwe_seal X p sender recipients ephemeral header cek iv = Inr j"
  obtains ct tag apu apv where
    "content_encrypt X (ph_enc header) cek iv (jwe_protected j) p = Inr (ct, tag)"
    "decode_opt X (ph_apu header) = Inr apu" "b64_decode X (ph_apv header) = Inr apv"
    "mapM_res (wrap_for X ephemeral sender (ph_alg header) apu apv tag cek) recipients = Inr (jwe_recipients j)"
    "jwe_protected j = b64_encode X (json_print X (se_header header))"
    "jwe_iv j = b64_encode X iv" "jwe_ciphertext j = b64_encode X ct" "jwe_tag j = b64_encode X tag"
  using assms by (auto simp: jwe_seal_def Let_def)

lemma wrap_for_kid: "wrap_for X e sender alg apu apv tag cek kk = Inr r \<Longrightarrow> r_kid r = fst kk"
  by (auto simp: wrap_for_def split: prod.splits)

lemma wrap_all_kids:
  "mapM_res (wrap_for X e sender alg apu apv tag cek) recipients = Inr rs \<Longrightarrow> map r_kid rs = map fst recipients"
  by (induction recipients arbitrary: rs) (auto dest: wrap_for_kid)

text \<open>The entry that \<open>jwe_decrypt\<close> looks up is the one made for that recipient.\<close>

lemma wrap_all_find:
  assumes "mapM_res (wrap_for X e sender alg apu apv tag cek) recipients = Inr rs"
    and "distinct (map fst recipients)" and "(kid, pk) \<in> set recipients"
  shows "\<exists>r. List.find (\<lambda>r. r_kid r = kid) rs = Some r \<and> wrap_for X e sender alg apu apv tag cek (kid, pk) = Inr r"
  using assms
proof (induction recipients arbitrary: rs)
  case (Cons kk recipients)
  then obtain r rs' where r: "wrap_for X e sender alg apu apv tag cek kk = Inr r" "rs = r # rs'"
    "mapM_res (wrap_for X e sender alg apu apv tag cek) recipients = Inr rs'" by auto
  then have "r_kid r = fst kk" by (simp add: wrap_for_kid)
  show ?case
  proof (cases "fst kk = kid")
    case True
    with Cons.prems(2) have "kid \<notin> fst ` set recipients" by simp
    then have "(kid, pk) \<notin> set recipients" by (metis fst_conv image_eqI)
    with Cons.prems(3) have "kk = (kid, pk)" by simp
    with r \<open>r_kid r = fst kk\<close> show ?thesis by simp
  next
    case False
    with Cons.prems r \<open>r_kid r = fst kk\<close> show ?thesis using Cons.IH [of rs'] by auto
  qed
qed simp

text \<open>The key that the recipient derives is the one its copy of the content key is wrapped under.\<close>

lemma decrypt_wrapped:
  assumes laws: "text_laws X" "key_laws X" "jwk_law X (sk_curve key)" "ciphers_ok X"
    and h: "protected_header X j = Inr h" "ph_epk h = public_to_jwk X (public_key_of X ephemeral)"
      "ph_apv h = apv_of X (recipient_kids j)"
      "ph_alg h = (if sender \<noteq> None then Ecdh1PuA256Kw else EcdhEsA256Kw)"
      "sender \<noteq> None \<longrightarrow> ph_enc h = A256CbcHs512"
    and curves: "sk_curve ephemeral = sk_curve key" "\<forall>skid sk. sender = Some (skid, sk) \<longrightarrow> sk_curve sk = sk_curve key"
    and parts: "decode_opt X (ph_apu h) = Inr apu" "b64_decode X (ph_apv h) = Inr apv"
      "jwe_iv j = b64_encode X iv" "jwe_ciphertext j = b64_encode X ct" "jwe_tag j = b64_encode X tag"
      "content_encrypt X (ph_enc h) cek iv (jwe_protected j) p = Inr (ct, tag)"
    and r: "List.find (\<lambda>r. r_kid r = kid) (jwe_recipients j) = Some r"
      "wrap_for X ephemeral sender (ph_alg h) apu apv tag cek (kid, public_key_of X key) = Inr r"
  shows "jwe_decrypt X j kid key (map_option (\<lambda>s. public_key_of X (snd s)) sender) = Inr p"
proof -
  have epk: "public_from_jwk X (ph_epk h) = Inr (public_key_of X ephemeral)"
    using laws(3) curves(1) h(2) by (simp add: jwk_law_def)
  have p: "content_decrypt X (ph_enc h) cek iv (jwe_protected j) ct tag = Inr p"
    using content_round_trip [OF laws(4) parts(6)] .
  from r(2) obtain ze where ze: "diffie_hellman X ephemeral (public_key_of X key) = Inr ze"
    by (auto simp: wrap_for_def)
  then have ze': "diffie_hellman X key (public_key_of X ephemeral) = Inr ze"
    by (rule diffie_hellman_sym [OF laws(2)])
  show ?thesis
  proof (cases sender)
    case None
    from r(2) None ze obtain w where "wrap_key X (concat_kdf X ze (ph_alg h) apu apv None) cek = Inr w"
      "r_encrypted_key r = b64_encode X w" by (auto simp: wrap_for_def)
    then show ?thesis using None epk p ze' laws h parts r(1) curves
      by (simp add: jwe_decrypt_def unwrap_wrap)
  next
    case (Some sk)
    then obtain skid skey where sk: "sender = Some (skid, skey)" by (cases sk) auto
    from r(2) sk ze obtain zs w where zs: "diffie_hellman X skey (public_key_of X key) = Inr zs"
      and "wrap_key X (concat_kdf X (ze @ zs) (ph_alg h) apu apv (Some tag)) cek = Inr w"
      "r_encrypted_key r = b64_encode X w" by (auto simp: wrap_for_def)
    moreover have "diffie_hellman X key (public_key_of X skey) = Inr zs"
      using zs by (rule diffie_hellman_sym [OF laws(2)])
    ultimately show ?thesis using sk epk p ze' laws h parts r(1) curves
      by (simp add: jwe_decrypt_def unwrap_wrap)
  qed
qed

lemma jwe_round_trip_aux:
  assumes laws: "text_laws X" "key_laws X" "jwk_law X (sk_curve key)" "ciphers_ok X"
    and enc: "jwe_encrypt X p sender recipients enc s = (Inr j, s')"
    and "sender \<noteq> None \<longrightarrow> enc = A256CbcHs512" "distinct (map fst recipients)"
      "(kid, public_key_of X key) \<in> set recipients"
  shows "jwe_decrypt X j kid key (map_option (\<lambda>s. public_key_of X (snd s)) sender) = Inr p"
proof (rule jwe_encrypt_ok [OF enc], erule jwe_seal_ok)
  fix ephemeral cek iv ct tag apu apv
  let ?h = "jwe_header X ephemeral sender recipients enc"
  assume c: "\<forall>r\<in>set recipients. pk_curve (snd r) = sk_curve ephemeral"
    "\<forall>skid sk. sender = Some (skid, sk) \<longrightarrow> sk_curve sk = sk_curve ephemeral"
    and parts: "content_encrypt X (ph_enc ?h) cek iv (jwe_protected j) p = Inr (ct, tag)"
    "decode_opt X (ph_apu ?h) = Inr apu" "b64_decode X (ph_apv ?h) = Inr apv"
    "jwe_iv j = b64_encode X iv" "jwe_ciphertext j = b64_encode X ct" "jwe_tag j = b64_encode X tag"
    and rs: "mapM_res (wrap_for X ephemeral sender (ph_alg ?h) apu apv tag cek) recipients = Inr (jwe_recipients j)"
    and prot: "jwe_protected j = b64_encode X (json_print X (se_header ?h))"
  have curve: "sk_curve ephemeral = sk_curve key" using c(1) assms(8) by fastforce
  obtain r where r: "List.find (\<lambda>r. r_kid r = kid) (jwe_recipients j) = Some r"
    "wrap_for X ephemeral sender (ph_alg ?h) apu apv tag cek (kid, public_key_of X key) = Inr r"
    using wrap_all_find [OF rs assms(7,8)] by blast
  have h: "protected_header X j = Inr ?h" using laws(1) by (simp add: protected_header_def prot)
  show ?thesis
    by (rule decrypt_wrapped [OF laws h _ _ _ _ curve _ parts(2,3,4,5,6,1) r])
      (use assms(6) c curve wrap_all_kids [OF rs] in \<open>simp_all add: jwe_header_def recipient_kids_def\<close>)
qed

end
