(* ===== verification/Jws.thy ===== *)
theory Jws
  imports Jwe
begin

text \<open>
  JSON Web Signatures: \<open>crates/didcomm/src/crypto/jws.rs\<close>. A DIDComm signed message carries
  exactly one signature; \<open>from_prior\<close> and possession proofs are compact JWTs.
\<close>

definition SIGNED_TYP :: string where
  "SIGNED_TYP = ''application/didcomm-signed+json''"

record jws_signature =
  sg_protected :: string
  sg_signature :: string
  sg_header_kid :: "string option"

record jws =
  jws_payload :: string
  jws_signatures :: "jws_signature list"

record jws_protected_header =
  jh_typ :: "string option"
  jh_alg :: string
  jh_kid :: "string option"

section \<open>Derived JSON forms\<close>

definition de_unprotected :: "json \<Rightarrow> string option" where
  "de_unprotected v = Option.bind (de_fields [''kid''] v) (\<lambda>f. req_str f ''kid'')"

definition jws_signature_fields :: "(string \<Rightarrow> json option) \<Rightarrow> jws_signature option" where
  "jws_signature_fields f =
     Option.bind (req_str f ''protected'') (\<lambda>p.
     Option.bind (req_str f ''signature'') (\<lambda>s.
     Option.bind (opt_field de_unprotected f ''header'') (\<lambda>h.
     Some \<lparr>sg_protected = p, sg_signature = s, sg_header_kid = h\<rparr>)))"

definition de_jws_signature :: "json \<Rightarrow> jws_signature option" where
  "de_jws_signature v =
     Option.bind (de_fields [''protected'', ''signature'', ''header''] v) jws_signature_fields"

definition se_jws_signature :: "jws_signature \<Rightarrow> json" where
  "se_jws_signature s = JObj ([(''protected'', JStr (sg_protected s)), (''signature'', JStr (sg_signature s))]
     @ opt_member ''header'' (\<lambda>kid. JObj [(''kid'', JStr kid)]) (sg_header_kid s))"

text \<open>\<open>JwsInput\<close> is untagged: the general form first, then the flattened one.\<close>

definition de_jws_general :: "json \<Rightarrow> jws option" where
  "de_jws_general v =
     Option.bind (de_fields [''payload'', ''signatures''] v) (\<lambda>f.
     Option.bind (req_str f ''payload'') (\<lambda>p.
     Option.bind (Option.bind (Option.bind (f ''signatures'') as_array) (mapM_opt de_jws_signature)) (\<lambda>ss.
     Some \<lparr>jws_payload = p, jws_signatures = ss\<rparr>)))"

definition de_jws_flattened :: "json \<Rightarrow> jws option" where
  "de_jws_flattened v =
     (if is_object v then
       Option.bind (de_fields [''payload'', ''protected'', ''signature'', ''header''] v) (\<lambda>f.
       Option.bind (req_str f ''payload'') (\<lambda>p.
       Option.bind (jws_signature_fields f) (\<lambda>s.
       Some \<lparr>jws_payload = p, jws_signatures = [s]\<rparr>)))
      else None)"

definition de_jws :: "json \<Rightarrow> jws option" where
  "de_jws v = (case de_jws_general v of Some j \<Rightarrow> Some j | None \<Rightarrow> de_jws_flattened v)"

definition se_jws :: "jws \<Rightarrow> json" where
  "se_jws j = JObj [(''payload'', JStr (jws_payload j)),
     (''signatures'', JArr (map se_jws_signature (jws_signatures j)))]"

definition se_jws_header :: "jws_protected_header \<Rightarrow> json" where
  "se_jws_header h = JObj (opt_member ''typ'' JStr (jh_typ h) @ [(''alg'', JStr (jh_alg h))]
     @ opt_member ''kid'' JStr (jh_kid h))"

definition de_jws_header :: "json \<Rightarrow> jws_protected_header option" where
  "de_jws_header v =
     Option.bind (de_fields [''typ'', ''alg'', ''kid''] v) (\<lambda>f.
     Option.bind (opt_field as_str f ''typ'') (\<lambda>typ.
     Option.bind (req_str f ''alg'') (\<lambda>alg.
     Option.bind (opt_field as_str f ''kid'') (\<lambda>kid.
     Some \<lparr>jh_typ = typ, jh_alg = alg, jh_kid = kid\<rparr>))))"

section \<open>Operations\<close>

definition signature_alg_res :: "string option \<Rightarrow> error + string" where
  "signature_alg_res alg = ok_or (Unsupported ''key cannot sign'') alg"

definition jws_sign :: "ext \<Rightarrow> bytes \<Rightarrow> string \<Rightarrow> secret_key \<Rightarrow> error + jws" where
  "jws_sign X payload kid key =
     bind_res (signature_alg_res (signature_alg (pk_curve (public_key_of X key)))) (\<lambda>alg.
     let protected = b64_encode X (json_print X (se_jws_header
           \<lparr>jh_typ = Some SIGNED_TYP, jh_alg = alg, jh_kid = Some kid\<rparr>));
         payload = b64_encode X payload
     in bind_res (secret_sign X key (protected @ ''.'' @ payload)) (\<lambda>signature.
     Inr \<lparr>jws_payload = payload,
          jws_signatures = [\<lparr>sg_protected = protected, sg_signature = b64_encode X signature,
            sg_header_kid = Some kid\<rparr>]\<rparr>))"

definition jws_parse :: "ext \<Rightarrow> string \<Rightarrow> error + jws" where
  "jws_parse X t = from_str_as X de_jws t"

definition jws_single :: "ext \<Rightarrow> jws \<Rightarrow> error + (jws_signature \<times> jws_protected_header)" where
  "jws_single X j =
     (case jws_signatures j of
        [s] \<Rightarrow>
          bind_res (bind_res (b64_decode X (sg_protected s)) (from_str_as X de_jws_header)) (\<lambda>h.
          Inr (s, h))
      | _ \<Rightarrow> Inl (Malformed ''a signed message must carry exactly one signature''))"

definition jws_protected_header_of :: "ext \<Rightarrow> jws \<Rightarrow> error + jws_protected_header" where
  "jws_protected_header_of X j = bind_res (jws_single X j) (\<lambda>(s, h). Inr h)"

definition signer_kid :: "ext \<Rightarrow> jws \<Rightarrow> error + string" where
  "signer_kid X j =
     bind_res (jws_single X j) (\<lambda>(s, h).
     case (jh_kid h, sg_header_kid s) of
       (Some a, Some b) \<Rightarrow> if a \<noteq> b then Inl (Inconsistent ''JWS kid headers differ'') else Inr a
     | (Some kid, None) \<Rightarrow> Inr kid
     | (None, Some kid) \<Rightarrow> Inr kid
     | (None, None) \<Rightarrow> Inl (Malformed ''JWS without kid''))"

definition jws_verify :: "ext \<Rightarrow> jws \<Rightarrow> public_key \<Rightarrow> error + bytes" where
  "jws_verify X j key =
     bind_res (jws_single X j) (\<lambda>(s, h).
     bind_res (signature_alg_res (signature_alg (pk_curve key))) (\<lambda>alg.
     bind_res (ensure (jh_alg h = alg)
       (Inconsistent (''JWS alg '' @ jh_alg h @ '' does not match a '' @ jwk_crv (pk_curve key) @ '' key''))) (\<lambda>_.
     bind_res (b64_decode X (sg_signature s)) (\<lambda>sg.
     bind_res (public_verify X key (sg_protected s @ ''.'' @ jws_payload j) sg) (\<lambda>_.
     b64_decode X (jws_payload j))))))"

definition jws_to_json :: "ext \<Rightarrow> jws \<Rightarrow> string" where
  "jws_to_json X j = json_print X (se_jws j)"

definition sign_compact :: "ext \<Rightarrow> bytes \<Rightarrow> string \<Rightarrow> secret_key \<Rightarrow> error + string" where
  "sign_compact X payload kid key =
     bind_res (signature_alg_res (signature_alg (pk_curve (public_key_of X key)))) (\<lambda>alg.
     let header = \<lparr>jh_typ = Some ''JWT'', jh_alg = alg, jh_kid = Some kid\<rparr>;
         input = b64_encode X (json_print X (se_jws_header header)) @ ''.'' @ b64_encode X payload
     in bind_res (secret_sign X key input) (\<lambda>signature.
     Inr (input @ ''.'' @ b64_encode X signature)))"

record compact =
  cp_header :: jws_protected_header
  cp_payload :: bytes
  cp_signing_input :: string
  cp_signature :: bytes

definition compact_parse :: "ext \<Rightarrow> string \<Rightarrow> error + compact" where
  "compact_parse X token =
     bind_res (ok_or (Malformed ''compact JWS'') (rsplit_once (CHR ''.'') token)) (\<lambda>(input, signature).
     bind_res (ok_or (Malformed ''compact JWS'') (split_once (CHR ''.'') input)) (\<lambda>(header, payload).
     bind_res (bind_res (b64_decode X header) (from_str_as X de_jws_header)) (\<lambda>h.
     bind_res (b64_decode X payload) (\<lambda>p.
     bind_res (b64_decode X signature) (\<lambda>s.
     Inr \<lparr>cp_header = h, cp_payload = p, cp_signing_input = input, cp_signature = s\<rparr>)))))"

definition compact_verify :: "ext \<Rightarrow> compact \<Rightarrow> public_key \<Rightarrow> error + unit" where
  "compact_verify X c key =
     bind_res (signature_alg_res (signature_alg (pk_curve key))) (\<lambda>alg.
     bind_res (ensure (jh_alg (cp_header c) = alg) (Inconsistent ''JWT alg does not match the key'')) (\<lambda>_.
     public_verify X key (cp_signing_input c) (cp_signature c)))"

end
