(* ===== verification/Message.thy ===== *)
theory Message
  imports Jws
begin

text \<open>
  DIDComm plaintext messages: \<open>crates/didcomm/src/message.rs\<close>. The record has the struct's
  fields; \<open>extra_headers\<close> is the flattened map of the headers the struct does not name. Random
  message ids and the clock are arguments (\<open>uid\<close>, \<open>now\<close>).
\<close>

definition PLAINTEXT_TYP :: string where
  "PLAINTEXT_TYP = ''application/didcomm-plain+json''"

record attachment_data =
  ad_jws :: "json option"
  ad_hash :: "string option"
  ad_links :: "string list option"
  ad_base64 :: "string option"
  ad_json :: "json option"

record attachment =
  at_id :: "string option"
  at_description :: "string option"
  at_filename :: "string option"
  at_media_type :: "string option"
  at_format :: "string option"
  at_lastmod_time :: "u64 option"
  at_byte_count :: "u64 option"
  at_data :: attachment_data

record message =
  m_id :: string
  m_type :: string
  m_typ :: "string option"
  m_from :: "string option"
  m_to :: "string list option"
  m_thid :: "string option"
  m_pthid :: "string option"
  m_created_time :: "u64 option"
  m_expires_time :: "u64 option"
  m_body :: json
  m_attachments :: "attachment list option"
  m_from_prior :: "string option"
  m_extra_headers :: "(string \<times> json) list"

section \<open>Builders\<close>

definition message_new :: "string \<Rightarrow> u64 \<Rightarrow> string \<Rightarrow> json \<Rightarrow> message" where
  "message_new uid now ty body =
     \<lparr>m_id = uid, m_type = ty, m_typ = None, m_from = None, m_to = None, m_thid = None,
      m_pthid = None, m_created_time = Some now, m_expires_time = None, m_body = body,
      m_attachments = None, m_from_prior = None, m_extra_headers = []\<rparr>"

definition set_from :: "string \<Rightarrow> message \<Rightarrow> message" where
  "set_from did m = m\<lparr>m_from := Some did\<rparr>"

definition set_to :: "string list \<Rightarrow> message \<Rightarrow> message" where
  "set_to dids m = m\<lparr>m_to := Some dids\<rparr>"

text \<open>The method \<open>thid\<close>: the thread id, or \<open>id\<close> when absent.\<close>

definition thid :: "message \<Rightarrow> string" where
  "thid m = (case m_thid m of Some t \<Rightarrow> t | None \<Rightarrow> m_id m)"

definition reply_to :: "message \<Rightarrow> message \<Rightarrow> message" where
  "reply_to parent m = m\<lparr>m_thid := Some (thid parent), m_pthid := m_pthid parent\<rparr>"

definition add_attachment :: "attachment \<Rightarrow> message \<Rightarrow> message" where
  "add_attachment a m =
     m\<lparr>m_attachments := Some ((case m_attachments m of None \<Rightarrow> [] | Some as \<Rightarrow> as) @ [a])\<rparr>"

definition header :: "string \<Rightarrow> json \<Rightarrow> message \<Rightarrow> message" where
  "header name v m = m\<lparr>m_extra_headers := AList.update name v (m_extra_headers m)\<rparr>"

definition is_expired_at :: "u64 \<Rightarrow> message \<Rightarrow> bool" where
  "is_expired_at now m = (case m_expires_time m of None \<Rightarrow> False | Some t \<Rightarrow> t \<le> now)"

definition empty_data :: attachment_data where
  "empty_data = \<lparr>ad_jws = None, ad_hash = None, ad_links = None, ad_base64 = None, ad_json = None\<rparr>"

definition with_data :: "attachment_data \<Rightarrow> attachment" where
  "with_data d = \<lparr>at_id = None, at_description = None, at_filename = None, at_media_type = None,
     at_format = None, at_lastmod_time = None, at_byte_count = None, at_data = d\<rparr>"

definition attachment_json :: "json \<Rightarrow> attachment" where
  "attachment_json v = with_data (empty_data\<lparr>ad_json := Some v\<rparr>)"

definition attachment_base64 :: "ext \<Rightarrow> bytes \<Rightarrow> attachment" where
  "attachment_base64 X bs = with_data (empty_data\<lparr>ad_base64 := Some (b64_encode X bs)\<rparr>)"

definition with_id :: "string \<Rightarrow> attachment \<Rightarrow> attachment" where
  "with_id i a = a\<lparr>at_id := Some i\<rparr>"

definition with_media_type :: "string \<Rightarrow> attachment \<Rightarrow> attachment" where
  "with_media_type t a = a\<lparr>at_media_type := Some t\<rparr>"

section \<open>Validation\<close>

definition check_did :: "string \<Rightarrow> string \<Rightarrow> error + unit" where
  "check_did value name =
     (if \<not> starts_with value ''did:'' \<or> CHR ''#'' \<in> set value
      then Inl (Malformed (name @ '' must be a DID without fragment: '' @ value)) else Inr ())"

definition media_type_is :: "string \<Rightarrow> string \<Rightarrow> bool" where
  "media_type_is value expected \<longleftrightarrow>
     value = expected \<or> strip_prefix ''application/'' expected = Some value"

definition attachment_validate :: "attachment \<Rightarrow> error + unit" where
  "attachment_validate a =
     (let d = at_data a in
      bind_res (case at_id a of
          Some i \<Rightarrow> ensure (list_all (\<lambda>c. is_ascii_alphanumeric c \<or> c \<in> set ''-._~'') i)
            (Malformed ''attachment id must be unreserved URI characters'')
        | None \<Rightarrow> Inr ()) (\<lambda>_.
      bind_res (ensure (\<not> (ad_jws d = None \<and> ad_hash d = None \<and> ad_links d = None
            \<and> ad_base64 d = None \<and> ad_json d = None)) (Malformed ''attachment without data'')) (\<lambda>_.
      if (case ad_links d of Some l \<Rightarrow> l \<noteq> [] | None \<Rightarrow> False) \<and> ad_hash d = None
      then Inl (Malformed ''linked attachment without hash'') else Inr ())))"

definition validate :: "message \<Rightarrow> error + unit" where
  "validate m =
     bind_res (ensure (m_id m \<noteq> []) (Malformed ''message without id'')) (\<lambda>_.
     bind_res (ensure (m_type m \<noteq> []) (Malformed ''message without type'')) (\<lambda>_.
     bind_res (ensure (is_object (m_body m)) (Malformed ''body must be a JSON object'')) (\<lambda>_.
     bind_res (case m_typ m of
         Some typ \<Rightarrow> ensure (media_type_is typ PLAINTEXT_TYP) (Malformed (''plaintext with typ '' @ typ))
       | None \<Rightarrow> Inr ()) (\<lambda>_.
     bind_res (case m_from m of Some f \<Rightarrow> check_did f ''from'' | None \<Rightarrow> Inr ()) (\<lambda>_.
     bind_res (mapM_res (\<lambda>t. check_did t ''to'') (case m_to m of Some ts \<Rightarrow> ts | None \<Rightarrow> [])) (\<lambda>_.
     bind_res (mapM_res attachment_validate
       (case m_attachments m of Some as \<Rightarrow> as | None \<Rightarrow> [])) (\<lambda>_. Inr ())))))))"

section \<open>JSON form\<close>

definition se_strings :: "string list \<Rightarrow> json" where
  "se_strings xs = JArr (map JStr xs)"

definition se_attachment_data :: "attachment_data \<Rightarrow> json" where
  "se_attachment_data d = JObj (opt_member ''jws'' id (ad_jws d) @ opt_member ''hash'' JStr (ad_hash d)
     @ opt_member ''links'' se_strings (ad_links d) @ opt_member ''base64'' JStr (ad_base64 d)
     @ opt_member ''json'' id (ad_json d))"

definition se_attachment :: "attachment \<Rightarrow> json" where
  "se_attachment a = JObj (opt_member ''id'' JStr (at_id a)
     @ opt_member ''description'' JStr (at_description a) @ opt_member ''filename'' JStr (at_filename a)
     @ opt_member ''media_type'' JStr (at_media_type a) @ opt_member ''format'' JStr (at_format a)
     @ opt_member ''lastmod_time'' JU64 (at_lastmod_time a) @ opt_member ''byte_count'' JU64 (at_byte_count a)
     @ [(''data'', se_attachment_data (at_data a))])"

definition se_message :: "message \<Rightarrow> json" where
  "se_message m = JObj ([(''id'', JStr (m_id m)), (''type'', JStr (m_type m))]
     @ opt_member ''typ'' JStr (m_typ m) @ opt_member ''from'' JStr (m_from m)
     @ opt_member ''to'' se_strings (m_to m) @ opt_member ''thid'' JStr (m_thid m)
     @ opt_member ''pthid'' JStr (m_pthid m) @ opt_member ''created_time'' JU64 (m_created_time m)
     @ opt_member ''expires_time'' JU64 (m_expires_time m) @ [(''body'', m_body m)]
     @ opt_member ''attachments'' (\<lambda>as. JArr (map se_attachment as)) (m_attachments m)
     @ opt_member ''from_prior'' JStr (m_from_prior m) @ m_extra_headers m)"

definition de_attachment_data :: "json \<Rightarrow> attachment_data option" where
  "de_attachment_data v =
     Option.bind (de_fields [''jws'', ''hash'', ''links'', ''base64'', ''json''] v) (\<lambda>f.
     Option.bind (opt_field Some f ''jws'') (\<lambda>jws.
     Option.bind (opt_field as_str f ''hash'') (\<lambda>hash.
     Option.bind (opt_field de_string_list f ''links'') (\<lambda>links.
     Option.bind (opt_field as_str f ''base64'') (\<lambda>base64.
     Option.bind (opt_field Some f ''json'') (\<lambda>js.
     Some \<lparr>ad_jws = jws, ad_hash = hash, ad_links = links, ad_base64 = base64, ad_json = js\<rparr>))))))"

definition de_attachment :: "json \<Rightarrow> attachment option" where
  "de_attachment v =
     Option.bind (de_fields [''id'', ''description'', ''filename'', ''media_type'', ''format'',
       ''lastmod_time'', ''byte_count'', ''data''] v) (\<lambda>f.
     Option.bind (opt_field as_str f ''id'') (\<lambda>i.
     Option.bind (opt_field as_str f ''description'') (\<lambda>de.
     Option.bind (opt_field as_str f ''filename'') (\<lambda>fn.
     Option.bind (opt_field as_str f ''media_type'') (\<lambda>mt.
     Option.bind (opt_field as_str f ''format'') (\<lambda>fm.
     Option.bind (opt_field as_u64 f ''lastmod_time'') (\<lambda>lm.
     Option.bind (opt_field as_u64 f ''byte_count'') (\<lambda>bc.
     Option.bind (Option.bind (f ''data'') de_attachment_data) (\<lambda>d.
     Some \<lparr>at_id = i, at_description = de, at_filename = fn, at_media_type = mt, at_format = fm,
           at_lastmod_time = lm, at_byte_count = bc, at_data = d\<rparr>)))))))))"

definition message_fields :: "string list" where
  "message_fields = [''id'', ''type'', ''typ'', ''from'', ''to'', ''thid'', ''pthid'',
     ''created_time'', ''expires_time'', ''body'', ''attachments'', ''from_prior'']"

definition de_message :: "json \<Rightarrow> message option" where
  "de_message v =
     Option.bind (as_object v) (\<lambda>members.
     Option.bind (de_fields message_fields v) (\<lambda>f.
     Option.bind (req_str f ''id'') (\<lambda>i.
     Option.bind (req_str f ''type'') (\<lambda>ty.
     Option.bind (opt_field as_str f ''typ'') (\<lambda>typ.
     Option.bind (opt_field as_str f ''from'') (\<lambda>fr.
     Option.bind (opt_field de_string_list f ''to'') (\<lambda>t.
     Option.bind (opt_field as_str f ''thid'') (\<lambda>th.
     Option.bind (opt_field as_str f ''pthid'') (\<lambda>pth.
     Option.bind (opt_field as_u64 f ''created_time'') (\<lambda>ct.
     Option.bind (opt_field as_u64 f ''expires_time'') (\<lambda>et.
     Option.bind (f ''body'') (\<lambda>body.
     Option.bind (opt_field (\<lambda>a. Option.bind (as_array a) (mapM_opt de_attachment)) f ''attachments'') (\<lambda>as.
     Option.bind (opt_field as_str f ''from_prior'') (\<lambda>fp.
     Some \<lparr>m_id = i, m_type = ty, m_typ = typ, m_from = fr, m_to = t, m_thid = th, m_pthid = pth,
           m_created_time = ct, m_expires_time = et, m_body = body, m_attachments = as,
           m_from_prior = fp,
           m_extra_headers = obj_of [] (filter (\<lambda>e. fst e \<notin> set message_fields) members)\<rparr>))))))))))))))"

definition to_plaintext_json :: "ext \<Rightarrow> message \<Rightarrow> string" where
  "to_plaintext_json X m = json_print X (se_message (m\<lparr>m_typ := Some PLAINTEXT_TYP\<rparr>))"

section \<open>Reading back what was written\<close>

lemma map_of_opt_member:
  "map_of (opt_member k f v @ r) k' = (if k' = k \<and> v \<noteq> None then Some (f (the v)) else map_of r k')"
  by (cases v) (auto simp: opt_member_def)

lemma opt_member_key: "k \<in> fst ` set (opt_member k' f v @ r) \<longleftrightarrow> v \<noteq> None \<and> k = k' \<or> k \<in> fst ` set r"
  by (cases v) (auto simp: opt_member_def)

lemma opt_member_key1 [simp]: "k \<in> fst ` set (opt_member k' f v) \<longleftrightarrow> v \<noteq> None \<and> k = k'"
  by (cases v) (auto simp: opt_member_def)

lemma opt_member_distinct:
  "distinct (map fst (opt_member k f v @ r)) \<longleftrightarrow> (v \<noteq> None \<longrightarrow> k \<notin> fst ` set r) \<and> distinct (map fst r)"
  by (cases v) (auto simp: opt_member_def)

lemma opt_member_all: "(\<forall>e\<in>set (opt_member k f v @ r). P (snd e)) \<longleftrightarrow>
    (\<forall>x. v = Some x \<longrightarrow> P (f x)) \<and> (\<forall>e\<in>set r. P (snd e))"
  by (cases v) (auto simp: opt_member_def)

lemmas opt_members = map_of_opt_member opt_member_key opt_member_distinct opt_member_all

text \<open>The values a text brings back: every \<open>Value\<close> has distinct keys; \<open>null\<close> reads as absent.\<close>

definition value_ok :: "json \<Rightarrow> bool" where
  "value_ok v \<longleftrightarrow> json_wf v \<and> json_plain v"

definition data_ok :: "attachment_data \<Rightarrow> bool" where
  "data_ok d \<longleftrightarrow> (\<forall>v. ad_jws d = Some v \<or> ad_json d = Some v \<longrightarrow> value_ok v \<and> v \<noteq> JNull)"

definition message_ok :: "message \<Rightarrow> bool" where
  "message_ok m \<longleftrightarrow> value_ok (m_body m)
     \<and> (\<forall>a\<in>set (case m_attachments m of Some as \<Rightarrow> as | None \<Rightarrow> []). data_ok (at_data a))
     \<and> distinct (map fst (m_extra_headers m))
     \<and> (\<forall>e\<in>set (m_extra_headers m). fst e \<notin> set message_fields \<and> value_ok (snd e))"

lemma opt_field_simps:
  "f k = None \<Longrightarrow> opt_field d f k = Some None"
  "f k = Some v \<Longrightarrow> v \<noteq> JNull \<Longrightarrow> opt_field d f k = map_option Some (d v)"
  by (cases v; simp add: opt_field_def)+

lemma opt_field_opt:
  assumes "f k = (if v \<noteq> None then Some (g (the v)) else None)" "\<And>x. v = Some x \<Longrightarrow> g x \<noteq> JNull" "\<And>x. v = Some x \<Longrightarrow> d (g x) = Some x"
  shows "opt_field d f k = Some v"
  using assms by (cases v) (auto simp: opt_field_simps)

lemma de_fields_distinct: "distinct (map fst m) \<Longrightarrow> de_fields names (JObj m) = Some (map_of m)"
  by (simp add: de_fields_def)

lemma se_strings_simps [simp]: "de_string_list (se_strings xs) = Some xs" "se_strings xs \<noteq> JNull"
  by (simp_all add: se_strings_def)

lemma de_attachment_data_se: "data_ok d \<Longrightarrow> de_attachment_data (se_attachment_data d) = Some d"
  unfolding de_attachment_data_def se_attachment_data_def de_fields_def
  by (cases "ad_jws d"; cases "ad_json d"; cases "ad_hash d"; cases "ad_links d"; cases "ad_base64 d")
    (simp_all add: opt_member_def opt_field_simps data_ok_def)

lemma de_attachment_se:
  assumes "data_ok (at_data a)"
  shows "de_attachment (se_attachment a) = Some a"
proof -
  let ?m = "opt_member ''id'' JStr (at_id a)
     @ opt_member ''description'' JStr (at_description a) @ opt_member ''filename'' JStr (at_filename a)
     @ opt_member ''media_type'' JStr (at_media_type a) @ opt_member ''format'' JStr (at_format a)
     @ opt_member ''lastmod_time'' JU64 (at_lastmod_time a) @ opt_member ''byte_count'' JU64 (at_byte_count a)
     @ [(''data'', se_attachment_data (at_data a))]"
  have "distinct (map fst ?m)" by (simp only: opt_members) simp
  then have f: "de_fields names (se_attachment a) = Some (map_of ?m)" for names
    unfolding se_attachment_def by (rule de_fields_distinct)
  have s: "opt_field as_str (map_of ?m) ''id'' = Some (at_id a)"
    "opt_field as_str (map_of ?m) ''description'' = Some (at_description a)"
    "opt_field as_str (map_of ?m) ''filename'' = Some (at_filename a)"
    "opt_field as_str (map_of ?m) ''media_type'' = Some (at_media_type a)"
    "opt_field as_str (map_of ?m) ''format'' = Some (at_format a)"
    by (rule opt_field_opt [where g = JStr]; simp add: map_of_opt_member del: map_of_append)+
  have n: "opt_field as_u64 (map_of ?m) ''lastmod_time'' = Some (at_lastmod_time a)"
    "opt_field as_u64 (map_of ?m) ''byte_count'' = Some (at_byte_count a)"
    by (rule opt_field_opt [where g = JU64]; simp add: map_of_opt_member del: map_of_append)+
  have d: "map_of ?m ''data'' = Some (se_attachment_data (at_data a))"
    by (simp add: map_of_opt_member del: map_of_append)
  show ?thesis unfolding de_attachment_def f using s n d de_attachment_data_se [OF assms] by simp
qed

lemma data_value_ok: "data_ok d \<Longrightarrow> value_ok (se_attachment_data d)"
  unfolding se_attachment_data_def value_ok_def data_ok_def
  by (cases "ad_jws d"; cases "ad_json d"; cases "ad_hash d"; cases "ad_links d"; cases "ad_base64 d")
    (auto simp: opt_member_def se_strings_def)

lemma attachment_value_ok: "data_ok (at_data a) \<Longrightarrow> value_ok (se_attachment a)"
  using data_value_ok [of "at_data a"]
  unfolding se_attachment_def value_ok_def json_wf.simps json_plain.simps
  by (simp only: opt_members) simp

text \<open>The members of a message, and what the decoder finds in them.\<close>

lemma message_members:
  assumes "message_ok m"
  defines "ms \<equiv> [(''id'', JStr (m_id m)), (''type'', JStr (m_type m))]
     @ opt_member ''typ'' JStr (m_typ m) @ opt_member ''from'' JStr (m_from m)
     @ opt_member ''to'' se_strings (m_to m) @ opt_member ''thid'' JStr (m_thid m)
     @ opt_member ''pthid'' JStr (m_pthid m) @ opt_member ''created_time'' JU64 (m_created_time m)
     @ opt_member ''expires_time'' JU64 (m_expires_time m) @ [(''body'', m_body m)]
     @ opt_member ''attachments'' (\<lambda>as. JArr (map se_attachment as)) (m_attachments m)
     @ opt_member ''from_prior'' JStr (m_from_prior m) @ m_extra_headers m"
  shows "se_message m = JObj ms" "distinct (map fst ms)"
    "k \<in> set message_fields \<Longrightarrow> map_of (m_extra_headers m) k = None"
    "filter (\<lambda>e. fst e \<notin> set message_fields) ms = m_extra_headers m"
proof -
  have ex: "k \<in> set message_fields \<Longrightarrow> k \<notin> fst ` set (m_extra_headers m)" for k
    using assms(1) by (auto simp: message_ok_def)
  show "se_message m = JObj ms" by (simp add: se_message_def ms_def)
  show "k \<in> set message_fields \<Longrightarrow> map_of (m_extra_headers m) k = None"
    using ex by (simp add: map_of_eq_None_iff)
  have all: "\<forall>k\<in>set message_fields. k \<notin> fst ` set (m_extra_headers m)" using ex by blast
  have "distinct (map fst (m_extra_headers m))" using assms(1) by (simp add: message_ok_def)
  then show "distinct (map fst ms)"
    unfolding ms_def using all [unfolded message_fields_def]
    by (simp only: opt_members append.simps list.map fst_conv distinct.simps list.set image_insert
        insert_iff ball_simps) (simp add: opt_members)
  have o: "filter (\<lambda>e. fst e \<notin> set message_fields) (opt_member k f v @ r) =
      filter (\<lambda>e. fst e \<notin> set message_fields) r" if "k \<in> set message_fields"
    for k and f :: "'x \<Rightarrow> json" and v r using that by (cases v) (auto simp: opt_member_def)
  have "filter (\<lambda>e. fst e \<notin> set message_fields) (m_extra_headers m) = m_extra_headers m"
    using ex by (intro filter_True) auto
  then show "filter (\<lambda>e. fst e \<notin> set message_fields) ms = m_extra_headers m"
    unfolding ms_def by (simp add: o [unfolded message_fields_def, simplified] message_fields_def)
qed

lemma message_round_trip_value:
  assumes ok: "message_ok m"
  shows "de_message (se_message m) = Some m"
proof -
  note mm = message_members [OF ok]
  let ?H = "m_extra_headers m"
  let ?m = "[(''id'', JStr (m_id m)), (''type'', JStr (m_type m))]
     @ opt_member ''typ'' JStr (m_typ m) @ opt_member ''from'' JStr (m_from m)
     @ opt_member ''to'' se_strings (m_to m) @ opt_member ''thid'' JStr (m_thid m)
     @ opt_member ''pthid'' JStr (m_pthid m) @ opt_member ''created_time'' JU64 (m_created_time m)
     @ opt_member ''expires_time'' JU64 (m_expires_time m) @ [(''body'', m_body m)]
     @ opt_member ''attachments'' (\<lambda>as. JArr (map se_attachment as)) (m_attachments m)
     @ opt_member ''from_prior'' JStr (m_from_prior m) @ ?H"
  have none: "map_of ?H ''typ'' = None" "map_of ?H ''from'' = None" "map_of ?H ''to'' = None"
    "map_of ?H ''thid'' = None" "map_of ?H ''pthid'' = None" "map_of ?H ''created_time'' = None"
    "map_of ?H ''expires_time'' = None" "map_of ?H ''attachments'' = None" "map_of ?H ''from_prior'' = None"
    by (rule mm(3), simp add: message_fields_def)+
  have f: "de_fields names (se_message m) = Some (map_of ?m)" for names
    unfolding mm(1) using mm(2) by (rule de_fields_distinct)
  have s: "opt_field as_str (map_of ?m) ''typ'' = Some (m_typ m)"
    "opt_field as_str (map_of ?m) ''from'' = Some (m_from m)"
    "opt_field as_str (map_of ?m) ''thid'' = Some (m_thid m)"
    "opt_field as_str (map_of ?m) ''pthid'' = Some (m_pthid m)"
    "opt_field as_str (map_of ?m) ''from_prior'' = Some (m_from_prior m)"
    by (rule opt_field_opt [where g = JStr]; simp add: map_of_opt_member none del: map_of_append)+
  have n: "opt_field as_u64 (map_of ?m) ''created_time'' = Some (m_created_time m)"
    "opt_field as_u64 (map_of ?m) ''expires_time'' = Some (m_expires_time m)"
    by (rule opt_field_opt [where g = JU64]; simp add: map_of_opt_member none del: map_of_append)+
  have t: "opt_field de_string_list (map_of ?m) ''to'' = Some (m_to m)"
    by (rule opt_field_opt [where g = se_strings]; simp add: map_of_opt_member none del: map_of_append)
  have "m_attachments m = Some as \<Longrightarrow> mapM_opt de_attachment (map se_attachment as) = Some as" for as
    using ok by (intro mapM_opt_map de_attachment_se) (auto simp: message_ok_def)
  then have a: "opt_field (\<lambda>a. Option.bind (as_array a) (mapM_opt de_attachment)) (map_of ?m) ''attachments''
      = Some (m_attachments m)"
    by (intro opt_field_opt [where g = "\<lambda>as. JArr (map se_attachment as)"])
      (simp_all add: map_of_opt_member none del: map_of_append)
  have r: "req_str (map_of ?m) ''id'' = Some (m_id m)" "req_str (map_of ?m) ''type'' = Some (m_type m)"
    "map_of ?m ''body'' = Some (m_body m)"
    by (simp_all add: req_str_def map_of_opt_member del: map_of_append)
  have e: "obj_of [] ?H = ?H" using ok by (subst obj_of_distinct) (simp_all add: message_ok_def)
  show ?thesis
    unfolding de_message_def f unfolding mm(1) as_object.simps bind.bind_lunit s n t a r mm(4) e by simp
qed

lemma value_ok_simps:
  "value_ok (JStr t)" "value_ok (JU64 n)" "value_ok (JArr vs) \<longleftrightarrow> (\<forall>v\<in>set vs. value_ok v)"
  "value_ok (se_strings xs)"
  by (auto simp: value_ok_def se_strings_def)

lemma value_ok_obj: "distinct (map fst ms) \<Longrightarrow> \<forall>e\<in>set ms. value_ok (snd e) \<Longrightarrow> value_ok (JObj ms)"
  by (simp add: value_ok_def)

lemma message_value_ok:
  assumes ok: "message_ok m"
  shows "value_ok (se_message m)"
proof -
  have "value_ok (m_body m)" "\<forall>e\<in>set (m_extra_headers m). value_ok (snd e)"
    and "\<forall>as. m_attachments m = Some as \<longrightarrow> (\<forall>a\<in>set as. value_ok (se_attachment a))"
    using ok attachment_value_ok by (auto simp: message_ok_def)
  then have "\<forall>e\<in>set ([(''id'', JStr (m_id m)), (''type'', JStr (m_type m))]
     @ opt_member ''typ'' JStr (m_typ m) @ opt_member ''from'' JStr (m_from m)
     @ opt_member ''to'' se_strings (m_to m) @ opt_member ''thid'' JStr (m_thid m)
     @ opt_member ''pthid'' JStr (m_pthid m) @ opt_member ''created_time'' JU64 (m_created_time m)
     @ opt_member ''expires_time'' JU64 (m_expires_time m) @ [(''body'', m_body m)]
     @ opt_member ''attachments'' (\<lambda>as. JArr (map se_attachment as)) (m_attachments m)
     @ opt_member ''from_prior'' JStr (m_from_prior m) @ m_extra_headers m). value_ok (snd e)"
    by (simp only: append.simps ball_simps list.set snd_conv opt_member_all set_map)
      (simp add: value_ok_simps)
  with message_members(2) [OF ok] show ?thesis unfolding message_members(1) [OF ok] by (rule value_ok_obj)
qed

end
