(* ===== verification/Did_Document.thy ===== *)
theory Did_Document
  imports Message
begin

text \<open>
  DID documents and the key encodings inside them: \<open>crates/didcomm/src/did/multikey.rs\<close> and
  \<open>crates/didcomm/src/did/document.rs\<close>. A document is read from JSON into typed keys with
  absolute ids; methods in formats the library does not know are skipped.
\<close>

unbundle bit_operations_syntax

section \<open>Multikey\<close>

fun codec :: "curve \<Rightarrow> u64" where
  "codec Ed25519 = 0xed"
| "codec X25519 = 0xec"
| "codec P256 = 0x1200"
| "codec P384 = 0x1201"
| "codec P521 = 0x1202"
| "codec Secp256k1 = 0xe7"

text \<open>\<open>{other:x}\<close>: lower-case hexadecimal.\<close>

fun show_hex :: "nat \<Rightarrow> string" where
  "show_hex n = (let d = n mod 16; c = char_of (if d < 10 then 48 + d else 87 + d)
     in if n < 16 then [c] else show_hex (n div 16) @ [c])"

declare show_hex.simps [simp del]

definition codec_curve :: "u64 \<Rightarrow> error + curve" where
  "codec_curve c =
     (if c = 0xed then Inr Ed25519
      else if c = 0xec then Inr X25519
      else if c = 0x1200 then Inr P256
      else if c = 0x1201 then Inr P384
      else if c = 0x1202 then Inr P521
      else if c = 0xe7 then Inr Secp256k1
      else Inl (Unsupported (''multicodec 0x'' @ show_hex (unat c))))"

function encode_varint :: "u64 \<Rightarrow> bytes" where
  "encode_varint v =
     (let byte = unat (v AND 0x7f); rest = drop_bit 7 v
      in if rest = 0 then [char_of byte] else char_of (byte OR 0x80) # encode_varint rest)"
  by pat_completeness auto

lemma unat_drop_bit_7: "unat (drop_bit 7 (v :: u64)) = unat v div 128"
  by (simp add: drop_bit_eq_div unat_div)

termination encode_varint
proof (relation "measure unat", simp)
  fix v x xa
  assume "x = unat (v AND (0x7f :: u64))" "xa = drop_bit 7 v" "xa \<noteq> 0"
  then have "unat xa = unat v div 128" and "unat xa \<noteq> 0"
    using unat_drop_bit_7 [of v] unat_eq_zero [of xa] by blast+
  then show "(xa, v) \<in> measure unat" by simp
qed

declare encode_varint.simps [simp del]

text \<open>The loop over the first nine bytes; \<open>i\<close> is the index, \<open>value\<close> the bits read so far.\<close>

fun decode_varint_from :: "nat \<Rightarrow> u64 \<Rightarrow> bytes \<Rightarrow> error + (u64 \<times> bytes)" where
  "decode_varint_from i value [] = Inl (Malformed ''multicodec varint'')"
| "decode_varint_from i value (b # bs) =
     (if 9 \<le> i then Inl (Malformed ''multicodec varint'')
      else let byte = (of_nat (of_char b) :: u64); value = value OR push_bit (7 * i) (byte AND 0x7f)
      in if byte AND 0x80 = 0 then Inr (value, bs) else decode_varint_from (i + 1) value bs)"

definition decode_varint :: "bytes \<Rightarrow> error + (u64 \<times> bytes)" where
  "decode_varint bs = decode_varint_from 0 0 bs"

definition decode_base58btc :: "ext \<Rightarrow> string \<Rightarrow> error + bytes" where
  "decode_base58btc X t =
     bind_res (ok_or (Unsupported ''multibase other than base58btc'') (strip_prefix ''z'' t)) (\<lambda>body.
     ok_or (Malformed ''base58btc'') (b58_dec X body))"

definition encode_base58btc :: "ext \<Rightarrow> bytes \<Rightarrow> string" where
  "encode_base58btc X bs = ''z'' @ b58_enc X bs"

definition multikey_encode :: "ext \<Rightarrow> public_key \<Rightarrow> string" where
  "multikey_encode X k = encode_base58btc X (encode_varint (codec (pk_curve k)) @ public_to_bytes k)"

definition multikey_decode :: "ext \<Rightarrow> string \<Rightarrow> error + public_key" where
  "multikey_decode X t =
     bind_res (decode_base58btc X t) (\<lambda>bs.
     bind_res (decode_varint bs) (\<lambda>(c, key).
     bind_res (codec_curve c) (\<lambda>curve. public_from_bytes X curve key)))"

section \<open>Documents\<close>

record verification_method =
  vm_id :: string
  vm_controller :: string
  vm_key :: public_key

record service_entry =
  sv_id :: string
  sv_kind :: string
  sv_endpoint :: json

definition DIDCOMM_SERVICE_TYPE :: string where
  "DIDCOMM_SERVICE_TYPE = ''DIDCommMessaging''"

record did_comm_endpoint =
  ep_uri :: string
  ep_accept :: "string list"
  ep_routing_keys :: "string list"

record did_document =
  d_id :: string
  d_also_known_as :: "string list"
  d_verification_method :: "verification_method list"
  d_authentication :: "string list"
  d_assertion_method :: "string list"
  d_key_agreement :: "string list"
  d_service :: "service_entry list"

definition default_document :: did_document where
  "default_document = \<lparr>d_id = [], d_also_known_as = [], d_verification_method = [],
     d_authentication = [], d_assertion_method = [], d_key_agreement = [], d_service = []\<rparr>"

text \<open>A \<open>Vec<String>\<close> field with \<open>#[serde(default)]\<close>.\<close>

definition de_vec_field :: "(string \<Rightarrow> json option) \<Rightarrow> string \<Rightarrow> string list option" where
  "de_vec_field f k = (case f k of None \<Rightarrow> Some [] | Some v \<Rightarrow> de_string_list v)"

definition de_endpoint :: "json \<Rightarrow> did_comm_endpoint option" where
  "de_endpoint v =
     Option.bind (de_fields [''uri'', ''accept'', ''routingKeys''] v) (\<lambda>f.
     Option.bind (req_str f ''uri'') (\<lambda>uri.
     Option.bind (de_vec_field f ''accept'') (\<lambda>accept.
     Option.bind (de_vec_field f ''routingKeys'') (\<lambda>keys.
     Some \<lparr>ep_uri = uri, ep_accept = accept, ep_routing_keys = keys\<rparr>))))"

definition didcomm_endpoints :: "ext \<Rightarrow> service_entry \<Rightarrow> error + did_comm_endpoint list" where
  "didcomm_endpoints X s =
     (if sv_kind s \<noteq> DIDCOMM_SERVICE_TYPE then Inr []
      else case sv_endpoint s of
        JArr items \<Rightarrow> mapM_res (from_value_as X de_endpoint) items
      | JObj m \<Rightarrow> bind_res (from_value_as X de_endpoint (JObj m)) (\<lambda>e. Inr [e])
      | _ \<Rightarrow> Inl (Malformed ''DIDCommMessaging serviceEndpoint''))"

definition doc_method :: "did_document \<Rightarrow> string \<Rightarrow> verification_method option" where
  "doc_method doc i = List.find (\<lambda>m. vm_id m = i) (d_verification_method doc)"

definition key_agreement_methods :: "did_document \<Rightarrow> verification_method list" where
  "key_agreement_methods doc = List.map_filter (doc_method doc) (d_key_agreement doc)"

definition authentication_methods :: "did_document \<Rightarrow> verification_method list" where
  "authentication_methods doc = List.map_filter (doc_method doc) (d_authentication doc)"

definition key_agreement_key :: "did_document \<Rightarrow> string \<Rightarrow> error + public_key" where
  "key_agreement_key doc kid =
     bind_res (ensure (kid \<in> set (d_key_agreement doc)) (DidUrlNotFound (kid @ '' (keyAgreement)''))) (\<lambda>_.
     ok_or (DidUrlNotFound kid) (map_option vm_key (doc_method doc kid)))"

definition authentication_key :: "did_document \<Rightarrow> string \<Rightarrow> error + public_key" where
  "authentication_key doc kid =
     bind_res (ensure (kid \<in> set (d_authentication doc)) (DidUrlNotFound (kid @ '' (authentication)''))) (\<lambda>_.
     ok_or (DidUrlNotFound kid) (map_option vm_key (doc_method doc kid)))"

definition didcomm_services :: "did_document \<Rightarrow> service_entry list" where
  "didcomm_services doc = filter (\<lambda>s. sv_kind s = DIDCOMM_SERVICE_TYPE) (d_service doc)"

section \<open>Reading and writing\<close>

definition array :: "json option \<Rightarrow> json list" where
  "array v = (case Option.bind v as_array of None \<Rightarrow> [] | Some vs \<Rightarrow> vs)"

definition string_list :: "json option \<Rightarrow> string list" where
  "string_list v = List.map_filter as_str (array v)"

definition absolute :: "did_document \<Rightarrow> string \<Rightarrow> string" where
  "absolute doc i = (if starts_with i ''#'' then d_id doc @ i else i)"

definition parse_method :: "ext \<Rightarrow> did_document \<Rightarrow> json \<Rightarrow> error + verification_method option" where
  "parse_method X doc vm =
     bind_res (ok_or (Malformed ''verification method without id'') (jget_str ''id'' vm)) (\<lambda>i.
     let kind = (case jget_str ''type'' vm of Some k \<Rightarrow> k | None \<Rightarrow> []) in
     bind_res (case jget ''publicKeyJwk'' vm of
         Some j \<Rightarrow> bind_res (from_value_as X de_jwk j) (\<lambda>j. bind_res (public_from_jwk X j) (Inr \<circ> Some))
       | None \<Rightarrow> (case jget_str ''publicKeyMultibase'' vm of
           Some multibase \<Rightarrow> bind_res (multikey_decode X multibase) (Inr \<circ> Some)
         | None \<Rightarrow> (case jget_str ''publicKeyBase58'' vm of
             Some base58 \<Rightarrow>
               (case (if kind = ''Ed25519VerificationKey2018'' then Some Ed25519
                      else if kind = ''X25519KeyAgreementKey2019'' then Some X25519 else None) of
                  None \<Rightarrow> Inr None
                | Some curve \<Rightarrow>
                    bind_res (ok_or (Malformed ''publicKeyBase58'') (b58_dec X base58)) (\<lambda>raw.
                    bind_res (public_from_bytes X curve raw) (Inr \<circ> Some)))
           | None \<Rightarrow> Inr None))) (\<lambda>key.
     Inr (map_option (\<lambda>key. \<lparr>vm_id = absolute doc i,
       vm_controller = (case jget_str ''controller'' vm of Some c \<Rightarrow> c | None \<Rightarrow> d_id doc),
       vm_key = key\<rparr>) key)))"

fun parse_methods :: "ext \<Rightarrow> did_document \<Rightarrow> json list \<Rightarrow> error + did_document" where
  "parse_methods X doc [] = Inr doc"
| "parse_methods X doc (vm # vms) =
     bind_res (parse_method X doc vm) (\<lambda>m.
     parse_methods X (case m of
         Some m \<Rightarrow> doc\<lparr>d_verification_method := d_verification_method doc @ [m]\<rparr>
       | None \<Rightarrow> doc) vms)"

fun parse_entries :: "ext \<Rightarrow> did_document \<Rightarrow> json list \<Rightarrow> error + (string list \<times> did_document)" where
  "parse_entries X doc [] = Inr ([], doc)"
| "parse_entries X doc (entry # es) =
     (case entry of
        JStr reference \<Rightarrow>
          bind_res (parse_entries X doc es) (\<lambda>(ids, doc'). Inr (absolute doc reference # ids, doc'))
      | JObj _ \<Rightarrow>
          bind_res (parse_method X doc entry) (\<lambda>m.
          case m of
            None \<Rightarrow> parse_entries X doc es
          | Some m \<Rightarrow>
              bind_res (parse_entries X
                (if doc_method doc (vm_id m) = None
                 then doc\<lparr>d_verification_method := d_verification_method doc @ [m]\<rparr> else doc) es)
              (\<lambda>(ids, doc'). Inr (vm_id m # ids, doc')))
      | _ \<Rightarrow> Inl (Malformed ''verification relationship entry''))"

definition parse_relationship ::
  "ext \<Rightarrow> did_document \<Rightarrow> json option \<Rightarrow> error + (string list \<times> did_document)" where
  "parse_relationship X doc v = parse_entries X doc (array v)"

definition parse_service :: "did_document \<Rightarrow> nat \<Rightarrow> json \<Rightarrow> error + service_entry" where
  "parse_service doc i s =
     bind_res (ok_or (Malformed ''service without type'') (jget_str ''type'' s)) (\<lambda>kind.
     let sid = (case jget_str ''id'' s of
            Some i \<Rightarrow> absolute doc i
          | None \<Rightarrow> absolute doc (''#service-'' @ show_nat i));
         endpoint = jindex ''serviceEndpoint'' s;
         endpoint = (if kind = DIDCOMM_SERVICE_TYPE \<and> is_object endpoint then JArr [endpoint] else endpoint)
     in Inr \<lparr>sv_id = sid, sv_kind = kind, sv_endpoint = endpoint\<rparr>)"

definition doc_from_json :: "ext \<Rightarrow> json \<Rightarrow> error + did_document" where
  "doc_from_json X value =
     bind_res (ok_or (Malformed ''DID document is not an object'') (as_object value)) (\<lambda>_.
     bind_res (ok_or (Malformed ''DID document without id'') (jget_str ''id'' value)) (\<lambda>did.
     let doc = default_document\<lparr>d_id := did, d_also_known_as := string_list (jget ''alsoKnownAs'' value)\<rparr> in
     bind_res (parse_methods X doc (array (jget ''verificationMethod'' value))) (\<lambda>doc.
     bind_res (parse_relationship X doc (jget ''authentication'' value)) (\<lambda>(ids, doc).
     let doc = doc\<lparr>d_authentication := ids\<rparr> in
     bind_res (parse_relationship X doc (jget ''assertionMethod'' value)) (\<lambda>(ids, doc).
     let doc = doc\<lparr>d_assertion_method := ids\<rparr> in
     bind_res (parse_relationship X doc (jget ''keyAgreement'' value)) (\<lambda>(ids, doc).
     let doc = doc\<lparr>d_key_agreement := ids\<rparr> in
     bind_res (mapM_res (\<lambda>(i, s). parse_service doc i s)
       (enumerate 0 (array (jget ''service'' value)))) (\<lambda>services.
     Inr (doc\<lparr>d_service := services\<rparr>))))))))"

definition se_method :: "ext \<Rightarrow> verification_method \<Rightarrow> json" where
  "se_method X m = JObj [(''id'', JStr (vm_id m)), (''type'', JStr ''JsonWebKey2020''),
     (''controller'', JStr (vm_controller m)), (''publicKeyJwk'', se_jwk (public_to_jwk X (vm_key m)))]"

definition se_service :: "service_entry \<Rightarrow> json" where
  "se_service s = JObj [(''id'', JStr (sv_id s)), (''type'', JStr (sv_kind s)),
     (''serviceEndpoint'', sv_endpoint s)]"

definition doc_to_json :: "ext \<Rightarrow> did_document \<Rightarrow> json" where
  "doc_to_json X doc =
     (let optional = (\<lambda>name ids. if ids \<noteq> [] then [(name, se_strings ids)] else []) in
      JObj ([(''@context'', JArr [JStr ''https://www.w3.org/ns/did/v1'',
               JStr ''https://w3id.org/security/suites/jws-2020/v1'']),
             (''id'', JStr (d_id doc))]
        @ optional ''alsoKnownAs'' (d_also_known_as doc)
        @ [(''verificationMethod'', JArr (map (se_method X) (d_verification_method doc)))]
        @ optional ''authentication'' (d_authentication doc)
        @ optional ''assertionMethod'' (d_assertion_method doc)
        @ optional ''keyAgreement'' (d_key_agreement doc)
        @ (if d_service doc \<noteq> [] then [(''service'', JArr (map se_service (d_service doc)))] else [])))"

definition did_of :: "string \<Rightarrow> string" where
  "did_of did_url = takeWhile (\<lambda>c. c \<notin> {CHR ''#'', CHR ''?'', CHR ''/''}) did_url"

section \<open>Properties\<close>

lemma did_of_did_of [simp]: "did_of (did_of u) = did_of u"
  by (simp add: did_of_def takeWhile_idem)

lemma did_of_fragment: "did_of d = d \<Longrightarrow> did_of (d @ CHR ''#'' # f) = d"
  by (simp add: did_of_def takeWhile_append takeWhile_eq_all_conv)

lemma codec_curve_codec [simp]: "codec_curve (codec c) = Inr c"
  by (cases c) (simp_all add: codec_curve_def)

lemma varint_codec [simp]: "decode_varint (encode_varint (codec c) @ bs) = Inr (codec c, bs)"
  by (cases c) (simp_all add: encode_varint.simps decode_varint_def of_char_of Let_def)

lemma varint_json_codec [simp]: "decode_varint (encode_varint 0x200 @ bs) = Inr (0x200, bs)"
  by (simp add: encode_varint.simps decode_varint_def Let_def)

lemma authentication_key_Inr:
  "authentication_key doc kid = Inr k \<longleftrightarrow>
     kid \<in> set (d_authentication doc) \<and> (\<exists>m. doc_method doc kid = Some m \<and> vm_key m = k)"
  by (auto simp: authentication_key_def)

lemma key_agreement_key_Inr:
  "key_agreement_key doc kid = Inr k \<longleftrightarrow>
     kid \<in> set (d_key_agreement doc) \<and> (\<exists>m. doc_method doc kid = Some m \<and> vm_key m = k)"
  by (auto simp: key_agreement_key_def)

lemma parse_methods_id: "parse_methods X doc vms = Inr doc' \<Longrightarrow> d_id doc' = d_id doc"
  by (induction X doc vms rule: parse_methods.induct) (auto split: option.splits)

lemma parse_entries_id: "parse_entries X doc es = Inr (ids, doc') \<Longrightarrow> d_id doc' = d_id doc"
proof (induction X doc es arbitrary: ids rule: parse_entries.induct)
  case (2 X doc entry es)
  then show ?case by (cases entry) (fastforce split: option.splits if_splits)+
qed simp

lemma doc_from_json_id: "doc_from_json X v = Inr doc \<Longrightarrow> jget_str ''id'' v = Some (d_id doc)"
  by (auto simp: doc_from_json_def Let_def parse_relationship_def
      dest!: parse_methods_id parse_entries_id)

end
