(* ===== verification/Resolver.thy ===== *)
theory Resolver
  imports Did_Document
begin

text \<open>
  DID methods and resolvers: \<open>did/key.rs\<close>, \<open>did/peer.rs\<close>, \<open>did/web.rs\<close> and \<open>did/resolver.rs\<close> of
  \<open>crates/didcomm/src\<close>, and the caching \<open>WebResolver\<close> of \<open>crates/mediator/src/transport.rs\<close>.
  A \<open>dyn DidResolver\<close> is an action over the state its caches live in; the locale
  \<open>did_resolver\<close> is the trait's contract (an answer is the document of the DID asked for), and
  each resolver of the code is an interpretation of it.
\<close>

section \<open>did:key\<close>

definition did_key :: "ext \<Rightarrow> public_key \<Rightarrow> string" where
  "did_key X k = ''did:key:'' @ multikey_encode X k"

definition key_method :: "string \<Rightarrow> public_key \<Rightarrow> string \<Rightarrow> verification_method" where
  "key_method did key fragment = \<lparr>vm_id = did @ ''#'' @ fragment, vm_controller = did, vm_key = key\<rparr>"

definition resolve_key :: "ext \<Rightarrow> string \<Rightarrow> error + did_document" where
  "resolve_key X did =
     bind_res (ok_or (DidNotFound did) (strip_prefix ''did:key:'' did)) (\<lambda>encoded.
     bind_res (multikey_decode X encoded) (\<lambda>key.
     let main = key_method did key encoded;
         main_id = vm_id main;
         doc = default_document\<lparr>d_id := did, d_verification_method := [main]\<rparr>
     in Inr (case key of
         PkEd25519 ed \<Rightarrow>
           (let x = PkX25519 (ed_montgomery X ed);
                derived = key_method did x (multikey_encode X x)
            in doc\<lparr>d_authentication := [main_id], d_assertion_method := [main_id],
                 d_key_agreement := [vm_id derived], d_verification_method := [main, derived]\<rparr>)
       | PkX25519 _ \<Rightarrow> doc\<lparr>d_key_agreement := [main_id]\<rparr>
       | PkP384 _ \<Rightarrow> doc\<lparr>d_key_agreement := [main_id]\<rparr>
       | PkP521 _ \<Rightarrow> doc\<lparr>d_key_agreement := [main_id]\<rparr>
       | PkP256 _ \<Rightarrow> doc\<lparr>d_authentication := [main_id], d_assertion_method := [main_id],
           d_key_agreement := [main_id]\<rparr>
       | PkSecp256k1 _ \<Rightarrow> doc\<lparr>d_authentication := [main_id], d_assertion_method := [main_id]\<rparr>)))"

section \<open>did:peer\<close>

datatype purpose = Assertion | Encryption | Verification | CapabilityInvocation | CapabilityDelegation

fun purpose_code :: "purpose \<Rightarrow> char" where
  "purpose_code Assertion = CHR ''A''"
| "purpose_code Encryption = CHR ''E''"
| "purpose_code Verification = CHR ''V''"
| "purpose_code CapabilityInvocation = CHR ''I''"
| "purpose_code CapabilityDelegation = CHR ''D''"

definition from_code :: "char \<Rightarrow> purpose option" where
  "from_code c =
     (if c = CHR ''A'' then Some Assertion
      else if c = CHR ''E'' then Some Encryption
      else if c = CHR ''V'' then Some Verification
      else if c = CHR ''I'' then Some CapabilityInvocation
      else if c = CHR ''D'' then Some CapabilityDelegation else None)"

definition ABBREVIATIONS :: "(string \<times> string) list" where
  "ABBREVIATIONS = [(''type'', ''t''), (''serviceEndpoint'', ''s''), (''routingKeys'', ''r''), (''accept'', ''a'')]"

definition swap_key :: "bool \<Rightarrow> string \<Rightarrow> string" where
  "swap_key abbreviate s =
     (case (if abbreviate then map_of ABBREVIATIONS s
            else map_of (map (\<lambda>(long, short). (short, long)) ABBREVIATIONS) s) of
        Some k \<Rightarrow> k | None \<Rightarrow> s)"

fun rename_keys :: "bool \<Rightarrow> json \<Rightarrow> json" where
  "rename_keys abbreviate (JObj m) = JObj (obj_of [] (map (\<lambda>e.
     (let key = swap_key abbreviate (fst e); typed = key = ''t'' \<or> key = ''type'' in
      (key,
       if typed \<and> snd e = JStr ''DIDCommMessaging'' \<and> abbreviate then JStr ''dm''
       else if typed \<and> snd e = JStr ''dm'' \<and> \<not> abbreviate then JStr DIDCOMM_SERVICE_TYPE
       else rename_keys abbreviate (snd e)))) m))"
| "rename_keys abbreviate (JArr items) = JArr (map (rename_keys abbreviate) items)"
| "rename_keys abbreviate v = v"

text \<open>\<open>Map::remove\<close> of an order-preserving map: the last entry takes the place of the removed one.\<close>

fun obj_remove :: "string \<Rightarrow> (string \<times> json) list \<Rightarrow> (string \<times> json) list" where
  "obj_remove k [] = []"
| "obj_remove k (e # m) =
     (if fst e = k then (if m = [] then [] else last m # butlast m) else e # obj_remove k m)"

definition normalize_didcomm_service :: "json \<Rightarrow> json" where
  "normalize_didcomm_service service =
     (case service of
        JObj obj \<Rightarrow>
          (if map_of obj ''type'' \<noteq> Some (JStr DIDCOMM_SERVICE_TYPE) then service
           else case map_of obj ''serviceEndpoint'' of
             Some (JStr uri) \<Rightarrow>
               (let member = (\<lambda>m k. case map_of m k of Some v \<Rightarrow> [(k, v)] | None \<Rightarrow> []);
                    obj1 = obj_remove ''accept'' obj;
                    obj2 = obj_remove ''routingKeys'' obj1;
                    endpoint = [(''uri'', JStr uri)] @ member obj ''accept'' @ member obj1 ''routingKeys''
                in JObj (AList.update ''serviceEndpoint'' (JObj endpoint) obj2))
           | _ \<Rightarrow> service)
      | _ \<Rightarrow> service)"

definition peer2 :: "ext \<Rightarrow> (purpose \<times> public_key) list \<Rightarrow> json list \<Rightarrow> string" where
  "peer2 X keys services = ''did:peer:2''
     @ concat (map (\<lambda>(p, k). ''.'' @ [purpose_code p] @ multikey_encode X k) keys)
     @ concat (map (\<lambda>s. ''.S'' @ b64_encode X (json_print X (rename_keys True s))) services)"

text \<open>The lists that \<open>resolve_peer2\<close> builds: methods, services, and the three relationships.\<close>

record peer2_parts =
  p2_vms :: "json list"
  p2_services :: "json list"
  p2_authentication :: "json list"
  p2_assertion :: "json list"
  p2_key_agreement :: "json list"

definition peer2_service :: "ext \<Rightarrow> string \<Rightarrow> peer2_parts \<Rightarrow> error + peer2_parts" where
  "peer2_service X value p =
     bind_res (b64_decode X (trim_end_matches (CHR ''='') value)) (\<lambda>bs.
     bind_res (from_str_value X bs) (\<lambda>service.
     let service = normalize_didcomm_service (rename_keys False service);
         service = (if is_object service \<and> jget ''id'' service = None
           then jset ''id'' (JStr (if p2_services p = [] then ''#service''
                  else ''#service-'' @ show_nat (length (p2_services p)))) service
           else service)
     in Inr (p\<lparr>p2_services := p2_services p @ [service]\<rparr>)))"

definition peer2_element :: "ext \<Rightarrow> string \<Rightarrow> string \<Rightarrow> peer2_parts \<Rightarrow> error + peer2_parts" where
  "peer2_element X did element p =
     (case element of
        [] \<Rightarrow> Inl (Malformed ''empty did:peer:2 element'')
      | code # value \<Rightarrow>
          if code = CHR ''S'' then peer2_service X value p
          else
            bind_res (ok_or (Malformed (''did:peer:2 purpose '' @ code # takeWhile (\<lambda>c. is_cont (of_char c)) value)) (from_code code)) (\<lambda>purpose.
            bind_res (multikey_decode X value) (\<lambda>_.
            let kid = ''#key-'' @ show_nat (length (p2_vms p) + 1);
                p = p\<lparr>p2_vms := p2_vms p @ [JObj [(''id'', JStr kid), (''type'', JStr ''Multikey''),
                  (''controller'', JStr did), (''publicKeyMultibase'', JStr value)]]\<rparr>
            in Inr (case purpose of
                Verification \<Rightarrow> p\<lparr>p2_authentication := p2_authentication p @ [JStr kid]\<rparr>
              | Assertion \<Rightarrow> p\<lparr>p2_assertion := p2_assertion p @ [JStr kid]\<rparr>
              | Encryption \<Rightarrow> p\<lparr>p2_key_agreement := p2_key_agreement p @ [JStr kid]\<rparr>
              | _ \<Rightarrow> p))))"

fun peer2_elements :: "ext \<Rightarrow> string \<Rightarrow> string list \<Rightarrow> peer2_parts \<Rightarrow> error + peer2_parts" where
  "peer2_elements X did [] p = Inr p"
| "peer2_elements X did (e # es) p = bind_res (peer2_element X did e p) (peer2_elements X did es)"

definition resolve_peer2 :: "ext \<Rightarrow> string \<Rightarrow> error + did_document" where
  "resolve_peer2 X did =
     bind_res (ok_or (DidNotFound did) (strip_prefix ''did:peer:2.'' did)) (\<lambda>elements.
     bind_res (peer2_elements X did (split (CHR ''.'') elements)
       \<lparr>p2_vms = [], p2_services = [], p2_authentication = [], p2_assertion = [], p2_key_agreement = []\<rparr>) (\<lambda>p.
     doc_from_json X (JObj [(''id'', JStr did), (''verificationMethod'', JArr (p2_vms p)),
       (''authentication'', JArr (p2_authentication p)), (''assertionMethod'', JArr (p2_assertion p)),
       (''keyAgreement'', JArr (p2_key_agreement p)), (''service'', JArr (p2_services p))])))"

definition JSON_CODEC :: u64 where
  "JSON_CODEC = 0x0200"

definition peer4_hash :: "ext \<Rightarrow> string \<Rightarrow> string" where
  "peer4_hash X encoded =
     encode_base58btc X ([char_of (18 :: nat), char_of (32 :: nat)] @ sha256 X encoded)"

definition peer4 :: "ext \<Rightarrow> json \<Rightarrow> error + string" where
  "peer4 X input =
     (if jget ''id'' input \<noteq> None then Inl (Malformed ''did:peer:4 input document must not have an id'')
      else let encoded = encode_base58btc X (encode_varint JSON_CODEC @ json_print X input)
      in Inr (''did:peer:4'' @ peer4_hash X encoded @ '':'' @ encoded))"

definition peer4_short :: "string \<Rightarrow> error + string" where
  "peer4_short long =
     (case rsplit_once (CHR '':'') long of
        Some (short, _) \<Rightarrow> if starts_with short ''did:peer:4z'' then Inr short
          else Inl (Malformed ''not a long-form did:peer:4'')
      | None \<Rightarrow> Inl (Malformed ''not a long-form did:peer:4''))"

definition resolve_peer4 :: "ext \<Rightarrow> string \<Rightarrow> string \<Rightarrow> error + did_document" where
  "resolve_peer4 X long as_did =
     bind_res (peer4_short long) (\<lambda>short.
     bind_res (ok_or (Malformed ''did:peer:4'')
       (Option.bind (strip_prefix ''did:peer:4'' long) (split_once (CHR '':'')))) (\<lambda>(hash, encoded).
     bind_res (ensure (peer4_hash X encoded = hash)
       (Malformed ''did:peer:4 hash does not match its document'')) (\<lambda>_.
     bind_res (decode_base58btc X encoded) (\<lambda>bs.
     bind_res (decode_varint bs) (\<lambda>(codec, js).
     bind_res (ensure (codec = JSON_CODEC) (Malformed ''did:peer:4 document is not JSON'')) (\<lambda>_.
     bind_res (from_str_value X js) (\<lambda>doc.
     bind_res (ensure (is_object doc) (Malformed ''did:peer:4 document is not an object'')) (\<lambda>_.
     let doc = jset ''id'' (JStr as_did) doc;
         other_form = (if as_did = long then short else long);
         also = (case jget ''alsoKnownAs'' doc of None \<Rightarrow> JArr [] | Some v \<Rightarrow> v);
         also = (case also of JArr l \<Rightarrow> JArr (l @ [JStr other_form]) | v \<Rightarrow> v)
     in doc_from_json X (jset ''alsoKnownAs'' also doc)))))))))"

section \<open>did:web\<close>

definition did_from_origin :: "string \<Rightarrow> error + string" where
  "did_from_origin origin =
     bind_res (ok_or (Malformed ''did:web origin must be an http(s) URL'')
       (case strip_prefix ''https://'' origin of
          Some r \<Rightarrow> Some r | None \<Rightarrow> strip_prefix ''http://'' origin)) (\<lambda>rest.
     let host = (case strip_suffix ''/'' rest of Some h \<Rightarrow> h | None \<Rightarrow> rest) in
     bind_res (ensure (host \<noteq> [] \<and> set host \<inter> set ''/?#@'' = {})
       (Malformed ''did:web origin must be scheme://host[:port] only'')) (\<lambda>_.
     Inr (''did:web:'' @ replace '':'' ''%3A'' (to_ascii_lowercase host))))"

definition document_url :: "string \<Rightarrow> error + string" where
  "document_url did =
     bind_res (ok_or (Malformed ''not a did:web'') (strip_prefix ''did:web:'' did)) (\<lambda>i.
     let parts = split (CHR '':'') i; host = hd parts; path = tl parts in
     bind_res (ensure (host \<noteq> []) (Malformed ''did:web without host'')) (\<lambda>_.
     let host = replace ''%3a'' '':'' (replace ''%3A'' '':'' host) in
     bind_res (ensure ([] \<notin> set path) (Malformed ''did:web with an empty path segment'')) (\<lambda>_.
     Inr (if path = [] then ''https://'' @ host @ ''/.well-known/did.json''
          else ''https://'' @ host @ ''/'' @ join ''/'' path @ ''/did.json''))))"

section \<open>Resolvers\<close>

type_synonym 'r resolver = "string \<Rightarrow> ('r, error, did_document) act"

definition static_resolve :: "did_document list \<Rightarrow> 'r resolver" where
  "static_resolve docs did =
     lift_act (ok_or (DidNotFound did) (map_of (rev (map (\<lambda>d. (d_id d, d)) docs)) did))"

record local_resolver =
  lr_poisoned :: bool
  peer4_long_forms :: "(string \<times> string) list"

definition PEER4_CAPACITY :: nat where
  "PEER4_CAPACITY = 10000"

definition remember_peer4 :: "string \<Rightarrow> (local_resolver, error, unit) act" where
  "remember_peer4 long s =
     (case peer4_short long of
        Inl e \<Rightarrow> (Inl e, s)
      | Inr short \<Rightarrow>
          if lr_poisoned s then (Inl (Resolver ''peer4 cache poisoned''), s)
          else (let m = peer4_long_forms s; m = (if PEER4_CAPACITY \<le> length m then [] else m)
            in (Inr (), s\<lparr>peer4_long_forms := AList.update short long m\<rparr>)))"

definition local_resolve :: "ext \<Rightarrow> local_resolver resolver" where
  "local_resolve X did =
     (if starts_with did ''did:key:'' then lift_act (resolve_key X did)
      else if starts_with did ''did:peer:2.'' then lift_act (resolve_peer2 X did)
      else case strip_prefix ''did:peer:4'' did of
        Some rest \<Rightarrow>
          if CHR '':'' \<in> set rest then bind_act (remember_peer4 did) (\<lambda>_. lift_act (resolve_peer4 X did did))
          else (\<lambda>s.
            (if lr_poisoned s then Inl (Resolver ''peer4 cache poisoned'')
             else bind_res (ok_or (DidNotFound did) (map_of (peer4_long_forms s) did)) (\<lambda>long.
               resolve_peer4 X long did), s))
      | None \<Rightarrow> throw_act (DidNotFound did))"

fun chain_resolve :: "'r resolver list \<Rightarrow> 'r resolver" where
  "chain_resolve [] did = throw_act (DidNotFound did)"
| "chain_resolve (r # rs) did = (\<lambda>s.
     case r did s of
       (Inl (DidNotFound _), s') \<Rightarrow> chain_resolve rs did s'
     | other \<Rightarrow> other)"

text \<open>
  \<open>WebResolver\<close>. \<open>get_json\<close> is the transport's; it acts on a network state of any type.
  \<open>instant\<close> is the monotonic clock, in nanoseconds.
\<close>

record 'n web_resolver =
  wr_poisoned :: bool
  wr_cache :: "(string \<times> (did_document \<times> nat)) list"
  wr_instant :: nat
  wr_net :: 'n

definition TTL :: nat where
  "TTL = 300 * 1000000000"

definition CAPACITY :: nat where
  "CAPACITY = 1000"

definition cached :: "'n web_resolver \<Rightarrow> string \<Rightarrow> did_document option" where
  "cached w did =
     (if wr_poisoned w then None
      else case map_of (wr_cache w) did of
        Some (doc, at) \<Rightarrow> if wr_instant w - at < TTL then Some doc else None
      | None \<Rightarrow> None)"

definition web_resolve ::
  "ext \<Rightarrow> (string \<Rightarrow> 'n \<Rightarrow> (string + json) \<times> 'n) \<Rightarrow> 'n web_resolver resolver" where
  "web_resolve X get_json did w =
     (if \<not> starts_with did ''did:web:'' then (Inl (DidNotFound did), w)
      else case cached w did of
        Some doc \<Rightarrow> (Inr doc, w)
      | None \<Rightarrow>
          (case document_url did of
             Inl e \<Rightarrow> (Inl e, w)
           | Inr url \<Rightarrow>
               (case get_json url (wr_net w) of
                  (Inl err, net) \<Rightarrow> (Inl (Resolver (did @ '': '' @ err)), w\<lparr>wr_net := net\<rparr>)
                | (Inr js, net) \<Rightarrow>
                    (let w = w\<lparr>wr_net := net\<rparr> in
                     case doc_from_json X js of
                       Inl e \<Rightarrow> (Inl e, w)
                     | Inr doc \<Rightarrow>
                         if d_id doc \<noteq> did
                         then (Inl (Resolver (url @ '' holds the document of '' @ d_id doc)), w)
                         else if wr_poisoned w then (Inr doc, w)
                         else (let c = wr_cache w; c = (if CAPACITY \<le> length c then [] else c)
                           in (Inr doc, w\<lparr>wr_cache := AList.update did (doc, wr_instant w) c\<rparr>))))))"

text \<open>
  The mediator's own chain (\<open>Mediator::new\<close>): its own document, the local methods, and
  \<open>did:web\<close> when there is a transport.
\<close>

record 'n resolvers =
  rs_local :: local_resolver
  rs_web :: "'n web_resolver"

definition on_local :: "local_resolver resolver \<Rightarrow> 'n resolvers resolver" where
  "on_local r did s = (case r did (rs_local s) of (x, l) \<Rightarrow> (x, s\<lparr>rs_local := l\<rparr>))"

definition on_web :: "'n web_resolver resolver \<Rightarrow> 'n resolvers resolver" where
  "on_web r did s = (case r did (rs_web s) of (x, w) \<Rightarrow> (x, s\<lparr>rs_web := w\<rparr>))"

definition mediator_resolver ::
  "ext \<Rightarrow> did_document \<Rightarrow> (string \<Rightarrow> 'n \<Rightarrow> (string + json) \<times> 'n) option \<Rightarrow> 'n resolvers resolver" where
  "mediator_resolver X own get_json = chain_resolve
     ([static_resolve [own], on_local (local_resolve X)]
      @ (case get_json of Some g \<Rightarrow> [on_web (web_resolve X g)] | None \<Rightarrow> []))"

section \<open>The contract of a resolver\<close>

locale did_resolver =
  fixes resolve :: "'r resolver" and rinv :: "'r \<Rightarrow> bool"
  assumes resolve_inv: "rinv s \<Longrightarrow> rinv (snd (resolve did s))"
    and resolve_id: "rinv s \<Longrightarrow> resolve did s = (Inr doc, s') \<Longrightarrow> d_id doc = did"
begin

lemma keeps_resolve [intro!]: "keeps rinv (resolve did)"
  by (simp add: keeps_def resolve_inv)

text \<open>A key found in a resolved document belongs to the DID that was asked for.\<close>

lemma resolve_key_owner:
  assumes "rinv s" "resolve did s = (Inr doc, s')" "authentication_key doc kid = Inr k"
  shows "d_id doc = did \<and> kid \<in> set (d_authentication doc)
    \<and> (\<exists>m\<in>set (d_verification_method doc). vm_id m = kid \<and> vm_key m = k)"
proof -
  obtain m where "doc_method doc kid = Some m" "vm_key m = k"
    using assms(3) by (auto simp: authentication_key_Inr)
  then have "m \<in> set (d_verification_method doc)" "vm_id m = kid"
    by (auto simp: doc_method_def find_Some_iff)
  then show ?thesis
    using assms \<open>vm_key m = k\<close> by (auto simp: authentication_key_Inr intro: resolve_id)
qed

end

lemma resolve_key_id: "resolve_key X did = Inr doc \<Longrightarrow> d_id doc = did"
  unfolding resolve_key_def Let_def bind_res_Inr sum.inject
  by (elim exE conjE, rename_tac encoded key, case_tac key; simp; hypsubst; simp)

lemma resolve_peer2_id: "resolve_peer2 X did = Inr doc \<Longrightarrow> d_id doc = did"
  by (auto simp: resolve_peer2_def jget_str_def dest!: doc_from_json_id)

lemma resolve_peer4_id: "resolve_peer4 X long did = Inr doc \<Longrightarrow> d_id doc = did"
proof -
  assume "resolve_peer4 X long did = Inr doc"
  then obtain v aka where "is_object v"
    and "doc_from_json X (jset ''alsoKnownAs'' aka (jset ''id'' (JStr did) v)) = Inr doc"
    unfolding resolve_peer4_def Let_def bind_res_Inr ensure_Inr split_beta by blast
  then show ?thesis using doc_from_json_id by (fastforce simp: jget_str_def)
qed

interpretation staticR: did_resolver "static_resolve docs" "\<lambda>_. True" for docs
  by unfold_locales (auto simp: static_resolve_def dest: map_of_SomeD)

definition local_wf :: "local_resolver \<Rightarrow> bool" where
  "local_wf s \<longleftrightarrow> distinct (map fst (peer4_long_forms s)) \<and> length (peer4_long_forms s) \<le> PEER4_CAPACITY
     \<and> (\<forall>(short, long)\<in>set (peer4_long_forms s). peer4_short long = Inr short)"

lemma remember_peer4_wf: "local_wf s \<Longrightarrow> local_wf (snd (remember_peer4 long s))"
  by (auto simp: local_wf_def remember_peer4_def Let_def distinct_update PEER4_CAPACITY_def
      intro: order_trans [OF length_alist_update_le] dest!: set_alist_update split: sum.splits)

lemma local_resolve_wf: "local_wf s \<Longrightarrow> local_wf (snd (local_resolve X did s))"
  using keeps_bind [of local_wf "remember_peer4 did" "\<lambda>_. lift_act (resolve_peer4 X did did)"]
  by (auto simp: local_resolve_def keeps_def remember_peer4_wf split: option.splits)

lemma local_resolve_id: "local_resolve X did s = (Inr doc, s') \<Longrightarrow> d_id doc = did"
  by (auto simp: local_resolve_def bind_act_Inr resolve_key_id resolve_peer2_id resolve_peer4_id
      split: if_splits option.splits)

interpretation localR: did_resolver "local_resolve X" local_wf for X
  by unfold_locales (auto simp: local_resolve_wf local_resolve_id)

definition web_wf :: "'n web_resolver \<Rightarrow> bool" where
  "web_wf w \<longleftrightarrow> distinct (map fst (wr_cache w)) \<and> length (wr_cache w) \<le> CAPACITY
     \<and> (\<forall>(did, doc, at)\<in>set (wr_cache w). d_id doc = did)"

lemma cached_id: "web_wf w \<Longrightarrow> cached w did = Some doc \<Longrightarrow> d_id doc = did"
  by (auto simp: web_wf_def cached_def split: if_splits option.splits dest!: map_of_SomeD)

lemma web_wf_update:
  "web_wf w \<Longrightarrow> d_id doc = did \<Longrightarrow>
     web_wf (w\<lparr>wr_net := net, wr_cache := AList.update did (doc, t)
       (if CAPACITY \<le> length (wr_cache w) then [] else wr_cache w)\<rparr>)"
  by (auto simp: web_wf_def distinct_update CAPACITY_def
      intro: order_trans [OF length_alist_update_le] dest!: set_alist_update)

lemma web_wf_net: "web_wf w \<Longrightarrow> web_wf (w\<lparr>wr_net := net\<rparr>)"
  by (simp add: web_wf_def)

lemma web_resolve_wf: "web_wf w \<Longrightarrow> web_wf (snd (web_resolve X g did w))"
  by (auto simp: web_resolve_def Let_def web_wf_net web_wf_update
      split: option.splits sum.splits prod.splits)

lemma web_resolve_id: "web_wf w \<Longrightarrow> web_resolve X g did w = (Inr doc, w') \<Longrightarrow> d_id doc = did"
  by (auto simp: web_resolve_def Let_def cached_id
      split: option.splits sum.splits prod.splits if_splits)

interpretation webR: did_resolver "web_resolve X g" web_wf for X g
  by unfold_locales (auto simp: web_resolve_wf web_resolve_id)

lemma chain_did_resolver:
  "\<forall>r\<in>set rs. did_resolver r P \<Longrightarrow> did_resolver (chain_resolve rs) P"
proof (induction rs)
  case Nil
  then show ?case by unfold_locales auto
next
  case (Cons r rs)
  then have r: "did_resolver r P" and rs: "did_resolver (chain_resolve rs) P" by auto
  show ?case
  proof
    fix s did
    assume "P s"
    moreover obtain x t where "r did s = (x, t)" by (cases "r did s")
    ultimately show "P (snd (chain_resolve (r # rs) did s))"
      using did_resolver.resolve_inv [OF r, of s did] did_resolver.resolve_inv [OF rs, of t did]
      by (auto split: sum.splits error.splits)
  next
    fix s did doc s'
    assume P: "P s" and "chain_resolve (r # rs) did s = (Inr doc, s')"
    moreover obtain x t where "r did s = (x, t)" by (cases "r did s")
    ultimately show "d_id doc = did"
      using did_resolver.resolve_inv [OF r P, of did] did_resolver.resolve_id [OF r P, of did]
        did_resolver.resolve_id [OF rs, of t did]
      by (auto split: sum.splits error.splits)
  qed
qed

definition resolvers_wf :: "'n resolvers \<Rightarrow> bool" where
  "resolvers_wf s \<longleftrightarrow> local_wf (rs_local s) \<and> web_wf (rs_web s)"

lemma on_local_did_resolver: "did_resolver (on_local (local_resolve X)) resolvers_wf"
  by unfold_locales
    (auto simp: on_local_def resolvers_wf_def split: prod.splits
      dest: local_resolve_id, metis local_resolve_wf snd_conv)

lemma on_web_did_resolver: "did_resolver (on_web (web_resolve X g)) resolvers_wf"
  by unfold_locales
    (auto simp: on_web_def resolvers_wf_def split: prod.splits
      dest: web_resolve_id, metis web_resolve_wf snd_conv)

lemma static_did_resolver: "did_resolver (static_resolve docs) resolvers_wf"
  by unfold_locales (auto simp: static_resolve_def dest: map_of_SomeD)

interpretation mediatorR: did_resolver "mediator_resolver X own g" resolvers_wf for X own g
  unfolding mediator_resolver_def
  by (rule chain_did_resolver)
    (auto simp: static_did_resolver on_local_did_resolver on_web_did_resolver split: option.splits)

end
