(* ===== verification/Pack.thy ===== *)
theory Pack
  imports Resolver
begin

text \<open>
  Packing: \<open>secrets.rs\<close>, \<open>pack.rs\<close>, \<open>from_prior.rs\<close> and \<open>possession.rs\<close> of
  \<open>crates/didcomm/src\<close>. The resolver \<open>R\<close> and the secrets \<open>S\<close> are what the code takes as trait
  objects; the resolver's caches are the \<open>resolver_state\<close> of the node.
\<close>

section \<open>Secrets and resolution\<close>

type_synonym secrets = "string \<Rightarrow> error + secret_key option"

definition in_memory_secrets :: "(string \<rightharpoonup> secret_key) \<Rightarrow> secrets" where
  "in_memory_secrets m kid = Inr (m kid)"

definition resolve_in :: "'r resolver \<Rightarrow> string \<Rightarrow> (('r, 'z) node_scheme, error, did_document) act" where
  "resolve_in R did s = (case R did (resolver_state s) of (x, r) \<Rightarrow> (x, s\<lparr>resolver_state := r\<rparr>))"

text \<open>The loop of \<open>find_signing_key\<close>: the first key held that can sign.\<close>

fun first_signing :: "secrets \<Rightarrow> string list \<Rightarrow> error + (string \<times> secret_key) option" where
  "first_signing S [] = Inr None"
| "first_signing S (kid # kids) =
     bind_res (S kid) (\<lambda>secret.
     case secret of
       Some k \<Rightarrow> if signature_alg (sk_curve k) \<noteq> None then Inr (Some (kid, k)) else first_signing S kids
     | None \<Rightarrow> first_signing S kids)"

definition find_signing_key ::
  "string \<Rightarrow> 'r resolver \<Rightarrow> secrets \<Rightarrow> (('r, 'z) node_scheme, error, string \<times> secret_key) act" where
  "find_signing_key sign_by R S =
     bind_act (resolve_in R (did_of sign_by)) (\<lambda>doc. lift_act (
     bind_res (if CHR ''#'' \<in> set sign_by
         then bind_res (authentication_key doc sign_by) (\<lambda>_. Inr [sign_by])
         else Inr (d_authentication doc)) (\<lambda>candidates.
     bind_res (first_signing S candidates) (\<lambda>found.
     ok_or (SecretNotFound (''signing key for '' @ sign_by)) found))))"

section \<open>from_prior\<close>

record from_prior =
  fp_iss :: string
  fp_sub :: string
  fp_aud :: "string option"
  fp_exp :: "u64 option"
  fp_nbf :: "u64 option"
  fp_iat :: "u64 option"
  fp_jti :: "string option"

definition from_prior_new :: "u64 \<Rightarrow> string \<Rightarrow> string \<Rightarrow> from_prior" where
  "from_prior_new now prior new = \<lparr>fp_iss = prior, fp_sub = new, fp_aud = None, fp_exp = None,
     fp_nbf = None, fp_iat = Some now, fp_jti = None\<rparr>"

definition se_from_prior :: "from_prior \<Rightarrow> json" where
  "se_from_prior c = JObj ([(''iss'', JStr (fp_iss c)), (''sub'', JStr (fp_sub c))]
     @ opt_member ''aud'' JStr (fp_aud c) @ opt_member ''exp'' JU64 (fp_exp c)
     @ opt_member ''nbf'' JU64 (fp_nbf c) @ opt_member ''iat'' JU64 (fp_iat c)
     @ opt_member ''jti'' JStr (fp_jti c))"

definition de_from_prior :: "json \<Rightarrow> from_prior option" where
  "de_from_prior v =
     Option.bind (de_fields [''iss'', ''sub'', ''aud'', ''exp'', ''nbf'', ''iat'', ''jti''] v) (\<lambda>f.
     Option.bind (req_str f ''iss'') (\<lambda>iss.
     Option.bind (req_str f ''sub'') (\<lambda>sb.
     Option.bind (opt_field as_str f ''aud'') (\<lambda>aud.
     Option.bind (opt_field as_u64 f ''exp'') (\<lambda>ex.
     Option.bind (opt_field as_u64 f ''nbf'') (\<lambda>nbf.
     Option.bind (opt_field as_u64 f ''iat'') (\<lambda>iat.
     Option.bind (opt_field as_str f ''jti'') (\<lambda>jti.
     Some \<lparr>fp_iss = iss, fp_sub = sb, fp_aud = aud, fp_exp = ex, fp_nbf = nbf, fp_iat = iat,
           fp_jti = jti\<rparr>))))))))"

definition from_prior_check :: "from_prior \<Rightarrow> error + unit" where
  "from_prior_check c =
     bind_res (ensure (fp_iss c \<noteq> fp_sub c) (Malformed ''from_prior iss and sub are the same DID'')) (\<lambda>_.
     ensure (did_of (fp_iss c) = fp_iss c \<and> did_of (fp_sub c) = fp_sub c)
       (Malformed ''from_prior iss and sub must be DIDs''))"

definition from_prior_pack ::
  "ext \<Rightarrow> from_prior \<Rightarrow> string option \<Rightarrow> 'r resolver \<Rightarrow> secrets \<Rightarrow> (('r, 'z) node_scheme, error, string) act" where
  "from_prior_pack X c issuer_kid R S =
     bind_act (lift_act (from_prior_check c)) (\<lambda>_.
     let signer = (case issuer_kid of Some k \<Rightarrow> k | None \<Rightarrow> fp_iss c) in
     bind_act (lift_act (ensure (did_of signer = fp_iss c)
       (Inconsistent ''from_prior issuer key is not of the prior DID''))) (\<lambda>_.
     bind_act (find_signing_key signer R S) (\<lambda>(kid, key).
     lift_act (sign_compact X (json_print X (se_from_prior c)) kid key))))"

definition from_prior_unpack ::
  "ext \<Rightarrow> string \<Rightarrow> 'r resolver \<Rightarrow> (('r, 'z) node_scheme, error, from_prior \<times> string) act" where
  "from_prior_unpack X token R =
     bind_act (lift_act (compact_parse X token)) (\<lambda>jwt.
     bind_act (lift_act (from_str_as X de_from_prior (cp_payload jwt))) (\<lambda>claims.
     bind_act (lift_act (from_prior_check claims)) (\<lambda>_.
     bind_act (lift_act (ok_or (Malformed ''from_prior without kid'') (jh_kid (cp_header jwt)))) (\<lambda>kid.
     bind_act (lift_act (ensure (did_of kid = fp_iss claims)
       (Inconsistent ''from_prior kid is not of the issuer DID''))) (\<lambda>_.
     bind_act (resolve_in R (fp_iss claims)) (\<lambda>doc.
     bind_act (lift_act (authentication_key doc kid)) (\<lambda>key.
     bind_act (lift_act (compact_verify X jwt key)) (\<lambda>_.
     return_act (claims, kid)))))))))"

section \<open>Possession proofs\<close>

record possession_proof =
  pp_iss :: string
  pp_aud :: string
  pp_sub :: string
  pp_iat :: u64

definition possession_new :: "u64 \<Rightarrow> string \<Rightarrow> string \<Rightarrow> string \<Rightarrow> possession_proof" where
  "possession_new now did aud sb = \<lparr>pp_iss = did, pp_aud = aud, pp_sub = sb, pp_iat = now\<rparr>"

definition se_possession :: "possession_proof \<Rightarrow> json" where
  "se_possession c = JObj [(''iss'', JStr (pp_iss c)), (''aud'', JStr (pp_aud c)),
     (''sub'', JStr (pp_sub c)), (''iat'', JU64 (pp_iat c))]"

definition de_possession :: "json \<Rightarrow> possession_proof option" where
  "de_possession v =
     Option.bind (de_fields [''iss'', ''aud'', ''sub'', ''iat''] v) (\<lambda>f.
     Option.bind (req_str f ''iss'') (\<lambda>iss.
     Option.bind (req_str f ''aud'') (\<lambda>aud.
     Option.bind (req_str f ''sub'') (\<lambda>sb.
     Option.bind (Option.bind (f ''iat'') as_u64) (\<lambda>iat.
     Some \<lparr>pp_iss = iss, pp_aud = aud, pp_sub = sb, pp_iat = iat\<rparr>)))))"

definition possession_check :: "possession_proof \<Rightarrow> error + unit" where
  "possession_check c = ensure (did_of (pp_iss c) = pp_iss c) (Malformed ''the proof's iss must be a DID'')"

definition possession_pack ::
  "ext \<Rightarrow> possession_proof \<Rightarrow> string option \<Rightarrow> 'r resolver \<Rightarrow> secrets
     \<Rightarrow> (('r, 'z) node_scheme, error, string) act" where
  "possession_pack X c kid R S =
     bind_act (lift_act (possession_check c)) (\<lambda>_.
     let signer = (case kid of Some k \<Rightarrow> k | None \<Rightarrow> pp_iss c) in
     bind_act (lift_act (ensure (did_of signer = pp_iss c)
       (Inconsistent ''the proof's key is not of its DID''))) (\<lambda>_.
     bind_act (find_signing_key signer R S) (\<lambda>(kid, key).
     lift_act (sign_compact X (json_print X (se_possession c)) kid key))))"

definition possession_unpack ::
  "ext \<Rightarrow> string \<Rightarrow> 'r resolver \<Rightarrow> (('r, 'z) node_scheme, error, possession_proof) act" where
  "possession_unpack X token R =
     bind_act (lift_act (compact_parse X token)) (\<lambda>jwt.
     bind_act (lift_act (from_str_as X de_possession (cp_payload jwt))) (\<lambda>claims.
     bind_act (lift_act (possession_check claims)) (\<lambda>_.
     bind_act (lift_act (ok_or (Malformed ''possession proof without kid'') (jh_kid (cp_header jwt)))) (\<lambda>kid.
     bind_act (lift_act (ensure (did_of kid = pp_iss claims)
       (Inconsistent ''the proof's kid is not of its DID''))) (\<lambda>_.
     bind_act (resolve_in R (pp_iss claims)) (\<lambda>doc.
     bind_act (lift_act (authentication_key doc kid)) (\<lambda>key.
     bind_act (lift_act (compact_verify X jwt key)) (\<lambda>_.
     return_act claims))))))))"

section \<open>Envelopes\<close>

definition FORWARD :: string where
  "FORWARD = ''https://didcomm.org/routing/2.0/forward''"

record pack_options =
  po_protect_sender :: bool
  po_anoncrypt_enc :: content_encryption
  po_forward :: bool

definition default_options :: pack_options where
  "default_options = \<lparr>po_protect_sender = False, po_anoncrypt_enc = A256CbcHs512, po_forward = True\<rparr>"

record packed_message =
  pm_message :: string
  pm_from_kid :: "string option"
  pm_sign_by_kid :: "string option"
  pm_to_kids :: "string list"
  pm_service_uri :: "string option"
  pm_forwarded :: bool

definition pack_plaintext :: "ext \<Rightarrow> message \<Rightarrow> error + string" where
  "pack_plaintext X m = bind_res (validate m) (\<lambda>_. Inr (to_plaintext_json X m))"

definition pack_signed ::
  "ext \<Rightarrow> message \<Rightarrow> string \<Rightarrow> 'r resolver \<Rightarrow> secrets \<Rightarrow> (('r, 'z) node_scheme, error, string \<times> string) act" where
  "pack_signed X m sign_by R S =
     bind_act (lift_act (validate m)) (\<lambda>_.
     bind_act (lift_act (ensure (m_from m = Some (did_of sign_by))
       (Inconsistent ''the signer must be the message's from''))) (\<lambda>_.
     bind_act (find_signing_key sign_by R S) (\<lambda>(kid, key).
     lift_act (bind_res (jws_sign X (to_plaintext_json X m) kid key) (\<lambda>j.
       Inr (jws_to_json X j, kid))))))"

definition key_agreement_keys :: "did_document \<Rightarrow> string \<Rightarrow> error + (string \<times> public_key) list" where
  "key_agreement_keys doc t =
     bind_res (if CHR ''#'' \<in> set t
         then bind_res (key_agreement_key doc t) (\<lambda>k. Inr [(t, k)])
         else Inr (map (\<lambda>m. (vm_id m, vm_key m))
           (filter (\<lambda>m. is_key_agreement (pk_curve (vm_key m))) (key_agreement_methods doc)))) (\<lambda>keys.
     if keys = [] then Inl (NoCompatibleKeys (t @ '' has no keyAgreement keys'')) else Inr keys)"

fun first_authcrypt ::
  "secrets \<Rightarrow> (string \<times> public_key) list \<Rightarrow> string list
     \<Rightarrow> error + (string \<times> secret_key \<times> (string \<times> public_key) list) option" where
  "first_authcrypt S keys [] = Inr None"
| "first_authcrypt S keys (kid # kids) =
     bind_res (S kid) (\<lambda>secret.
     case secret of
       None \<Rightarrow> first_authcrypt S keys kids
     | Some sk \<Rightarrow>
         (let matching = filter (\<lambda>(_, key). pk_curve key = sk_curve sk) keys
          in if matching \<noteq> [] then Inr (Some (kid, sk, matching)) else first_authcrypt S keys kids))"

definition find_authcrypt_keys ::
  "did_document \<Rightarrow> string \<Rightarrow> (string \<times> public_key) list \<Rightarrow> secrets
     \<Rightarrow> error + (string \<times> secret_key \<times> (string \<times> public_key) list)" where
  "find_authcrypt_keys sender_doc fr keys S =
     bind_res (if CHR ''#'' \<in> set fr
         then bind_res (key_agreement_key sender_doc fr) (\<lambda>_. Inr [fr])
         else Inr (d_key_agreement sender_doc)) (\<lambda>candidates.
     bind_res (first_authcrypt S keys candidates) (\<lambda>found.
     ok_or (NoCompatibleKeys (''no key of '' @ fr @ '' we hold shares a curve with the recipient'')) found))"

text \<open>The recipient keys on the curve of the first one.\<close>

definition same_curve :: "(string \<times> public_key) list \<Rightarrow> (string \<times> public_key) list" where
  "same_curve keys = filter (\<lambda>(_, key). pk_curve key = pk_curve (snd (hd keys))) keys"

definition usable_endpoint :: "did_comm_endpoint \<Rightarrow> bool" where
  "usable_endpoint e \<longleftrightarrow> ep_accept e = [] \<or> ''didcomm/v2'' \<in> set (ep_accept e)"

fun first_endpoint_of :: "ext \<Rightarrow> service_entry list \<Rightarrow> error + did_comm_endpoint option" where
  "first_endpoint_of X [] = Inr None"
| "first_endpoint_of X (s # ss) =
     bind_res (didcomm_endpoints X s) (\<lambda>es.
     case List.find usable_endpoint es of
       Some e \<Rightarrow> Inr (Some e)
     | None \<Rightarrow> first_endpoint_of X ss)"

definition first_didcomm_endpoint :: "ext \<Rightarrow> did_document \<Rightarrow> error + did_comm_endpoint option" where
  "first_didcomm_endpoint X doc = first_endpoint_of X (didcomm_services doc)"

record routed =
  rt_message :: string
  rt_service_uri :: "string option"
  rt_first_hop :: "string option"

text \<open>One \<open>forward\<close> around \<open>packed\<close>, encrypted to \<open>hop\<close>, with \<open>next\<close> as its next party.\<close>

definition wrap_hop ::
  "ext \<Rightarrow> u64 \<Rightarrow> 'r resolver \<Rightarrow> content_encryption \<Rightarrow> string \<Rightarrow> string \<Rightarrow> string
     \<Rightarrow> (('r, 'z) node_scheme, error, string) act" where
  "wrap_hop X now R enc hop nxt packed =
     bind_act (lift_act (from_str_value X packed)) (\<lambda>envelope.
     bind_act (draw_uuid X) (\<lambda>uid.
     let fwd = add_attachment (with_media_type ENCRYPTED_TYP (attachment_json envelope))
           (set_to [did_of hop] (message_new uid now FORWARD (JObj [(''next'', JStr nxt)])))
     in bind_act (resolve_in R (did_of hop)) (\<lambda>doc.
     bind_act (lift_act (key_agreement_keys doc hop)) (\<lambda>keys.
     bind_act (anoncrypt X (to_plaintext_json X fwd) (same_curve keys) enc) (\<lambda>j.
     return_act (jwe_to_json X j))))))"

text \<open>The loop over the routing keys from last to first: \<open>hops\<close> is the reversed list.\<close>

fun wrap_hops ::
  "ext \<Rightarrow> u64 \<Rightarrow> 'r resolver \<Rightarrow> content_encryption \<Rightarrow> string list \<Rightarrow> string \<Rightarrow> string
     \<Rightarrow> (('r, 'z) node_scheme, error, string) act" where
  "wrap_hops X now R enc [] nxt packed = return_act packed"
| "wrap_hops X now R enc (hop # hops) nxt packed =
     bind_act (wrap_hop X now R enc hop nxt packed) (wrap_hops X now R enc hops hop)"

definition route ::
  "ext \<Rightarrow> u64 \<Rightarrow> string \<Rightarrow> string \<Rightarrow> 'r resolver \<Rightarrow> content_encryption
     \<Rightarrow> (('r, 'z) node_scheme, error, routed) act" where
  "route X now packed t R enc =
     (let recipient = did_of t in
     bind_act (resolve_in R recipient) (\<lambda>doc.
     bind_act (lift_act (first_didcomm_endpoint X doc)) (\<lambda>found.
     case found of
       None \<Rightarrow> return_act \<lparr>rt_message = packed, rt_service_uri = None, rt_first_hop = None\<rparr>
     | Some endpoint \<Rightarrow>
         bind_act
           (if starts_with (ep_uri endpoint) ''did:'' then
              bind_act (resolve_in R (ep_uri endpoint)) (\<lambda>mediator.
              lift_act (
                bind_res (first_didcomm_endpoint X mediator) (\<lambda>me.
                bind_res (ok_or (NoCompatibleKeys (''mediator '' @ d_id mediator @ '' has no DIDComm service'')) me) (\<lambda>me.
                if starts_with (ep_uri me) ''did:''
                then Inl (Unsupported ''a mediator whose endpoint is another DID'')
                else Inr (d_id mediator # ep_routing_keys endpoint, ep_uri me)))))
            else return_act (ep_routing_keys endpoint, ep_uri endpoint)) (\<lambda>(routing_keys, uri).
         bind_act (wrap_hops X now R enc (rev routing_keys) recipient packed) (\<lambda>msg.
         return_act \<lparr>rt_message = msg, rt_service_uri = Some uri,
           rt_first_hop = (case routing_keys of [] \<Rightarrow> None | h # _ \<Rightarrow> Some h)\<rparr>)))))"

definition pack_encrypted ::
  "ext \<Rightarrow> u64 \<Rightarrow> message \<Rightarrow> string \<Rightarrow> string option \<Rightarrow> string option \<Rightarrow> 'r resolver \<Rightarrow> secrets
     \<Rightarrow> pack_options \<Rightarrow> (('r, 'z) node_scheme, error, packed_message) act" where
  "pack_encrypted X now m t fr sign_by R S opts =
     bind_act (lift_act (validate m)) (\<lambda>_.
     bind_act (lift_act (ensure (case fr of Some f \<Rightarrow> m_from m = Some (did_of f) | None \<Rightarrow> True)
       (Inconsistent ''the sender must be the message's from''))) (\<lambda>_.
     bind_act (lift_act (ensure (case m_to m of Some ts \<Rightarrow> did_of t \<in> set ts | None \<Rightarrow> True)
       (Inconsistent ''the recipient is not in the message's to''))) (\<lambda>_.
     bind_act (case sign_by of
         Some sb \<Rightarrow>
           bind_act (lift_act (ensure (m_to m \<noteq> None)
             (Malformed ''a signed and encrypted message needs to''))) (\<lambda>_.
           bind_act (pack_signed X m sb R S) (\<lambda>(jws, kid). return_act (jws, Some kid)))
       | None \<Rightarrow> return_act (to_plaintext_json X m, None)) (\<lambda>(payload, sign_by_kid).
     bind_act (resolve_in R (did_of t)) (\<lambda>recipient_doc.
     bind_act (lift_act (key_agreement_keys recipient_doc t)) (\<lambda>recipient_keys.
     bind_act (case fr of
         Some f \<Rightarrow>
           bind_act (resolve_in R (did_of f)) (\<lambda>sender_doc.
           bind_act (lift_act (find_authcrypt_keys sender_doc f recipient_keys S)) (\<lambda>(skid, skey, recipients).
           bind_act (authcrypt X payload (skid, skey) recipients) (\<lambda>j.
           bind_act (if po_protect_sender opts
               then bind_act (anoncrypt X (jwe_to_json X j) recipients (po_anoncrypt_enc opts))
                 (\<lambda>outer. return_act (jwe_to_json X outer))
               else return_act (jwe_to_json X j)) (\<lambda>text.
           return_act (text, Some skid, map fst recipients)))))
       | None \<Rightarrow>
           (let recipients = same_curve recipient_keys in
           bind_act (anoncrypt X payload recipients (po_anoncrypt_enc opts)) (\<lambda>j.
           return_act (jwe_to_json X j, None, map fst recipients)))) (\<lambda>(message, from_kid, to_kids).
     bind_act (if po_forward opts
         then bind_act (route X now message t R (po_anoncrypt_enc opts)) (\<lambda>r.
           return_act (rt_message r, rt_service_uri r, rt_first_hop r \<noteq> None))
         else return_act (message, None, False)) (\<lambda>(message, service_uri, forwarded).
     return_act \<lparr>pm_message = message, pm_from_kid = from_kid, pm_sign_by_kid = sign_by_kid,
       pm_to_kids = to_kids, pm_service_uri = service_uri, pm_forwarded = forwarded\<rparr>))))))))"

end
