(* ===== verification/Unpack.thy ===== *)
theory Unpack
  imports Pack
begin

text \<open>
  Unpacking: \<open>crates/didcomm/src/unpack.rs\<close>. One round of the loop opens one envelope
  (\<open>step_jwe\<close>, \<open>step_jws\<close>) or ends with the plaintext. The layering rules make the loop end:
  \<open>layer_measure\<close> falls with every envelope opened. The properties say what a successful unpack
  guarantees about the sender, the signer and the recipient.
\<close>

record unpack_metadata =
  um_encrypted :: bool
  um_authenticated :: bool
  um_non_repudiation :: bool
  um_anonymous_sender :: bool
  um_encrypted_from_kid :: "string option"
  um_encrypted_to_kids :: "string list"
  um_decrypted_by_kid :: "string option"
  um_enc_alg_anon :: "content_encryption option"
  um_enc_alg_auth :: "content_encryption option"
  um_sign_from :: "string option"
  um_signed_message :: "string option"
  um_from_prior :: "from_prior option"
  um_from_prior_issuer_kid :: "string option"

definition default_metadata :: unpack_metadata where
  "default_metadata = \<lparr>um_encrypted = False, um_authenticated = False, um_non_repudiation = False,
     um_anonymous_sender = False, um_encrypted_from_kid = None, um_encrypted_to_kids = [],
     um_decrypted_by_kid = None, um_enc_alg_anon = None, um_enc_alg_auth = None,
     um_sign_from = None, um_signed_message = None, um_from_prior = None,
     um_from_prior_issuer_kid = None\<rparr>"

datatype layer = Anoncrypt | Authcrypt | Signed

text \<open>The local variables of the loop.\<close>

record unpack_state =
  us_meta :: unpack_metadata
  us_layers :: "layer list"
  us_current :: string
  us_recipient_dids :: "string list"

section \<open>Checks\<close>

definition check_typ :: "string option \<Rightarrow> string \<Rightarrow> error + unit" where
  "check_typ typ expected =
     (case typ of
        Some t \<Rightarrow> if \<not> media_type_is t expected
          then Inl (Malformed (''typ '' @ t @ '', expected '' @ expected)) else Inr ()
      | None \<Rightarrow> Inr ())"

definition utf8 :: "bytes \<Rightarrow> error + string" where
  "utf8 bs = ok_or (Malformed ''payload is not UTF-8'') (from_utf8 bs)"

fun first_held :: "secrets \<Rightarrow> string list \<Rightarrow> error + (string \<times> secret_key)" where
  "first_held S [] = Inl (SecretNotFound ''none of the recipient keys'')"
| "first_held S (kid # kids) =
     bind_res (S kid) (\<lambda>secret.
     case secret of Some key \<Rightarrow> Inr (kid, key) | None \<Rightarrow> first_held S kids)"

definition find_decryption_key :: "jwe \<Rightarrow> secrets \<Rightarrow> error + (string \<times> secret_key)" where
  "find_decryption_key j S = first_held S (recipient_kids j)"

definition check_consistency :: "message \<Rightarrow> unpack_metadata \<Rightarrow> string list \<Rightarrow> error + unit" where
  "check_consistency m meta recipient_dids =
     bind_res (ensure (case um_encrypted_from_kid meta of
         Some skid \<Rightarrow> m_from m = Some (did_of skid) | None \<Rightarrow> True)
       (Inconsistent ''from does not match the authcrypt sender'')) (\<lambda>_.
     bind_res (ensure (case um_sign_from meta of
         Some signer \<Rightarrow> m_from m = Some (did_of signer) | None \<Rightarrow> True)
       (Inconsistent ''from does not match the signer'')) (\<lambda>_.
     ensure (case m_to m of
         Some ts \<Rightarrow> (\<forall>did\<in>set recipient_dids. did \<in> set ts) | None \<Rightarrow> True)
       (Inconsistent ''to does not contain the recipient'')))"

section \<open>The loop\<close>

fun layer_of :: "key_wrap \<Rightarrow> layer" where
  "layer_of EcdhEsA256Kw = Anoncrypt"
| "layer_of Ecdh1PuA256Kw = Authcrypt"

definition layer_allowed :: "layer \<Rightarrow> layer list \<Rightarrow> bool" where
  "layer_allowed l layers \<longleftrightarrow>
     (case l of Anoncrypt \<Rightarrow> layers = [] | _ \<Rightarrow> layers = [] \<or> layers = [Anoncrypt])"

definition sender_of ::
  "ext \<Rightarrow> 'r resolver \<Rightarrow> layer \<Rightarrow> jwe_protected_header \<Rightarrow> unpack_metadata
     \<Rightarrow> (('r, 'z) node_scheme, error, public_key option \<times> unpack_metadata) act" where
  "sender_of X R l h meta =
     (case l of
        Authcrypt \<Rightarrow>
          bind_act (lift_act (bind_res (sender_kid X h)
            (ok_or (Malformed ''authcrypt without skid or apu'')))) (\<lambda>skid.
          bind_act (resolve_in R (did_of skid)) (\<lambda>doc.
          bind_act (lift_act (key_agreement_key doc skid)) (\<lambda>key.
          return_act (Some key, meta\<lparr>um_authenticated := True, um_encrypted_from_kid := Some skid,
            um_enc_alg_auth := Some (ph_enc h)\<rparr>))))
      | _ \<Rightarrow> return_act (None, meta\<lparr>um_enc_alg_anon := Some (ph_enc h)\<rparr>))"

definition step_jwe ::
  "ext \<Rightarrow> 'r resolver \<Rightarrow> secrets \<Rightarrow> unpack_state \<Rightarrow> (('r, 'z) node_scheme, error, unpack_state) act" where
  "step_jwe X R S u =
     bind_act (lift_act (jwe_parse X (us_current u))) (\<lambda>j.
     bind_act (lift_act (protected_header X j)) (\<lambda>h.
     bind_act (lift_act (check_typ (ph_typ h) ENCRYPTED_TYP)) (\<lambda>_.
     let l = layer_of (ph_alg h) in
     bind_act (lift_act (ensure (layer_allowed l (us_layers u))
       (Malformed ''unsupported envelope layering''))) (\<lambda>_.
     bind_act (lift_act (find_decryption_key j S)) (\<lambda>(kid, key).
     bind_act (sender_of X R l h (us_meta u)) (\<lambda>(sender, meta).
     bind_act (lift_act (jwe_decrypt X j kid key sender)) (\<lambda>plaintext.
     bind_act (lift_act (utf8 plaintext)) (\<lambda>text.
     return_act \<lparr>
       us_meta = meta\<lparr>um_encrypted := True, um_encrypted_to_kids := recipient_kids j,
         um_decrypted_by_kid := Some kid\<rparr>,
       us_layers = us_layers u @ [l],
       us_current = text,
       us_recipient_dids = us_recipient_dids u @ [did_of kid]\<rparr>))))))))"

definition step_jws ::
  "ext \<Rightarrow> 'r resolver \<Rightarrow> unpack_state \<Rightarrow> (('r, 'z) node_scheme, error, unpack_state) act" where
  "step_jws X R u =
     bind_act (lift_act (ensure (Signed \<notin> set (us_layers u)) (Malformed ''nested signatures''))) (\<lambda>_.
     bind_act (lift_act (jws_parse X (us_current u))) (\<lambda>j.
     bind_act (lift_act (bind_res (jws_protected_header_of X j) (\<lambda>h. check_typ (jh_typ h) SIGNED_TYP))) (\<lambda>_.
     bind_act (lift_act (signer_kid X j)) (\<lambda>kid.
     bind_act (resolve_in R (did_of kid)) (\<lambda>doc.
     bind_act (lift_act (bind_res (authentication_key doc kid) (jws_verify X j))) (\<lambda>payload.
     bind_act (lift_act (utf8 payload)) (\<lambda>text.
     return_act \<lparr>
       us_meta = (us_meta u)\<lparr>um_non_repudiation := True,
         um_signed_message := Some (us_current u), um_sign_from := Some kid\<rparr>,
       us_layers = us_layers u @ [Signed],
       us_current = text,
       us_recipient_dids = us_recipient_dids u\<rparr>)))))))"

text \<open>A round: another envelope was opened (\<open>Inr\<close>), or the plaintext was reached (\<open>Inl\<close>).\<close>

definition unpack_step ::
  "ext \<Rightarrow> 'r resolver \<Rightarrow> secrets \<Rightarrow> unpack_state
     \<Rightarrow> (('r, 'z) node_scheme, error, message + unpack_state) act" where
  "unpack_step X R S u =
     bind_act (lift_act (from_str_value X (us_current u))) (\<lambda>value.
     bind_act (lift_act (ok_or (Malformed ''message is not a JSON object'') (as_object value))) (\<lambda>_.
     if jget ''ciphertext'' value \<noteq> None then bind_act (step_jwe X R S u) (\<lambda>u'. return_act (Inr u'))
     else if jget ''payload'' value \<noteq> None then bind_act (step_jws X R u) (\<lambda>u'. return_act (Inr u'))
     else bind_act (lift_act (from_value_as X de_message value)) (\<lambda>m.
       bind_act (lift_act (validate m)) (\<lambda>_. return_act (Inl m)))))"

definition layer_measure :: "layer list \<Rightarrow> nat" where
  "layer_measure ls = (if Signed \<in> set ls then 0 else if ls = [] then 3 else if ls = [Anoncrypt] then 2 else 1)"

lemma step_jwe_ok:
  assumes "step_jwe X R S u s = (Inr u', s')"
  obtains j h kid key sender meta plaintext where
    "jwe_parse X (us_current u) = Inr j" "protected_header X j = Inr h"
    "check_typ (ph_typ h) ENCRYPTED_TYP = Inr ()"
    "layer_allowed (layer_of (ph_alg h)) (us_layers u)"
    "find_decryption_key j S = Inr (kid, key)"
    "sender_of X R (layer_of (ph_alg h)) h (us_meta u) s = (Inr (sender, meta), s')"
    "jwe_decrypt X j kid key sender = Inr plaintext" "utf8 plaintext = Inr (us_current u')"
    "us_meta u' = meta\<lparr>um_encrypted := True, um_encrypted_to_kids := recipient_kids j,
       um_decrypted_by_kid := Some kid\<rparr>"
    "us_layers u' = us_layers u @ [layer_of (ph_alg h)]"
    "us_recipient_dids u' = us_recipient_dids u @ [did_of kid]"
  using assms by (auto simp: step_jwe_def bind_act_Inr Let_def split: prod.splits)

lemma step_jws_ok:
  assumes "step_jws X R u s = (Inr u', s')"
  obtains j kid doc key payload where
    "Signed \<notin> set (us_layers u)" "jws_parse X (us_current u) = Inr j" "signer_kid X j = Inr kid"
    "resolve_in R (did_of kid) s = (Inr doc, s')" "authentication_key doc kid = Inr key"
    "jws_verify X j key = Inr payload" "utf8 payload = Inr (us_current u')"
    "us_meta u' = (us_meta u)\<lparr>um_non_repudiation := True, um_signed_message := Some (us_current u),
       um_sign_from := Some kid\<rparr>"
    "us_layers u' = us_layers u @ [Signed]" "us_recipient_dids u' = us_recipient_dids u"
  using assms unfolding step_jws_def bind_act_Inr lift_act_apply return_act_apply prod.inject
    sum.inject ensure_Inr bind_res_Inr
  by (elim exE conjE, hypsubst)
    (rule that, assumption, assumption, assumption, assumption, assumption, assumption,
      simp_all only: unpack_state.simps)

lemma step_jwe_layers:
  assumes "step_jwe X R S u s = (Inr u', s')"
  shows "\<exists>l. l \<noteq> Signed \<and> layer_allowed l (us_layers u) \<and> us_layers u' = us_layers u @ [l]"
proof (rule step_jwe_ok [OF assms])
  fix h
  assume "layer_allowed (layer_of (ph_alg h)) (us_layers u)"
    and "us_layers u' = us_layers u @ [layer_of (ph_alg h)]"
  moreover have "layer_of (ph_alg h) \<noteq> Signed" by (cases "ph_alg h") simp_all
  ultimately show ?thesis by blast
qed

lemma step_jws_layers:
  assumes "step_jws X R u s = (Inr u', s')"
  shows "Signed \<notin> set (us_layers u) \<and> us_layers u' = us_layers u @ [Signed]"
  by (rule step_jws_ok [OF assms]) simp

lemma unpack_step_measure:
  assumes "unpack_step X R S u s = (Inr (Inr u'), s')"
  shows "layer_measure (us_layers u') < layer_measure (us_layers u)"
proof -
  from assms consider t where "step_jwe X R S u t = (Inr u', s')" | t where "step_jws X R u t = (Inr u', s')"
    by (auto simp: unpack_step_def bind_act_Inr split: if_splits)
  then show ?thesis
  proof cases
    case 1
    then obtain l where "l \<noteq> Signed" "layer_allowed l (us_layers u)" "us_layers u' = us_layers u @ [l]"
      using step_jwe_layers by blast
    then show ?thesis by (cases l) (auto simp: layer_measure_def layer_allowed_def)
  next
    case 2
    from step_jws_layers [OF 2] show ?thesis by (auto simp: layer_measure_def)
  qed
qed

function unpack_loop ::
  "ext \<Rightarrow> 'r resolver \<Rightarrow> secrets \<Rightarrow> unpack_state
     \<Rightarrow> (('r, 'z) node_scheme, error, message \<times> unpack_state) act" where
  "unpack_loop X R S u s =
     (case unpack_step X R S u s of
        (Inl e, s') \<Rightarrow> (Inl e, s')
      | (Inr (Inl m), s') \<Rightarrow> (Inr (m, u), s')
      | (Inr (Inr u'), s') \<Rightarrow> unpack_loop X R S u' s')"
  by pat_completeness auto

termination unpack_loop
  by (relation "measure (\<lambda>(X, R, S, u, s). layer_measure (us_layers u))")
    (auto dest!: unpack_step_measure [OF sym])

declare unpack_loop.simps [simp del]

definition unpack ::
  "ext \<Rightarrow> string \<Rightarrow> 'r resolver \<Rightarrow> secrets \<Rightarrow> (('r, 'z) node_scheme, error, message \<times> unpack_metadata) act" where
  "unpack X packed R S =
     bind_act (unpack_loop X R S \<lparr>us_meta = default_metadata, us_layers = [], us_current = packed,
       us_recipient_dids = []\<rparr>) (\<lambda>(m, u).
     let meta = us_meta u;
         meta = meta\<lparr>um_anonymous_sender := um_encrypted meta \<and> \<not> um_authenticated meta\<rparr>
     in bind_act (lift_act (check_consistency m meta (us_recipient_dids u))) (\<lambda>_.
     case m_from_prior m of
       None \<Rightarrow> return_act (m, meta)
     | Some token \<Rightarrow>
         bind_act (from_prior_unpack X token R) (\<lambda>(claims, kid).
         bind_act (lift_act (ensure (m_from m = Some (fp_sub claims))
           (Inconsistent ''from_prior sub is not the message's from''))) (\<lambda>_.
         return_act (m, meta\<lparr>um_from_prior := Some claims, um_from_prior_issuer_kid := Some kid\<rparr>)))))"

section \<open>Invariants of the loop\<close>

text \<open>A property kept by every opened envelope holds where the loop ends.\<close>

lemma unpack_loop_rule:
  fixes s :: "('r, 'z) node_scheme"
  assumes "unpack_loop X R S u s = (Inr (m, v), s')" "P u"
    and step: "\<And>u (s :: ('r, 'z) node_scheme) u' s'. P u \<Longrightarrow> unpack_step X R S u s = (Inr (Inr u'), s') \<Longrightarrow> P u'"
  shows "P v \<and> (\<exists>t. unpack_step X R S v t = (Inr (Inl m), s'))"
  using assms(1,2)
proof (induction "layer_measure (us_layers u)" arbitrary: u s rule: less_induct)
  case less
  obtain r t where rt: "unpack_step X R S u s = (r, t)" by (cases "unpack_step X R S u s")
  with less.prems(1) consider "r = Inr (Inl m)" "v = u" "t = s'"
    | u' where "r = Inr (Inr u')" "unpack_loop X R S u' t = (Inr (m, v), s')"
    by (subst (asm) unpack_loop.simps) (auto split: sum.splits)
  then show ?case
  proof cases
    case 1
    with rt less.prems(2) show ?thesis by auto
  next
    case 2
    with rt have "unpack_step X R S u s = (Inr (Inr u'), t)" by simp
    with less 2 show ?thesis using step unpack_step_measure by blast
  qed
qed

lemma unpack_step_cases:
  assumes "unpack_step X R S u s = (Inr (Inr u'), s')"
  obtains t where "step_jwe X R S u t = (Inr u', s')" | t where "step_jws X R u t = (Inr u', s')"
  using assms by (auto simp: unpack_step_def bind_act_Inr split: if_splits)

definition accepted_layerings :: "layer list list" where
  "accepted_layerings = [[], [Signed], [Anoncrypt], [Authcrypt], [Anoncrypt, Authcrypt],
     [Anoncrypt, Signed], [Authcrypt, Signed], [Anoncrypt, Authcrypt, Signed]]"

definition layers_inv :: "unpack_state \<Rightarrow> bool" where
  "layers_inv u \<longleftrightarrow> us_layers u \<in> set accepted_layerings
     \<and> (um_encrypted (us_meta u) \<longleftrightarrow> Anoncrypt \<in> set (us_layers u) \<or> Authcrypt \<in> set (us_layers u))
     \<and> (um_authenticated (us_meta u) \<longleftrightarrow> Authcrypt \<in> set (us_layers u))
     \<and> (um_non_repudiation (us_meta u) \<longleftrightarrow> Signed \<in> set (us_layers u))"

lemma sender_of_ok:
  assumes "sender_of X R l h meta s = (Inr (sender, meta'), s')"
  obtains (anon) "l \<noteq> Authcrypt" "sender = None" "meta' = meta\<lparr>um_enc_alg_anon := Some (ph_enc h)\<rparr>"
  | (auth) skid doc key where "l = Authcrypt" "sender_kid X h = Inr (Some skid)" "resolve_in R (did_of skid) s = (Inr doc, s')"
      "key_agreement_key doc skid = Inr key" "sender = Some key"
      "meta' = meta\<lparr>um_authenticated := True, um_encrypted_from_kid := Some skid,
         um_enc_alg_auth := Some (ph_enc h)\<rparr>"
  using assms by (cases l) (auto simp: sender_of_def bind_act_Inr)

lemma layers_inv_jwe: "step_jwe X R S u s = (Inr u', s') \<Longrightarrow> layers_inv u \<Longrightarrow> layers_inv u'"
proof (erule step_jwe_ok, erule sender_of_ok)
  fix h sender meta j kid
  assume "layers_inv u" "layer_allowed (layer_of (ph_alg h)) (us_layers u)"
    "layer_of (ph_alg h) \<noteq> Authcrypt" "meta = us_meta u\<lparr>um_enc_alg_anon := Some (ph_enc h)\<rparr>"
    "us_meta u' = meta\<lparr>um_encrypted := True, um_encrypted_to_kids := recipient_kids j,
       um_decrypted_by_kid := Some kid\<rparr>"
    "us_layers u' = us_layers u @ [layer_of (ph_alg h)]"
  then show "layers_inv u'"
    by (cases "ph_alg h") (auto simp: layers_inv_def layer_allowed_def accepted_layerings_def)
next
  fix h sender meta j kid skid
  assume "layers_inv u" "layer_allowed (layer_of (ph_alg h)) (us_layers u)"
    "layer_of (ph_alg h) = Authcrypt"
    "meta = us_meta u\<lparr>um_authenticated := True, um_encrypted_from_kid := Some skid,
       um_enc_alg_auth := Some (ph_enc h)\<rparr>"
    "us_meta u' = meta\<lparr>um_encrypted := True, um_encrypted_to_kids := recipient_kids j,
       um_decrypted_by_kid := Some kid\<rparr>"
    "us_layers u' = us_layers u @ [layer_of (ph_alg h)]"
  then show "layers_inv u'"
    by (auto simp: layers_inv_def layer_allowed_def accepted_layerings_def)
qed

lemma layers_inv_jws: "step_jws X R u s = (Inr u', s') \<Longrightarrow> layers_inv u \<Longrightarrow> layers_inv u'"
proof (erule step_jws_ok)
  fix kid
  assume "layers_inv u" "Signed \<notin> set (us_layers u)" "us_layers u' = us_layers u @ [Signed]"
    "us_meta u' = us_meta u\<lparr>um_non_repudiation := True, um_signed_message := Some (us_current u),
       um_sign_from := Some kid\<rparr>"
  then show "layers_inv u'"
    by (auto simp: layers_inv_def accepted_layerings_def)
qed

text \<open>
  What was opened, from the outside in. An envelope is opened with a key that is held here and is one of
  its recipients' keys: an \<open>ECDH-ES\<close> envelope with that key alone, an \<open>ECDH-1PU\<close> envelope with
  that key and the key agreement key that the sender's resolved document has under the sender key id of the
  header. A signed message is opened by verifying it under an authentication key of its signer.
\<close>

datatype envelope = AnonEnv jwe string | AuthEnv jwe string string | SignedEnv jws string

definition opens_anon :: "ext \<Rightarrow> secrets \<Rightarrow> jwe \<Rightarrow> string \<Rightarrow> string \<Rightarrow> bool" where
  "opens_anon X S j kid t \<longleftrightarrow>
     (\<exists>h sk. protected_header X j = Inr h \<and> ph_alg h = EcdhEsA256Kw
        \<and> kid \<in> set (recipient_kids j) \<and> S kid = Inr (Some sk) \<and> jwe_decrypt X j kid sk None = Inr t)"

definition opens_auth :: "ext \<Rightarrow> 'r resolver \<Rightarrow> secrets \<Rightarrow> jwe \<Rightarrow> string \<Rightarrow> string \<Rightarrow> string \<Rightarrow> bool" where
  "opens_auth X R S j skid kid t \<longleftrightarrow>
     (\<exists>h doc key r r' sk. protected_header X j = Inr h \<and> ph_alg h = Ecdh1PuA256Kw
        \<and> sender_kid X h = Inr (Some skid) \<and> R (did_of skid) r = (Inr doc, r') \<and> key_agreement_key doc skid = Inr key
        \<and> kid \<in> set (recipient_kids j) \<and> S kid = Inr (Some sk) \<and> jwe_decrypt X j kid sk (Some key) = Inr t)"

definition opens_signed :: "ext \<Rightarrow> 'r resolver \<Rightarrow> jws \<Rightarrow> string \<Rightarrow> string \<Rightarrow> bool" where
  "opens_signed X R j kid t \<longleftrightarrow>
     (\<exists>doc key r r'. signer_kid X j = Inr kid \<and> R (did_of kid) r = (Inr doc, r')
        \<and> authentication_key doc kid = Inr key \<and> jws_verify X j key = Inr t)"

inductive opened :: "ext \<Rightarrow> 'r resolver \<Rightarrow> secrets \<Rightarrow> string \<Rightarrow> envelope list \<Rightarrow> string \<Rightarrow> bool"
  for X :: ext and R :: "'r resolver" and S :: secrets and packed :: string where
  opened_none: "opened X R S packed [] packed"
| opened_anon: "opened X R S packed es t \<Longrightarrow> jwe_parse X t = Inr j \<Longrightarrow> opens_anon X S j kid t'
    \<Longrightarrow> opened X R S packed (es @ [AnonEnv j kid]) t'"
| opened_auth: "opened X R S packed es t \<Longrightarrow> jwe_parse X t = Inr j \<Longrightarrow> opens_auth X R S j skid kid t'
    \<Longrightarrow> opened X R S packed (es @ [AuthEnv j skid kid]) t'"
| opened_signed: "opened X R S packed es t \<Longrightarrow> jws_parse X t = Inr j \<Longrightarrow> opens_signed X R j kid t'
    \<Longrightarrow> opened X R S packed (es @ [SignedEnv j kid]) t'"

fun layer_kind :: "envelope \<Rightarrow> layer" where
  "layer_kind (AnonEnv j kid) = Anoncrypt"
| "layer_kind (AuthEnv j skid kid) = Authcrypt"
| "layer_kind (SignedEnv j kid) = Signed"

text \<open>The encrypted envelopes, each with the key that opened it, and the senders' keys.\<close>

fun decryption :: "envelope \<Rightarrow> (jwe \<times> string) option" where
  "decryption (AnonEnv j kid) = Some (j, kid)"
| "decryption (AuthEnv j skid kid) = Some (j, kid)"
| "decryption (SignedEnv j kid) = None"

fun sender_key :: "envelope \<Rightarrow> string option" where
  "sender_key (AuthEnv j skid kid) = Some skid"
| "sender_key _ = None"

definition decryptions :: "envelope list \<Rightarrow> (jwe \<times> string) list" where
  "decryptions es = List.map_filter decryption es"

definition sender_keys :: "envelope list \<Rightarrow> string list" where
  "sender_keys es = List.map_filter sender_key es"

lemma opened_snoc_simps [simp]:
  "decryptions [] = []" "decryptions (es @ [AnonEnv j kid]) = decryptions es @ [(j, kid)]"
  "decryptions (es @ [AuthEnv j skid kid]) = decryptions es @ [(j, kid)]"
  "decryptions (es @ [SignedEnv g kid]) = decryptions es"
  "sender_keys [] = []" "sender_keys (es @ [AnonEnv j kid]) = sender_keys es"
  "sender_keys (es @ [AuthEnv j skid kid]) = sender_keys es @ [skid]"
  "sender_keys (es @ [SignedEnv g kid]) = sender_keys es"
  by (simp_all add: decryptions_def sender_keys_def List.map_filter_def)

lemma sender_keys_auth: "skid \<in> set (sender_keys es) \<Longrightarrow> \<exists>j kid. AuthEnv j skid kid \<in> set es"
proof -
  have "sender_key e = Some skid \<Longrightarrow> \<exists>j kid. e = AuthEnv j skid kid" for e by (cases e) simp_all
  then show "skid \<in> set (sender_keys es) \<Longrightarrow> ?thesis" by (force simp: sender_keys_def List.map_filter_def)
qed

lemma opened_authD: "opened X R S packed es t \<Longrightarrow> AuthEnv j skid kid \<in> set es \<Longrightarrow> \<exists>t'. opens_auth X R S j skid kid t'"
  by (induction rule: opened.induct) auto

text \<open>An encrypted envelope opened with that key, and with nothing else but the sender's.\<close>

definition decrypts :: "ext \<Rightarrow> jwe \<Rightarrow> string \<Rightarrow> secrets \<Rightarrow> bool" where
  "decrypts X j kid S \<longleftrightarrow> kid \<in> set (recipient_kids j)
     \<and> (\<exists>sk sender t. S kid = Inr (Some sk) \<and> jwe_decrypt X j kid sk sender = Inr t)"

lemma opened_decrypts: "opened X R S packed es t \<Longrightarrow> (j, kid) \<in> set (decryptions es) \<Longrightarrow> decrypts X j kid S"
  by (induction rule: opened.induct) (auto simp: decrypts_def opens_anon_def opens_auth_def)

text \<open>What the metadata says of the envelopes that were opened.\<close>

definition trail_inv :: "ext \<Rightarrow> 'r resolver \<Rightarrow> secrets \<Rightarrow> string \<Rightarrow> unpack_state \<Rightarrow> bool" where
  "trail_inv X R S packed u \<longleftrightarrow>
     (\<exists>es. opened X R S packed es (us_current u) \<and> us_layers u = map layer_kind es
        \<and> us_recipient_dids u = map (did_of \<circ> snd) (decryptions es)
        \<and> (um_encrypted (us_meta u) \<longleftrightarrow> decryptions es \<noteq> [])
        \<and> (um_authenticated (us_meta u) \<longleftrightarrow> sender_keys es \<noteq> [])
        \<and> um_encrypted_from_kid (us_meta u) = (if sender_keys es = [] then None else Some (last (sender_keys es)))
        \<and> (\<forall>js j kid. decryptions es = js @ [(j, kid)] \<longrightarrow>
             um_decrypted_by_kid (us_meta u) = Some kid \<and> um_encrypted_to_kids (us_meta u) = recipient_kids j))"

definition signer_inv :: "ext \<Rightarrow> 'r resolver \<Rightarrow> unpack_state \<Rightarrow> bool" where
  "signer_inv X R u \<longleftrightarrow>
     (um_non_repudiation (us_meta u) \<longleftrightarrow> um_sign_from (us_meta u) \<noteq> None)
     \<and> (\<forall>kid. um_sign_from (us_meta u) = Some kid \<longrightarrow>
          (\<exists>doc key r r' t j. R (did_of kid) r = (Inr doc, r') \<and> authentication_key doc kid = Inr key
            \<and> um_signed_message (us_meta u) = Some t \<and> jws_parse X t = Inr j
            \<and> signer_kid X j = Inr kid \<and> jws_verify X j key = Inr (us_current u)))"

lemma resolve_in_ok: "resolve_in R did s = (Inr doc, s') \<Longrightarrow> \<exists>r r'. R did r = (Inr doc, r')"
  by (auto simp: resolve_in_def split: prod.splits)

lemma utf8_ok: "utf8 bs = Inr t \<Longrightarrow> t = bs"
  by (auto simp: utf8_def dest: from_utf8_Some)

lemma first_held_ok: "first_held S kids = Inr (kid, key) \<Longrightarrow> kid \<in> set kids \<and> S kid = Inr (Some key)"
  by (induction kids) (auto split: option.splits)

lemma trail_inv_jwe:
  assumes "step_jwe X R S u s = (Inr u', s')" "trail_inv X R S packed u"
  shows "trail_inv X R S packed u'"
  using assms(1)
proof (rule step_jwe_ok)
  fix j h kid key sender meta plaintext
  assume j: "jwe_parse X (us_current u) = Inr j" "protected_header X j = Inr h"
    and k: "find_decryption_key j S = Inr (kid, key)"
    and so: "sender_of X R (layer_of (ph_alg h)) h (us_meta u) s = (Inr (sender, meta), s')"
    and d: "jwe_decrypt X j kid key sender = Inr plaintext" "utf8 plaintext = Inr (us_current u')"
    and u': "us_meta u' = meta\<lparr>um_encrypted := True, um_encrypted_to_kids := recipient_kids j,
       um_decrypted_by_kid := Some kid\<rparr>" "us_layers u' = us_layers u @ [layer_of (ph_alg h)]"
      "us_recipient_dids u' = us_recipient_dids u @ [did_of kid]"
  obtain es where es: "opened X R S packed es (us_current u)" "us_layers u = map layer_kind es"
    "us_recipient_dids u = map (did_of \<circ> snd) (decryptions es)"
    "um_authenticated (us_meta u) \<longleftrightarrow> sender_keys es \<noteq> []"
    "um_encrypted_from_kid (us_meta u) = (if sender_keys es = [] then None else Some (last (sender_keys es)))"
    using assms(2) by (auto simp: trail_inv_def)
  have key: "kid \<in> set (recipient_kids j)" "S kid = Inr (Some key)"
    using k by (auto simp: find_decryption_key_def dest: first_held_ok)
  have t: "jwe_decrypt X j kid key sender = Inr (us_current u')" using d(1) utf8_ok [OF d(2)] by simp
  from so show ?thesis
  proof (cases rule: sender_of_ok)
    case anon
    then have "ph_alg h = EcdhEsA256Kw" by (cases "ph_alg h") simp_all
    then have "opens_anon X S j kid (us_current u')" using j key t anon(2) by (auto simp: opens_anon_def)
    from opened_anon [OF es(1) j(1) this] show ?thesis
      unfolding trail_inv_def using es u' anon \<open>ph_alg h = _\<close> by (intro exI [of _ "es @ [AnonEnv j kid]"]) simp
  next
    case (auth skid doc pk)
    then have alg: "ph_alg h = Ecdh1PuA256Kw" by (cases "ph_alg h") simp_all
    obtain r r' where "R (did_of skid) r = (Inr doc, r')" using auth(3) resolve_in_ok by blast
    then have "opens_auth X R S j skid kid (us_current u')" using j key t auth alg by (auto simp: opens_auth_def)
    from opened_auth [OF es(1) j(1) this] show ?thesis
      unfolding trail_inv_def using es u' auth alg by (intro exI [of _ "es @ [AuthEnv j skid kid]"]) simp
  qed
qed

lemma trail_inv_jws:
  assumes "step_jws X R u s = (Inr u', s')" "trail_inv X R S packed u"
  shows "trail_inv X R S packed u'"
  using assms(1)
proof (rule step_jws_ok)
  fix j kid doc key payload
  assume j: "jws_parse X (us_current u) = Inr j" "signer_kid X j = Inr kid" "resolve_in R (did_of kid) s = (Inr doc, s')"
      "authentication_key doc kid = Inr key" "jws_verify X j key = Inr payload" "utf8 payload = Inr (us_current u')"
    and u': "us_layers u' = us_layers u @ [Signed]" "us_recipient_dids u' = us_recipient_dids u"
      "us_meta u' = us_meta u\<lparr>um_non_repudiation := True, um_signed_message := Some (us_current u), um_sign_from := Some kid\<rparr>"
  obtain r r' where "R (did_of kid) r = (Inr doc, r')" using j(3) resolve_in_ok by blast
  then have "opens_signed X R j kid (us_current u')" using j utf8_ok [OF j(6)] by (auto simp: opens_signed_def)
  moreover obtain es where "opened X R S packed es (us_current u)" "us_layers u = map layer_kind es"
    "us_recipient_dids u = map (did_of \<circ> snd) (decryptions es)"
    "um_encrypted (us_meta u) \<longleftrightarrow> decryptions es \<noteq> []" "um_authenticated (us_meta u) \<longleftrightarrow> sender_keys es \<noteq> []"
    "um_encrypted_from_kid (us_meta u) = (if sender_keys es = [] then None else Some (last (sender_keys es)))"
    "\<forall>js j kid. decryptions es = js @ [(j, kid)] \<longrightarrow>
       um_decrypted_by_kid (us_meta u) = Some kid \<and> um_encrypted_to_kids (us_meta u) = recipient_kids j"
    using assms(2) unfolding trail_inv_def by blast
  ultimately show ?thesis
    unfolding trail_inv_def using opened_signed [OF _ j(1)] u' by (intro exI [of _ "es @ [SignedEnv j kid]"]) simp
qed

lemma trail_inv_init:
  "trail_inv X R S packed \<lparr>us_meta = default_metadata, us_layers = [], us_current = packed, us_recipient_dids = []\<rparr>"
  unfolding trail_inv_def by (intro exI [of _ "[]"]) (simp add: opened_none default_metadata_def)

text \<open>A signed message is the innermost envelope: nothing is opened after it.\<close>

lemma signer_inv_jwe:
  assumes "step_jwe X R S u s = (Inr u', s')" "layers_inv u" "signer_inv X R u"
  shows "signer_inv X R u'"
proof -
  obtain l where "layer_allowed l (us_layers u)" "l \<noteq> Signed" using step_jwe_layers [OF assms(1)] by blast
  then have "Signed \<notin> set (us_layers u)" by (cases l) (auto simp: layer_allowed_def)
  with assms(2,3) have "um_sign_from (us_meta u) = None" "\<not> um_non_repudiation (us_meta u)"
    by (auto simp: layers_inv_def signer_inv_def)
  with assms(1) show ?thesis
    by (elim step_jwe_ok sender_of_ok) (simp_all add: signer_inv_def)
qed

lemma signer_inv_jws: "step_jws X R u s = (Inr u', s') \<Longrightarrow> signer_inv X R u'"
proof (erule step_jws_ok)
  fix j kid doc key payload
  assume "resolve_in R (did_of kid) s = (Inr doc, s')" and a: "authentication_key doc kid = Inr key"
    and j: "jws_parse X (us_current u) = Inr j" "signer_kid X j = Inr kid" "jws_verify X j key = Inr payload"
    and p: "utf8 payload = Inr (us_current u')"
    and m: "us_meta u' = us_meta u\<lparr>um_non_repudiation := True, um_signed_message := Some (us_current u),
       um_sign_from := Some kid\<rparr>"
  then obtain r r' where "R (did_of kid) r = (Inr doc, r')" using resolve_in_ok by blast
  with a j utf8_ok [OF p] show "signer_inv X R u'"
    unfolding signer_inv_def m by auto
qed

lemmas loop_invs = layers_inv_jwe layers_inv_jws trail_inv_jwe trail_inv_jws signer_inv_jwe signer_inv_jws

definition loop_inv :: "ext \<Rightarrow> 'r resolver \<Rightarrow> secrets \<Rightarrow> string \<Rightarrow> unpack_state \<Rightarrow> bool" where
  "loop_inv X R S packed u \<longleftrightarrow> layers_inv u \<and> trail_inv X R S packed u \<and> signer_inv X R u"

lemma loop_inv_step: "loop_inv X R S packed u \<Longrightarrow> unpack_step X R S u s = (Inr (Inr u'), s') \<Longrightarrow> loop_inv X R S packed u'"
  by (erule unpack_step_cases) (auto simp: loop_inv_def intro: loop_invs)

lemma loop_inv_init:
  "loop_inv X R S packed \<lparr>us_meta = default_metadata, us_layers = [], us_current = packed, us_recipient_dids = []\<rparr>"
  using trail_inv_init by (simp add: loop_inv_def layers_inv_def signer_inv_def accepted_layerings_def default_metadata_def)

lemma unpack_ok:
  fixes s :: "('r, 'z) node_scheme"
  assumes "unpack X packed R S s = (Inr (m, meta), s')"
  obtains u and t t' :: "('r, 'z) node_scheme" where "loop_inv X R S packed u" "unpack_step X R S u t = (Inr (Inl m), t')"
    "check_consistency m (us_meta u) (us_recipient_dids u) = Inr ()"
    "meta = (us_meta u)\<lparr>um_anonymous_sender := um_encrypted (us_meta u) \<and> \<not> um_authenticated (us_meta u),
       um_from_prior := um_from_prior meta, um_from_prior_issuer_kid := um_from_prior_issuer_kid meta\<rparr>"
proof -
  obtain u t' where loop: "unpack_loop X R S \<lparr>us_meta = default_metadata, us_layers = [],
      us_current = packed, us_recipient_dids = []\<rparr> s = (Inr (m, u), t')"
    and c: "check_consistency m (us_meta u\<lparr>um_anonymous_sender :=
        um_encrypted (us_meta u) \<and> \<not> um_authenticated (us_meta u)\<rparr>) (us_recipient_dids u) = Inr ()"
    and meta: "meta = (us_meta u)\<lparr>um_anonymous_sender := um_encrypted (us_meta u) \<and> \<not> um_authenticated (us_meta u),
       um_from_prior := um_from_prior meta, um_from_prior_issuer_kid := um_from_prior_issuer_kid meta\<rparr>"
    using assms by (auto simp: unpack_def Let_def bind_act_Inr split: option.splits)
  from unpack_loop_rule [OF loop, of "loop_inv X R S packed"]
  have "loop_inv X R S packed u" "\<exists>t. unpack_step X R S u t = (Inr (Inl m), t')"
    using loop_inv_init loop_inv_step by blast+
  moreover have "check_consistency m (us_meta u) (us_recipient_dids u) = Inr ()"
    using c by (simp add: check_consistency_def)
  ultimately show ?thesis using that meta by blast
qed

text \<open>The plaintext a message was read from.\<close>

definition plaintext_of :: "ext \<Rightarrow> string \<Rightarrow> message \<Rightarrow> bool" where
  "plaintext_of X t m \<longleftrightarrow> (\<exists>v. from_str_value X t = Inr v \<and> from_value_as X de_message v = Inr m) \<and> validate m = Inr ()"

lemma unpack_step_plain: "unpack_step X R S u s = (Inr (Inl m), s') \<Longrightarrow> plaintext_of X (us_current u) m"
  by (auto simp: unpack_step_def bind_act_Inr plaintext_of_def split: if_splits)

end
