(* ===== verification/Sample_Ext.thy ===== *)
theory Sample_Ext
  imports Pack
begin

text \<open>
  A concrete instance of the third-party functions, for the witnesses: every law that a theorem
  of the development assumes of \<open>ext\<close> holds of \<open>sample_ext\<close>. The JSON codec is a real one (a
  self-delimiting text that is parsed back); the ciphers are the simplest functions with the
  assumed laws. Nothing in the model refers to this theory.
\<close>

section \<open>A JSON text format\<close>

fun enc_str :: "string \<Rightarrow> string" where
  "enc_str [] = '';''"
| "enc_str (c # cs) = CHR ''.'' # c # enc_str cs"

fun dec_str :: "string \<Rightarrow> (string \<times> string) option" where
  "dec_str [] = None"
| "dec_str [c] = (if c = CHR '';'' then Some ([], []) else None)"
| "dec_str (c # d # cs) =
     (if c = CHR '';'' then Some ([], d # cs)
      else map_option (\<lambda>(s, r). (d # s, r)) (dec_str cs))"

fun sample_print :: "json \<Rightarrow> string" where
  "sample_print JNull = ''n''"
| "sample_print (JBool b) = (if b then ''t'' else ''f'')"
| "sample_print (JNum (PosInt n)) = CHR ''+'' # enc_str (show_u64 n)"
| "sample_print (JNum (NegInt i)) = CHR ''-'' # enc_str (show_nat (nat (- i)))"
| "sample_print (JNum (Float t)) = CHR ''x'' # enc_str t"
| "sample_print (JStr t) = CHR ''s'' # enc_str t"
| "sample_print (JArr vs) = CHR ''['' # concat (map sample_print vs) @ '']''"
| "sample_print (JObj m) =
     CHR ''{'' # concat (map (\<lambda>e. enc_str (fst e) @ sample_print (snd e)) m) @ ''}''"

fun parse_value :: "nat \<Rightarrow> string \<Rightarrow> (json \<times> string) option"
  and parse_values :: "nat \<Rightarrow> string \<Rightarrow> (json list \<times> string) option"
  and parse_members :: "nat \<Rightarrow> string \<Rightarrow> ((string \<times> json) list \<times> string) option" where
  "parse_value 0 s = None"
| "parse_value (Suc n) [] = None"
| "parse_value (Suc n) (c # cs) =
     (if c = CHR ''n'' then Some (JNull, cs)
      else if c = CHR ''t'' then Some (JBool True, cs)
      else if c = CHR ''f'' then Some (JBool False, cs)
      else if c = CHR ''s'' then map_option (\<lambda>(t, r). (JStr t, r)) (dec_str cs)
      else if c = CHR ''+'' then
        Option.bind (dec_str cs) (\<lambda>(t, r). map_option (\<lambda>n. (JU64 n, r)) (parse_u64 t))
      else if c = CHR ''['' then map_option (\<lambda>(vs, r). (JArr vs, r)) (parse_values n cs)
      else if c = CHR ''{'' then map_option (\<lambda>(m, r). (JObj m, r)) (parse_members n cs)
      else None)"
| "parse_values 0 s = None"
| "parse_values (Suc n) [] = None"
| "parse_values (Suc n) (c # cs) =
     (if c = CHR '']'' then Some ([], cs)
      else Option.bind (parse_value n (c # cs)) (\<lambda>(v, r).
        map_option (\<lambda>(vs, r). (v # vs, r)) (parse_values n r)))"
| "parse_members 0 s = None"
| "parse_members (Suc n) [] = None"
| "parse_members (Suc n) (c # cs) =
     (if c = CHR ''}'' then Some ([], cs)
      else Option.bind (dec_str (c # cs)) (\<lambda>(k, r).
        Option.bind (parse_value n r) (\<lambda>(v, r).
        map_option (\<lambda>(m, r). ((k, v) # m, r)) (parse_members n r))))"

definition sample_parse :: "string \<Rightarrow> string + json" where
  "sample_parse s =
     (case parse_value (2 * length s + 2) s of
        Some (v, []) \<Rightarrow> Inr v
      | _ \<Rightarrow> Inl ''expected value'')"

lemma dec_enc_str [simp]: "dec_str (enc_str t @ r) = Some (t, r)"
  by (induction t) (cases r; simp)+

lemma length_sample_print [simp]: "0 < length (sample_print v)"
  by (induction v rule: sample_print.induct) auto

lemma enc_str_hd: "\<exists>c cs. enc_str t @ r = c # cs \<and> c \<noteq> CHR ''}''"
  by (cases t) auto

lemma sample_print_hd: "\<exists>c cs. sample_print v @ r = c # cs \<and> c \<noteq> CHR '']''"
  by (cases v rule: sample_print.cases) auto

lemma parse_values_print:
  assumes "\<And>v n r. v \<in> set vs \<Longrightarrow> 2 * length (sample_print v) \<le> n \<Longrightarrow>
      parse_value n (sample_print v @ r) = Some (v, r)"
    and "2 * length (concat (map sample_print vs)) + 1 \<le> n"
  shows "parse_values n (concat (map sample_print vs) @ CHR '']'' # r) = Some (vs, r)"
  using assms
proof (induction vs arbitrary: n)
  case Nil
  then show ?case by (cases n) auto
next
  case (Cons v vs)
  then obtain k where k: "n = Suc k" by (cases n) auto
  obtain c cs where c: "sample_print v @ concat (map sample_print vs) @ CHR '']'' # r = c # cs"
    "c \<noteq> CHR '']''" using sample_print_hd by blast
  have "parse_value k (sample_print v @ concat (map sample_print vs) @ CHR '']'' # r)
      = Some (v, concat (map sample_print vs) @ CHR '']'' # r)"
    using Cons.prems k by simp
  moreover have "parse_values k (concat (map sample_print vs) @ CHR '']'' # r) = Some (vs, r)"
    using Cons.prems k length_sample_print [of v]
    by (intro Cons.IH) (auto simp del: length_greater_0_conv length_sample_print)
  ultimately show ?case using c k by simp
qed

lemma parse_members_print:
  assumes "\<And>e n r. e \<in> set m \<Longrightarrow> 2 * length (sample_print (snd e)) \<le> n \<Longrightarrow>
      parse_value n (sample_print (snd e) @ r) = Some (snd e, r)"
    and "2 * length (concat (map (\<lambda>e. enc_str (fst e) @ sample_print (snd e)) m)) + 1 \<le> n"
  shows "parse_members n (concat (map (\<lambda>e. enc_str (fst e) @ sample_print (snd e)) m) @ CHR ''}'' # r)
    = Some (m, r)"
  using assms
proof (induction m arbitrary: n)
  case Nil
  then show ?case by (cases n) auto
next
  case (Cons e m)
  then obtain k where k: "n = Suc k" by (cases n) auto
  let ?r = "concat (map (\<lambda>e. enc_str (fst e) @ sample_print (snd e)) m) @ CHR ''}'' # r"
  obtain c cs where c: "enc_str (fst e) @ sample_print (snd e) @ ?r = c # cs" "c \<noteq> CHR ''}''"
    using enc_str_hd by blast
  have "dec_str (c # cs) = Some (fst e, sample_print (snd e) @ ?r)"
    using c(1) by (metis dec_enc_str)
  moreover have "parse_value k (sample_print (snd e) @ ?r) = Some (snd e, ?r)"
    using Cons.prems k by simp
  moreover have "parse_members k ?r = Some (m, r)"
    using Cons.prems k length_sample_print [of "snd e"]
    by (intro Cons.IH) (auto simp del: length_greater_0_conv length_sample_print)
  ultimately show ?case using c k by simp
qed

lemma parse_value_print:
  "json_plain v \<Longrightarrow> 2 * length (sample_print v) \<le> n \<Longrightarrow> parse_value n (sample_print v @ r) = Some (v, r)"
proof (induction v arbitrary: n r rule: json_plain.induct)
  case (3 vs)
  then obtain k where k: "n = Suc k" by (cases n) auto
  have "parse_values k (concat (map sample_print vs) @ CHR '']'' # r) = Some (vs, r)"
    by (rule parse_values_print) (use 3 k in auto)
  then show ?case using k by simp
next
  case (4 m)
  then obtain k where k: "n = Suc k" by (cases n) auto
  have "parse_members k (concat (map (\<lambda>e. enc_str (fst e) @ sample_print (snd e)) m) @ CHR ''}'' # r)
      = Some (m, r)"
    by (rule parse_members_print) (use 4 k in auto)
  then show ?case using k by simp
qed (auto simp: numeral_2_eq_2 dest!: Suc_le_D split: if_splits)

lemma sample_parse_print [simp]: "json_plain v \<Longrightarrow> sample_parse (sample_print v) = Inr v"
  using parse_value_print [of v "2 * length (sample_print v) + 2" "[]"] by (simp add: sample_parse_def)

section \<open>Texts for bytes\<close>

fun nibbles :: "bytes \<Rightarrow> string" where
  "nibbles [] = []"
| "nibbles (c # cs) = char_of (65 + of_char c div 16 :: nat) # char_of (65 + of_char c mod 16 :: nat) # nibbles cs"

fun unnibbles :: "string \<Rightarrow> bytes option" where
  "unnibbles [] = Some []"
| "unnibbles [c] = None"
| "unnibbles (c # d # cs) =
     map_option (\<lambda>r. char_of ((of_char c - 65) * 16 + (of_char d - 65) :: nat) # r) (unnibbles cs)"

lemma of_char_bound: "(of_char c :: nat) < 256"
  by (metis of_char_mod_256 mod_less_divisor zero_less_numeral)

lemma nibble_char: "(n :: nat) < 16 \<Longrightarrow> of_char (char_of (65 + n) :: char) = 65 + n"
  by (simp add: of_char_of)

lemma unnibbles_nibbles [simp]: "unnibbles (nibbles bs) = Some bs"
proof (induction bs)
  case (Cons c cs)
  have "(of_char c :: nat) div 16 < 16" using of_char_bound [of c] by (intro less_mult_imp_div_less) simp
  then show ?case using Cons by (simp add: nibble_char of_char_of)
qed simp

lemma nibbles_plain: "x \<in> set (nibbles bs) \<Longrightarrow> 65 \<le> (of_char x :: nat) \<and> (of_char x :: nat) < 81"
proof (induction bs)
  case (Cons c cs)
  have "(of_char c :: nat) div 16 < 16" using of_char_bound [of c] by (intro less_mult_imp_div_less) simp
  then show ?case using Cons by (auto simp: nibble_char)
qed simp

lemma nibbles_no_dot [simp]: "CHR ''.'' \<notin> set (nibbles bs)"
  by (auto dest: nibbles_plain)

lemma length_nibbles [simp]: "length (nibbles bs) = 2 * length bs"
  by (induction bs) simp_all

section \<open>The instance\<close>

definition byte :: "nat \<Rightarrow> char" where
  "byte n = char_of n"

text \<open>Exactly 32 bytes.\<close>

definition fit :: "bytes \<Rightarrow> bytes" where
  "fit k = take 32 (k @ replicate 32 (CHR ''0''))"

lemma length_fit [simp]: "length (fit k) = 32"
  by (simp add: fit_def)

lemma fit_32 [simp]: "length k = 32 \<Longrightarrow> fit k = k"
  by (simp add: fit_def)

definition sample_ext :: ext where
  "sample_ext = \<lparr>
     json_parse = sample_parse,
     json_print = sample_print,
     serde_text = ''invalid type'',
     b64_enc = nibbles,
     b64_dec = unnibbles,
     b58_enc = nibbles,
     b58_dec = unnibbles,
     sha256 = (\<lambda>_. replicate 32 (CHR ''h'')),
     hmac_sha512 = (\<lambda>_ _. replicate 64 (CHR ''t'')),
     pk_decode = (\<lambda>_. Some),
     pk_point = (\<lambda>_ k. byte 4 # k),
     sk_decode = (\<lambda>_. Some),
     sk_public = (\<lambda>_. fit),
     ed_montgomery = (\<lambda>k. k),
     ecdh = (\<lambda>_ s p. if fit s \<le> p then fit s @ p else p @ fit s),
     contributory = (\<lambda>_ _. True),
     sig_sign = (\<lambda>_ s m. Some (fit s)),
     sig_verify = (\<lambda>_ p m sg. sg = p),
     kw_wrap = (\<lambda>kek cek. if length kek = 32 then Some (kek @ cek) else None),
     kw_unwrap = (\<lambda>kek w. strip_prefix kek w),
     cbc_encrypt = (\<lambda>_ _ p. p),
     cbc_decrypt = (\<lambda>_ _ c. Some c),
     aead_seal = (\<lambda>_ _ _ _ p. Some (p, replicate 16 (CHR ''t''))),
     aead_open = (\<lambda>_ _ _ _ c _. Some c),
     random_bytes = (\<lambda>n len. Some (replicate len (byte n))),
     uuid_v4 = (\<lambda>n. ''uuid-'' @ show_nat n)\<rparr>"

lemma sample_simps [simp]:
  "json_parse sample_ext = sample_parse" "json_print sample_ext = sample_print"
  "b64_enc sample_ext = nibbles" "b64_dec sample_ext = unnibbles"
  "b58_enc sample_ext = nibbles" "b58_dec sample_ext = unnibbles"
  "sha256 sample_ext bs = replicate 32 (CHR ''h'')"
  "hmac_sha512 sample_ext k m = replicate 64 (CHR ''t'')"
  "pk_decode sample_ext c = Some" "sk_decode sample_ext c = Some" "sk_public sample_ext c = fit"
  "ecdh sample_ext c s p = (if fit s \<le> p then fit s @ p else p @ fit s)"
  "contributory sample_ext a b" "sig_sign sample_ext c s m = Some (fit s)"
  "sig_verify sample_ext c p m sg \<longleftrightarrow> sg = p"
  "kw_wrap sample_ext kek cek = (if length kek = 32 then Some (kek @ cek) else None)"
  "kw_unwrap sample_ext = strip_prefix" "cbc_encrypt sample_ext k iv p = p"
  "cbc_decrypt sample_ext k iv p = Some p"
  "random_bytes sample_ext n len = Some (replicate len (byte n))"
  "uuid_v4 sample_ext n = ''uuid-'' @ show_nat n"
  by (simp_all add: sample_ext_def)

lemma sample_text_laws [simp]: "text_laws sample_ext"
  by (simp add: text_laws_def)

lemma sample_key_laws [simp]: "key_laws sample_ext"
  by (auto simp: key_laws_def)

lemma sample_jwk_law [simp]: "jwk_law sample_ext X25519"
  unfolding jwk_law_def
proof (intro allI impI)
  fix k
  assume "sk_curve k = X25519"
  then obtain b where "k = SkX25519 b" by (cases k) auto
  then show "public_from_jwk sample_ext (public_to_jwk sample_ext (public_key_of sample_ext k))
      = Inr (public_key_of sample_ext k)"
    by (simp add: public_to_jwk_def public_from_jwk_def public_from_bytes_def from_jwk_crv_def
        b64_decode_def b64_encode_def)
qed

lemma sample_ciphers_ok [simp]: "ciphers_ok sample_ext"
  by (simp add: ciphers_ok_def) (simp add: sample_ext_def)

section \<open>ASCII texts\<close>

lemma length_enc_str [simp]: "length (enc_str t) = 2 * length t + 1"
  by (induction t) simp_all

definition ascii :: "string \<Rightarrow> bool" where
  "ascii t \<longleftrightarrow> (\<forall>c\<in>set t. (of_char c :: nat) < 128)"

lemma ascii_simps [simp]:
  "ascii []" "ascii (c # t) \<longleftrightarrow> (of_char c :: nat) < 128 \<and> ascii t" "ascii (a @ b) \<longleftrightarrow> ascii a \<and> ascii b"
  "ascii (enc_str t) \<longleftrightarrow> ascii t" "ascii (concat ts) \<longleftrightarrow> (\<forall>t\<in>set ts. ascii t)"
  by (auto simp: ascii_def) (induction t; auto)+

lemma ascii_show [simp]: "ascii (show_u64 n)"
  using show_nat_digits [of "unat n"] by (auto simp: ascii_def show_u64_def list_all_iff is_ascii_digit_def)

lemma utf8_of_ascii: "ascii t \<Longrightarrow> from_utf8 t = Some t"
  by (simp add: ascii_def from_utf8_ascii)

end
