(* ===== verification/Envelope_Properties.thy ===== *)
theory Envelope_Properties
  imports Unpack Sample_Ext
begin

text \<open>
  What the DIDComm library guarantees about its envelopes: what was packed is unpacked, and what
  is unpacked comes from whom the metadata says.
\<close>

section \<open>Signatures\<close>

text \<open>A signature verifies under the public key of its secret key; base64url has no dots.\<close>

definition sig_laws :: "ext \<Rightarrow> bool" where
  "sig_laws X \<longleftrightarrow> (\<forall>c s m g. sig_sign X c s m = Some g \<longrightarrow> sig_verify X c (sk_public X c s) m g)"

definition b64_dotless :: "ext \<Rightarrow> bool" where
  "b64_dotless X \<longleftrightarrow> (\<forall>bs. CHR ''.'' \<notin> set (b64_enc X bs))"

lemma verify_sign: "sig_laws X \<Longrightarrow> secret_sign X k m = Inr g \<Longrightarrow> public_verify X (public_key_of X k) m g = Inr ()"
  by (cases k) (auto simp: secret_sign_def public_verify_def sig_laws_def)

lemma de_jws_header_se [simp]: "de_jws_header (se_jws_header h) = Some h"
  by (cases "jh_typ h"; cases "jh_kid h")
    (simp_all add: de_jws_header_def se_jws_header_def opt_member_def de_fields_def req_str_def opt_field_def)

lemma json_plain_jws_header [simp]: "json_plain (se_jws_header h)"
  by (auto simp: se_jws_header_def opt_member_def split: option.splits)

lemma de_jws_signature_se [simp]: "de_jws_signature (se_jws_signature g) = Some g"
  by (cases "sg_header_kid g")
    (simp_all add: de_jws_signature_def se_jws_signature_def jws_signature_fields_def de_unprotected_def
      opt_member_def de_fields_def req_str_def opt_field_def)

lemma de_jws_se_jws [simp]: "de_jws (se_jws j) = Some j"
  by (simp add: de_jws_def de_jws_general_def se_jws_def de_fields_def req_str_def mapM_opt_map)

lemma json_plain_jws [simp]: "json_plain (se_jws j)"
  by (auto simp: se_jws_def se_jws_signature_def opt_member_def split: option.splits)

lemma jws_sign_ok:
  assumes "jws_sign X payload kid key = Inr j"
  obtains alg g where "signature_alg (sk_curve key) = Some alg"
    "j = \<lparr>jws_payload = b64_encode X payload, jws_signatures = [\<lparr>
       sg_protected = b64_encode X (json_print X (se_jws_header \<lparr>jh_typ = Some SIGNED_TYP, jh_alg = alg, jh_kid = Some kid\<rparr>)),
       sg_signature = b64_encode X g, sg_header_kid = Some kid\<rparr>]\<rparr>"
    "secret_sign X key (sg_protected (hd (jws_signatures j)) @ ''.'' @ jws_payload j) = Inr g"
  using assms by (auto simp: jws_sign_def signature_alg_res_def Let_def)

text \<open>A signed message is read back from its JSON text, names the key it was signed with, and
  verifies to its payload under that key's public half.\<close>

lemma jws_round_trip:
  assumes "text_laws X" "sig_laws X" "jws_sign X payload kid key = Inr j"
  shows "jws_parse X (jws_to_json X j) = Inr j \<and> signer_kid X j = Inr kid
    \<and> (\<exists>h. jws_protected_header_of X j = Inr h \<and> jh_typ h = Some SIGNED_TYP)
    \<and> jws_verify X j (public_key_of X key) = Inr payload"
  using assms(3)
proof (rule jws_sign_ok)
  fix alg g
  assume a: "signature_alg (sk_curve key) = Some alg"
    and j: "j = \<lparr>jws_payload = b64_encode X payload, jws_signatures = [\<lparr>
       sg_protected = b64_encode X (json_print X (se_jws_header \<lparr>jh_typ = Some SIGNED_TYP, jh_alg = alg, jh_kid = Some kid\<rparr>)),
       sg_signature = b64_encode X g, sg_header_kid = Some kid\<rparr>]\<rparr>"
    and g: "secret_sign X key (sg_protected (hd (jws_signatures j)) @ ''.'' @ jws_payload j) = Inr g"
  have v: "public_verify X (public_key_of X key) (sg_protected (hd (jws_signatures j)) @ ''.'' @ jws_payload j) g = Inr ()"
    using verify_sign [OF assms(2) g] .
  have s: "jws_single X j = Inr (hd (jws_signatures j), \<lparr>jh_typ = Some SIGNED_TYP, jh_alg = alg, jh_kid = Some kid\<rparr>)"
    using assms(1) by (simp add: jws_single_def j)
  have "jws_parse X (jws_to_json X j) = Inr j"
    using assms(1) by (simp add: jws_parse_def jws_to_json_def)
  moreover have "signer_kid X j = Inr kid" by (simp add: signer_kid_def s) (simp add: j)
  moreover have "\<exists>h. jws_protected_header_of X j = Inr h \<and> jh_typ h = Some SIGNED_TYP"
    by (simp add: jws_protected_header_of_def s)
  moreover have "jws_verify X j (public_key_of X key) = Inr payload"
    using v assms(1) a by (simp add: jws_verify_def s signature_alg_res_def) (simp add: j)
  ultimately show ?thesis by simp
qed

lemma sample_sig_laws [simp]: "sig_laws sample_ext" "b64_dotless sample_ext"
  by (simp_all add: sig_laws_def b64_dotless_def)

text \<open>Compact tokens.\<close>

lemma compact_round_trip:
  assumes "text_laws X" "sig_laws X" "b64_dotless X" "sign_compact X payload kid key = Inr token"
  obtains c where "compact_parse X token = Inr c" "cp_payload c = payload"
    "jh_kid (cp_header c) = Some kid" "compact_verify X c (public_key_of X key) = Inr ()"
proof -
  obtain alg g where a: "signature_alg (sk_curve key) = Some alg"
    and g: "secret_sign X key (b64_encode X (json_print X (se_jws_header
          \<lparr>jh_typ = Some ''JWT'', jh_alg = alg, jh_kid = Some kid\<rparr>)) @ ''.'' @ b64_encode X payload) = Inr g"
    and t: "token = (b64_encode X (json_print X (se_jws_header
          \<lparr>jh_typ = Some ''JWT'', jh_alg = alg, jh_kid = Some kid\<rparr>)) @ ''.'' @ b64_encode X payload) @ ''.'' @ b64_encode X g"
    (is "token = (?h @ ''.'' @ ?p) @ ''.'' @ ?s")
    using assms(4) by (auto simp: sign_compact_def signature_alg_res_def Let_def)
  have d: "CHR ''.'' \<notin> set ?h" "CHR ''.'' \<notin> set ?s" using assms(3) by (simp_all add: b64_dotless_def b64_encode_def)
  have "rsplit_once (CHR ''.'') token = Some (?h @ ''.'' @ ?p, ?s)"
    using d t by (auto simp: rsplit_once_Some)
  moreover have "split_once (CHR ''.'') (?h @ ''.'' @ ?p) = Some (?h, ?p)"
    using d by (simp add: split_once_Some)
  ultimately have "compact_parse X token = Inr \<lparr>cp_header = \<lparr>jh_typ = Some ''JWT'', jh_alg = alg, jh_kid = Some kid\<rparr>,
      cp_payload = payload, cp_signing_input = ?h @ ''.'' @ ?p, cp_signature = g\<rparr>"
    using assms(1) by (simp add: compact_parse_def)
  then show ?thesis
    using that verify_sign [OF assms(2) g] a by (simp add: compact_verify_def signature_alg_res_def)
qed

lemma find_signing_key_ok:
  assumes "find_signing_key sign_by R S s = (Inr (kid, key), s')"
  obtains doc r where "R (did_of sign_by) (resolver_state s) = (Inr doc, r)" "s' = s\<lparr>resolver_state := r\<rparr>"
    "kid \<in> set (d_authentication doc)" "S kid = Inr (Some key)"
proof -
  have fs: "first_signing S kids = Inr (Some (kid, key)) \<Longrightarrow> kid \<in> set kids \<and> S kid = Inr (Some key)" for kids
    by (induction kids) (auto split: option.splits if_splits)
  obtain doc r where "R (did_of sign_by) (resolver_state s) = (Inr doc, r)" "s' = s\<lparr>resolver_state := r\<rparr>"
    and "\<exists>kids. set kids \<subseteq> set (d_authentication doc) \<and> first_signing S kids = Inr (Some (kid, key))"
    using assms
    by (auto simp: find_signing_key_def bind_act_Inr resolve_in_def authentication_key_Inr
        simp del: first_signing.simps split: prod.splits if_splits)
      (metis empty_set empty_subsetI insert_subset list.simps(15))
  then show ?thesis using that fs by (metis subsetD)
qed

lemma json_plain_possession [simp]: "json_plain (se_possession c)"
  by (simp add: se_possession_def)

lemma de_possession_se [simp]: "de_possession (se_possession c) = Some c"
  by (simp add: de_possession_def se_possession_def de_fields_def req_str_def)

text \<open>
  A resolver that always answers \<open>did\<close> with \<open>doc\<close>, and a holder whose secrets are those of
  its own document's authentication keys.
\<close>

definition answers :: "'r resolver \<Rightarrow> string \<Rightarrow> did_document \<Rightarrow> bool" where
  "answers R did doc \<longleftrightarrow> (\<forall>r. fst (R did r) = Inr doc)"

definition holds_authentication :: "ext \<Rightarrow> secrets \<Rightarrow> did_document \<Rightarrow> bool" where
  "holds_authentication X S doc \<longleftrightarrow> (\<forall>kid key. S kid = Inr (Some key) \<longrightarrow>
     kid \<in> set (d_authentication doc) \<longrightarrow>
     did_of kid = d_id doc \<and> authentication_key doc kid = Inr (public_key_of X key))"

lemma answers_resolve: "answers R did doc \<Longrightarrow> \<exists>r. resolve_in R did s = (Inr doc, s\<lparr>resolver_state := r\<rparr>)"
  by (cases "R did (resolver_state s)") (auto simp: answers_def resolve_in_def dest: spec [of _ "resolver_state s"])

lemma possession_unpacks:
  fixes s :: "('r, 'z) node_scheme" and t :: "('q, 'y) node_scheme"
  assumes "text_laws X" "sig_laws X" "b64_dotless X"
    and "answers R (pp_iss c) doc" "answers R' (pp_iss c) doc" "d_id doc = pp_iss c" "holds_authentication X S doc"
    and pack: "possession_pack X c kid R S s = (Inr token, s')"
  shows "fst (possession_unpack X token R' t) = Inr c"
proof -
  define signer where "signer = (case kid of Some k \<Rightarrow> k | None \<Rightarrow> pp_iss c)"
  obtain kid' key s1 where chk: "possession_check c = Inr ()" and "did_of signer = pp_iss c"
    and f: "find_signing_key signer R S s = (Inr (kid', key), s1)"
    and tok: "sign_compact X (json_print X (se_possession c)) kid' key = Inr token"
    using pack by (auto simp: possession_pack_def bind_act_Inr Let_def signer_def)
  obtain doc' where "fst (R (pp_iss c) (resolver_state s)) = Inr doc'" "S kid' = Inr (Some key)"
    and k: "kid' \<in> set (d_authentication doc')"
    by (rule find_signing_key_ok [OF f]) (metis \<open>did_of signer = pp_iss c\<close> fst_conv)
  then have "doc' = doc" using assms(4) by (simp add: answers_def)
  then have "did_of kid' = pp_iss c" "authentication_key doc kid' = Inr (public_key_of X key)"
    using assms(6,7) k \<open>S kid' = _\<close> \<open>did_of signer = _\<close> unfolding holds_authentication_def by metis+
  moreover obtain cp where "compact_parse X token = Inr cp" "cp_payload cp = json_print X (se_possession c)"
    "jh_kid (cp_header cp) = Some kid'" "compact_verify X cp (public_key_of X key) = Inr ()"
    using compact_round_trip [OF assms(1,2,3) tok] by blast
  moreover obtain r where "resolve_in R' (pp_iss c) t = (Inr doc, t\<lparr>resolver_state := r\<rparr>)"
    using answers_resolve [OF assms(5)] by blast
  ultimately show ?thesis using chk assms(1)
    by (simp add: possession_unpack_def bind_act_def)
qed

text \<open>C12: A possession proof that was issued by the holder of a DID is accepted by anyone who resolves
  the DID to the same document, and says what was put into it.\<close>

theorem possession_round_trip:
  fixes s :: "('r, 'z) node_scheme" and t :: "('q, 'y) node_scheme"
  assumes "text_laws X" "sig_laws X" "b64_dotless X"
    and "answers R (pp_iss c) doc" "answers R' (pp_iss c) doc" "d_id doc = pp_iss c" "holds_authentication X S doc"
    and pack: "possession_pack X c kid R S s = (Inr token, s')"
  shows "fst (possession_unpack X token R' t) = Inr c"
  by (rule possession_unpacks [OF assms])

definition sample_doc :: did_document where
  "sample_doc = default_document\<lparr>d_id := ''did:a'',
     d_verification_method := [\<lparr>vm_id = ''did:a#k'', vm_controller = ''did:a'', vm_key = public_key_of sample_ext (SkEd25519 ''s'')\<rparr>],
     d_authentication := [''did:a#k'']\<rparr>"

definition sample_secrets :: secrets where
  "sample_secrets = in_memory_secrets [''did:a#k'' \<mapsto> SkEd25519 ''s'']"

definition sample_node :: "unit node" where
  "sample_node = \<lparr>resolver_state = (), draws = 0\<rparr>"

theorem possession_round_trip_witness:
  "\<exists>token s'. possession_pack sample_ext (possession_new 7 ''did:a'' ''did:m'' ''did:b'') None
       (static_resolve [sample_doc]) sample_secrets sample_node = (Inr token, s')
     \<and> fst (possession_unpack sample_ext token (static_resolve [sample_doc]) sample_node)
         = Inr (possession_new 7 ''did:a'' ''did:m'' ''did:b'')"
proof -
  have did: "did_of ''did:a'' = ''did:a''" "did_of ''did:a#k'' = ''did:a''" by (simp_all add: did_of_def)
  have an: "answers (static_resolve [sample_doc]) ''did:a'' sample_doc"
    by (simp add: answers_def static_resolve_def sample_doc_def)
  have ho: "holds_authentication sample_ext sample_secrets sample_doc"
    by (auto simp: holds_authentication_def sample_secrets_def sample_doc_def in_memory_secrets_def did
        authentication_key_Inr doc_method_def split: if_splits)
  obtain token s' where p: "possession_pack sample_ext (possession_new 7 ''did:a'' ''did:m'' ''did:b'') None
       (static_resolve [sample_doc]) sample_secrets sample_node = (Inr token, s')"
    by (simp add: possession_pack_def possession_new_def possession_check_def find_signing_key_def did
        bind_act_def resolve_in_def static_resolve_def sample_doc_def sample_secrets_def in_memory_secrets_def
        sign_compact_def signature_alg_res_def secret_sign_def Let_def)
  show ?thesis
    using possession_round_trip [OF _ _ _ _ _ _ ho p, of "static_resolve [sample_doc]" sample_node] an p
    by (simp add: possession_new_def sample_doc_def)
qed

section \<open>What unpacking guarantees\<close>

lemma meta_fields:
  assumes "meta = v\<lparr>um_anonymous_sender := a, um_from_prior := b, um_from_prior_issuer_kid := c\<rparr>"
  shows "um_encrypted meta = um_encrypted v" "um_authenticated meta = um_authenticated v"
    "um_non_repudiation meta = um_non_repudiation v" "um_encrypted_from_kid meta = um_encrypted_from_kid v"
    "um_encrypted_to_kids meta = um_encrypted_to_kids v" "um_decrypted_by_kid meta = um_decrypted_by_kid v"
    "um_sign_from meta = um_sign_from v" "um_signed_message meta = um_signed_message v"
  by (simp_all add: assms)

text \<open>C4: When \<open>unpack\<close> reports a message as authenticated, what it was given was opened envelope by
  envelope down to the plaintext of the message, one of these envelopes is an \<open>ECDH-1PU\<close> envelope that
  names the reported sender key and opened with that key as the sender's resolved document has it
  (\<open>opens_auth\<close>), and the message's \<open>from\<close> is the DID of that key.\<close>

theorem unpack_authenticated_sender:
  fixes s :: "('r, 'z) node_scheme"
  assumes "unpack X packed R S s = (Inr (m, meta), s')" "um_authenticated meta"
  shows "\<exists>es t j skid kid t'. opened X R S packed es t \<and> map layer_kind es \<in> set accepted_layerings \<and> plaintext_of X t m
    \<and> AuthEnv j skid kid \<in> set es \<and> opens_auth X R S j skid kid t'
    \<and> um_encrypted_from_kid meta = Some skid \<and> m_from m = Some (did_of skid)"
  using assms(1)
proof (rule unpack_ok)
  fix u and t t' :: "('r, 'z) node_scheme"
  assume inv: "loop_inv X R S packed u" and st: "unpack_step X R S u t = (Inr (Inl m), t')"
    and c: "check_consistency m (us_meta u) (us_recipient_dids u) = Inr ()"
    and mu: "meta = (us_meta u)\<lparr>um_anonymous_sender := um_encrypted (us_meta u) \<and> \<not> um_authenticated (us_meta u),
       um_from_prior := um_from_prior meta, um_from_prior_issuer_kid := um_from_prior_issuer_kid meta\<rparr>"
  note meta = meta_fields [OF mu]
  have "trail_inv X R S packed u" using inv by (simp add: loop_inv_def)
  then obtain es where tr: "opened X R S packed es (us_current u)" "us_layers u = map layer_kind es"
    "um_authenticated (us_meta u) \<longleftrightarrow> sender_keys es \<noteq> []"
    "um_encrypted_from_kid (us_meta u) = (if sender_keys es = [] then None else Some (last (sender_keys es)))"
    unfolding trail_inv_def by blast
  then have es: "opened X R S packed es (us_current u)" "us_layers u = map layer_kind es" "sender_keys es \<noteq> []"
    "um_encrypted_from_kid (us_meta u) = Some (last (sender_keys es))"
    using assms(2) meta(2) by simp_all
  let ?skid = "last (sender_keys es)"
  obtain j kid where auth: "AuthEnv j ?skid kid \<in> set es" using sender_keys_auth [OF last_in_set [OF es(3)]] by blast
  obtain t1 where "opens_auth X R S j ?skid kid t1" using opened_authD [OF es(1) auth] by blast
  moreover have "m_from m = Some (did_of ?skid)" using c es(4) by (simp add: check_consistency_def)
  moreover have "map layer_kind es \<in> set accepted_layerings" using inv es(2) by (simp add: loop_inv_def layers_inv_def)
  moreover have "plaintext_of X (us_current u) m" using unpack_step_plain [OF st] .
  ultimately show ?thesis using es auth meta(4) by metis
qed

text \<open>C9: When \<open>unpack\<close> reports a message as signed, its \<open>from\<close> is the DID of the signing key, that key
  is an authentication key of the DID's resolved document, and the reported signed message
  verifies under it to the plaintext the message was read from.\<close>

theorem unpack_signed_message:
  fixes s :: "('r, 'z) node_scheme"
  assumes "unpack X packed R S s = (Inr (m, meta), s')" "um_non_repudiation meta"
  shows "\<exists>kid doc key r r' signed j t. um_sign_from meta = Some kid \<and> m_from m = Some (did_of kid)
    \<and> R (did_of kid) r = (Inr doc, r') \<and> authentication_key doc kid = Inr key
    \<and> um_signed_message meta = Some signed \<and> jws_parse X signed = Inr j \<and> signer_kid X j = Inr kid
    \<and> jws_verify X j key = Inr t \<and> plaintext_of X t m"
  using assms(1)
proof (rule unpack_ok)
  fix u and t t' :: "('r, 'z) node_scheme"
  assume inv: "loop_inv X R S packed u" and st: "unpack_step X R S u t = (Inr (Inl m), t')"
    and c: "check_consistency m (us_meta u) (us_recipient_dids u) = Inr ()"
    and mu: "meta = (us_meta u)\<lparr>um_anonymous_sender := um_encrypted (us_meta u) \<and> \<not> um_authenticated (us_meta u),
       um_from_prior := um_from_prior meta, um_from_prior_issuer_kid := um_from_prior_issuer_kid meta\<rparr>"
  note meta = meta_fields [OF mu]
  obtain kid where kid: "um_sign_from (us_meta u) = Some kid"
    using inv assms(2) meta by (auto simp: loop_inv_def signer_inv_def)
  moreover have "m_from m = Some (did_of kid)" using c kid
    by (auto simp: check_consistency_def split: option.splits)
  moreover have "plaintext_of X (us_current u) m" using unpack_step_plain [OF st] .
  ultimately show ?thesis using inv meta unfolding loop_inv_def signer_inv_def by metis
qed

text \<open>C13: When \<open>unpack\<close> reports a message as encrypted, what it was given was opened envelope by envelope
  down to the plaintext of the message, the reported key is the one that opened the innermost encrypted
  envelope, the reported recipients are that envelope's, and if the message names its recipients, the DIDs of
  all keys that opened an envelope are among them. Every one of these keys is held here and is one of its
  envelope's recipients.\<close>

theorem unpack_recipient:
  fixes s :: "('r, 'z) node_scheme"
  assumes "unpack X packed R S s = (Inr (m, meta), s')" "um_encrypted meta"
  shows "\<exists>es t js j kid. opened X R S packed es t \<and> plaintext_of X t m \<and> decryptions es = js @ [(j, kid)]
    \<and> um_decrypted_by_kid meta = Some kid \<and> um_encrypted_to_kids meta = recipient_kids j
    \<and> (\<forall>(j, kid)\<in>set (decryptions es). decrypts X j kid S \<and> (\<forall>ts. m_to m = Some ts \<longrightarrow> did_of kid \<in> set ts))"
  using assms(1)
proof (rule unpack_ok)
  fix u and t t' :: "('r, 'z) node_scheme"
  assume inv: "loop_inv X R S packed u" and st: "unpack_step X R S u t = (Inr (Inl m), t')"
    and c: "check_consistency m (us_meta u) (us_recipient_dids u) = Inr ()"
    and mu: "meta = (us_meta u)\<lparr>um_anonymous_sender := um_encrypted (us_meta u) \<and> \<not> um_authenticated (us_meta u),
       um_from_prior := um_from_prior meta, um_from_prior_issuer_kid := um_from_prior_issuer_kid meta\<rparr>"
  note meta = meta_fields [OF mu]
  have "trail_inv X R S packed u" using inv by (simp add: loop_inv_def)
  then obtain es where es: "opened X R S packed es (us_current u)" "us_recipient_dids u = map (did_of \<circ> snd) (decryptions es)"
    "um_encrypted (us_meta u) \<longleftrightarrow> decryptions es \<noteq> []" and last: "\<And>js j kid. decryptions es = js @ [(j, kid)] \<Longrightarrow>
       um_decrypted_by_kid (us_meta u) = Some kid \<and> um_encrypted_to_kids (us_meta u) = recipient_kids j"
    unfolding trail_inv_def by blast
  have "decryptions es \<noteq> []" using es(3) assms(2) meta(1) by simp
  then obtain js j kid where js: "decryptions es = js @ [(j, kid)]" by (metis rev_exhaust surj_pair)
  have named: "did_of kid \<in> set ts" if "(j, kid) \<in> set (decryptions es)" "m_to m = Some ts" for j kid ts
    using c es(2) that by (force simp: check_consistency_def)
  have "\<forall>(j, kid)\<in>set (decryptions es). decrypts X j kid S \<and> (\<forall>ts. m_to m = Some ts \<longrightarrow> did_of kid \<in> set ts)"
    using opened_decrypts [OF es(1)] named by blast
  moreover have "plaintext_of X (us_current u) m" using unpack_step_plain [OF st] .
  ultimately show ?thesis using es(1) js last [OF js] meta(5,6)
    by (intro exI [of _ es] exI [of _ "us_current u"] exI [of _ js] exI [of _ j] exI [of _ kid]) simp
qed

text \<open>C14: Unpacking opens at most three nested envelopes, whatever it is given: a chain of opened
  envelopes that starts from nothing opened is no longer than three.\<close>

theorem unpack_opens_at_most_three:
  assumes "us_layers (us 0) = []"
    and "\<forall>i<n. \<exists>(s :: ('r, 'z) node_scheme) s'. unpack_step X R S (us i) s = (Inr (Inr (us (Suc i))), s')"
  shows "n \<le> 3"
proof -
  have "k \<le> n \<Longrightarrow> layer_measure (us_layers (us k)) + k \<le> 3" for k
  proof (induction k)
    case 0
    show ?case by (simp add: assms(1) layer_measure_def)
  next
    case (Suc k)
    then obtain s s' :: "('r, 'z) node_scheme" where "unpack_step X R S (us k) s = (Inr (Inr (us (Suc k))), s')"
      using assms(2) [rule_format, of k] by auto
    from unpack_step_measure [OF this] Suc show ?case by simp
  qed
  from this [of n] show ?thesis by simp
qed

end
