(* ===== verification/End_To_End.thy ===== *)
theory End_To_End
  imports Envelope_Properties
begin

text \<open>
  Packing and unpacking together: what \<open>pack_plaintext\<close> and \<open>pack_encrypted\<close> produce, \<open>unpack\<close>
  turns back into the message, with metadata that names the sender and the recipient.
\<close>

section \<open>The plaintext layer\<close>

definition sendable :: "message \<Rightarrow> bool" where
  "sendable m \<longleftrightarrow> message_ok m \<and> m_from_prior m = None
     \<and> ''ciphertext'' \<notin> fst ` set (m_extra_headers m) \<and> ''payload'' \<notin> fst ` set (m_extra_headers m)"

lemma from_str_value_print: "text_laws X \<Longrightarrow> value_ok v \<Longrightarrow> from_str_value X (json_print X v) = Inr v"
  by (simp add: from_str_value_def text_laws_def value_ok_def)

lemma jget_message: "message_ok m \<Longrightarrow> k \<in> {''ciphertext'', ''payload''} \<Longrightarrow>
    jget k (se_message m) = map_of (m_extra_headers m) k"
  by (elim insertE emptyE) (simp_all add: message_members(1) map_of_opt_member del: map_of_append)

lemma plaintext_step:
  assumes "text_laws X" "sendable m" "validate m = Inr ()" "us_current u = json_print X (se_message m)"
  shows "unpack_step X R S u s = (Inr (Inl m), s)"
proof -
  have ok: "message_ok m" using assms(2) by (simp add: sendable_def)
  have v: "from_str_value X (us_current u) = Inr (se_message m)"
    using assms(1,4) message_value_ok [OF ok] by (simp add: from_str_value_print)
  have n: "jget ''ciphertext'' (se_message m) = None" "jget ''payload'' (se_message m) = None"
    using assms(2) jget_message [OF ok] by (simp_all add: sendable_def map_of_eq_None_iff)
  have o: "\<exists>ms. se_message m = JObj ms" using message_members(1) [OF ok] by blast
  show ?thesis using v n o message_round_trip_value [OF ok] assms(3)
    by (auto simp: unpack_step_def bind_act_def from_value_as_def)
qed

lemma sendable_typ [simp]: "sendable (m\<lparr>m_typ := t\<rparr>) = sendable m"
  by (simp add: sendable_def message_ok_def)

lemma validate_typ: "validate m = Inr () \<Longrightarrow> validate (m\<lparr>m_typ := Some PLAINTEXT_TYP\<rparr>) = Inr ()"
  by (auto simp: validate_def media_type_is_def)

lemma consistency_plain:
  "um_encrypted_from_kid meta = None \<Longrightarrow> um_sign_from meta = None \<Longrightarrow> check_consistency m meta [] = Inr ()"
  by (simp add: check_consistency_def split: option.splits)

text \<open>C28: What \<open>pack_plaintext\<close> writes, \<open>unpack\<close> reads back as the same message (with the plaintext
  media type), and reports as neither encrypted, authenticated nor signed.\<close>

theorem plaintext_round_trip:
  fixes s :: "('r, 'z) node_scheme"
  assumes "text_laws X" "sendable m" "pack_plaintext X m = Inr t"
  shows "unpack X t R S s = (Inr (m\<lparr>m_typ := Some PLAINTEXT_TYP\<rparr>, default_metadata), s)"
proof -
  let ?m = "m\<lparr>m_typ := Some PLAINTEXT_TYP\<rparr>"
  let ?u = "\<lparr>us_meta = default_metadata, us_layers = [], us_current = t, us_recipient_dids = []\<rparr>"
  have v: "validate ?m = Inr ()" "t = json_print X (se_message ?m)"
    using assms(3) validate_typ by (auto simp: pack_plaintext_def to_plaintext_json_def)
  have "unpack_step X R S ?u s = (Inr (Inl ?m), s)"
    by (rule plaintext_step) (use assms(1,2) v in simp_all)
  then have "unpack_loop X R S ?u s = (Inr (?m, ?u), s)" by (subst unpack_loop.simps) simp
  moreover have "m_from_prior m = None" using assms(2) by (simp add: sendable_def)
  moreover have "default_metadata\<lparr>um_anonymous_sender := False\<rparr> = default_metadata"
    by (simp add: default_metadata_def)
  ultimately show ?thesis
    by (simp add: unpack_def bind_act_def consistency_plain default_metadata_def)
qed

definition sample_message :: message where
  "sample_message = set_to [''did:a''] (message_new ''1'' 7 ''ping'' (JObj [(''n'', JU64 5)]))"

lemma sample_sendable: "sendable sample_message" "validate sample_message = Inr ()"
  by (simp_all add: sendable_def message_ok_def value_ok_def sample_message_def message_new_def set_to_def
      validate_def check_did_def starts_with_def)

theorem plaintext_round_trip_witness:
  "\<exists>t. pack_plaintext sample_ext sample_message = Inr t
    \<and> fst (unpack sample_ext t (static_resolve []) sample_secrets sample_node)
      = Inr (sample_message\<lparr>m_typ := Some PLAINTEXT_TYP\<rparr>, default_metadata)"
proof -
  obtain t where t: "pack_plaintext sample_ext sample_message = Inr t"
    using sample_sendable(2) by (simp add: pack_plaintext_def)
  from plaintext_round_trip [OF _ sample_sendable(1) this, of "static_resolve []" sample_secrets sample_node] t
  show ?thesis by simp
qed

section \<open>The encrypted layer\<close>

lemma jwe_encrypt_header:
  assumes "text_laws X" "jwe_encrypt X p sender recipients enc s = (Inr j, s')"
  obtains e where "protected_header X j = Inr (jwe_header X e sender recipients enc)"
    "recipient_kids j = map fst recipients"
proof (rule jwe_encrypt_ok [OF assms(2)], erule jwe_seal_ok)
  fix e cek iv ct tag apu apv
  assume rs: "mapM_res (wrap_for X e sender (ph_alg (jwe_header X e sender recipients enc)) apu apv tag cek) recipients
      = Inr (jwe_recipients j)"
    and prot: "jwe_protected j = b64_encode X (json_print X (se_header (jwe_header X e sender recipients enc)))"
  have "protected_header X j = Inr (jwe_header X e sender recipients enc)"
    using assms(1) by (simp add: protected_header_def prot)
  moreover have "recipient_kids j = map fst recipients" using wrap_all_kids [OF rs] by (simp add: recipient_kids_def)
  ultimately show thesis by (rule that)
qed

lemma jwe_value_ok: "value_ok (se_jwe j)"
  by (auto simp: value_ok_def se_jwe_def se_recipient_def)

text \<open>One authcrypt envelope is opened, and the metadata names its sender and recipient.\<close>

lemma authcrypt_step:
  fixes s :: "('r, 'z) node_scheme" and s0 s1 :: "('q, 'y) node_scheme"
  assumes laws: "text_laws X" "key_laws X" "jwk_law X (sk_curve key)" "ciphers_ok X"
    and enc: "jwe_encrypt X p (Some (skid, sk)) recipients A256CbcHs512 s0 = (Inr j, s1)"
    and rec: "distinct (map fst recipients)" "(kid, public_key_of X key) \<in> set recipients"
      "first_held S (map fst recipients) = Inr (kid, key)"
    and snd: "answers R (did_of skid) sdoc" "key_agreement_key sdoc skid = Inr (public_key_of X sk)"
    and utf: "from_utf8 p = Some p" "from_utf8 skid = Some skid"
    and u: "us_layers u = []" "us_current u = jwe_to_json X j"
  obtains r where "unpack_step X R S u s = (Inr (Inr \<lparr>
      us_meta = (us_meta u)\<lparr>um_authenticated := True, um_encrypted_from_kid := Some skid,
        um_enc_alg_auth := Some A256CbcHs512, um_encrypted := True,
        um_encrypted_to_kids := map fst recipients, um_decrypted_by_kid := Some kid\<rparr>,
      us_layers = [Authcrypt], us_current = p,
      us_recipient_dids = us_recipient_dids u @ [did_of kid]\<rparr>), s\<lparr>resolver_state := r\<rparr>)"
proof -
  obtain e where h: "protected_header X j = Inr (jwe_header X e (Some (skid, sk)) recipients A256CbcHs512)"
    and kids: "recipient_kids j = map fst recipients"
    by (rule jwe_encrypt_header [OF laws(1) enc])
  have dec: "jwe_decrypt X j kid key (Some (public_key_of X sk)) = Inr p"
    using jwe_round_trip_aux [OF laws enc _ rec(1,2)] by simp
  have v: "from_str_value X (us_current u) = Inr (se_jwe j)" "jwe_parse X (us_current u) = Inr j"
    using u laws(1) jwe_value_ok by (simp_all add: jwe_to_json_def from_str_value_print jwe_parse_def)
  obtain r where r: "resolve_in R (did_of skid) s = (Inr sdoc, s\<lparr>resolver_state := r\<rparr>)"
    using answers_resolve [OF snd(1)] by blast
  have sk: "sender_kid X (jwe_header X e (Some (skid, sk)) recipients A256CbcHs512) = Inr (Some skid)"
    using laws(1) utf by (simp add: sender_kid_def jwe_header_def)
  have ct: "check_typ (Some ENCRYPTED_TYP) ENCRYPTED_TYP = Inr ()" by (simp add: check_typ_def media_type_is_def)
  have "step_jwe X R S u s = (Inr \<lparr>
      us_meta = (us_meta u)\<lparr>um_authenticated := True, um_encrypted_from_kid := Some skid,
        um_enc_alg_auth := Some A256CbcHs512, um_encrypted := True,
        um_encrypted_to_kids := map fst recipients, um_decrypted_by_kid := Some kid\<rparr>,
      us_layers = [Authcrypt], us_current = p,
      us_recipient_dids = us_recipient_dids u @ [did_of kid]\<rparr>, s\<lparr>resolver_state := r\<rparr>)"
    using v(2) h kids rec(3) r sk ct dec snd(2) utf u
    by (simp add: step_jwe_def sender_of_def find_decryption_key_def layer_allowed_def utf8_def bind_act_def
        Let_def) (simp add: jwe_header_def ct bind_act_def)
  then show thesis
    using that [of r] v(1) by (simp add: unpack_step_def bind_act_def se_jwe_def)
qed

text \<open>What packing to an authcrypt envelope does.\<close>

lemma find_authcrypt_ok:
  assumes "find_authcrypt_keys sdoc f keys S = Inr (skid, sk, recipients)"
  shows "skid \<in> set (d_key_agreement sdoc) \<and> S skid = Inr (Some sk)
    \<and> recipients = filter (\<lambda>(_, key). pk_curve key = sk_curve sk) keys \<and> recipients \<noteq> []"
proof -
  have fa: "first_authcrypt S keys kids = Inr (Some (skid, sk, recipients)) \<Longrightarrow> skid \<in> set kids
      \<and> S skid = Inr (Some sk) \<and> recipients = filter (\<lambda>(_, key). pk_curve key = sk_curve sk) keys \<and> recipients \<noteq> []" for kids
    by (induction kids) (auto simp: Let_def split: option.splits if_splits)
  from assms obtain kids where "set kids \<subseteq> set (d_key_agreement sdoc)"
    "first_authcrypt S keys kids = Inr (Some (skid, sk, recipients))"
    by (auto simp: find_authcrypt_keys_def key_agreement_key_Inr simp del: first_authcrypt.simps split: if_splits)
      (metis empty_set empty_subsetI insert_subset list.simps(15))
  with fa show ?thesis by (metis subsetD)
qed

lemma bind_act_InrE:
  assumes "bind_act m f s = (Inr b, s'')"
  obtains a s' where "m s = (Inr a, s')" "f a s' = (Inr b, s'')"
  using assms by (auto simp: bind_act_Inr)

lemma pack_authcrypt_parts:
  fixes s :: "('r, 'z) node_scheme"
  assumes "pack_encrypted X now m t (Some f) None R S opts s = (Inr pm, s')"
    and "\<not> po_protect_sender opts" "\<not> po_forward opts"
  shows "\<exists>rd keys sd skid sk recipients j (q1 :: ('r, 'z) node_scheme) q2 (q3 :: ('r, 'z) node_scheme) q4.
    validate m = Inr () \<and> m_from m = Some (did_of f)
    \<and> (case m_to m of None \<Rightarrow> True | Some ts \<Rightarrow> did_of t \<in> set ts)
    \<and> resolve_in R (did_of t) q1 = (Inr rd, q2) \<and> key_agreement_keys rd t = Inr keys
    \<and> resolve_in R (did_of f) q3 = (Inr sd, q4) \<and> find_authcrypt_keys sd f keys S = Inr (skid, sk, recipients)
    \<and> authcrypt X (to_plaintext_json X m) (skid, sk) recipients q4 = (Inr j, s')
    \<and> pm_message pm = jwe_to_json X j \<and> pm_from_kid pm = Some skid"
  using assms unfolding pack_encrypted_def
  apply (simp only: option.case simp_thms if_False Let_def)
  apply (elim bind_act_InrE)
  apply (simp only: lift_act_apply return_act_apply prod.inject sum.inject ensure_Inr split_beta option.case fst_conv snd_conv)
  apply (elim conjE bind_act_InrE exE, hypsubst)
  apply (simp add: bind_act_Inr split_beta)
  apply (elim conjE exE, hypsubst)
  apply (simp only: fst_conv snd_conv packed_message.simps option.inject)
  apply (metis prod.collapse)
  done

lemma pack_authcrypt_ok:
  fixes s :: "('r, 'z) node_scheme"
  assumes pk: "pack_encrypted X now m t (Some f) None R S opts s = (Inr pm, s')"
    and opts: "\<not> po_protect_sender opts" "\<not> po_forward opts"
    and docs: "answers R (did_of t) rdoc" "answers R (did_of f) sdoc"
  obtains keys skid sk recipients j and s0 s1 :: "('r, 'z) node_scheme" where
    "validate m = Inr ()" "m_from m = Some (did_of f)" "case m_to m of None \<Rightarrow> True | Some ts \<Rightarrow> did_of t \<in> set ts"
    "key_agreement_keys rdoc t = Inr keys" "find_authcrypt_keys sdoc f keys S = Inr (skid, sk, recipients)"
    "jwe_encrypt X (to_plaintext_json X m) (Some (skid, sk)) recipients A256CbcHs512 s0 = (Inr j, s1)"
    "pm_message pm = jwe_to_json X j" "pm_from_kid pm = Some skid"
proof -
  have res: "resolve_in R did q = (Inr doc, q') \<Longrightarrow> answers R did doc' \<Longrightarrow> doc = doc'"
    for did doc doc' and q q' :: "('r, 'z) node_scheme"
    using answers_resolve by (metis Inr_inject prod.inject)
  obtain rd keys sd skid sk recipients j q4 and q1 q2 q3 :: "('r, 'z) node_scheme" where
    p: "validate m = Inr ()" "m_from m = Some (did_of f)" "case m_to m of None \<Rightarrow> True | Some ts \<Rightarrow> did_of t \<in> set ts"
    and r: "resolve_in R (did_of t) q1 = (Inr rd, q2)" "resolve_in R (did_of f) q3 = (Inr sd, q4)"
    and k: "key_agreement_keys rd t = Inr keys" "find_authcrypt_keys sd f keys S = Inr (skid, sk, recipients)"
    and e: "authcrypt X (to_plaintext_json X m) (skid, sk) recipients q4 = (Inr j, s')"
      "pm_message pm = jwe_to_json X j" "pm_from_kid pm = Some skid"
    using pack_authcrypt_parts [OF pk opts] by blast
  have "rd = rdoc" "sd = sdoc" using res [OF r(1) docs(1)] res [OF r(2) docs(2)] by simp_all
  then show thesis using that [OF p] k e unfolding authcrypt_def by blast
qed

definition holds_key_agreement :: "ext \<Rightarrow> secrets \<Rightarrow> did_document \<Rightarrow> bool" where
  "holds_key_agreement X S doc \<longleftrightarrow> (\<forall>kid key. S kid = Inr (Some key) \<longrightarrow>
     kid \<in> set (d_key_agreement doc) \<longrightarrow>
     did_of kid = d_id doc \<and> key_agreement_key doc kid = Inr (public_key_of X key)
     \<and> jwk_law X (sk_curve key) \<and> from_utf8 kid = Some kid)"

text \<open>The recipient holds the secret of every key the sender may encrypt to.\<close>

definition holds_keys :: "ext \<Rightarrow> secrets \<Rightarrow> string \<Rightarrow> (string \<times> public_key) list \<Rightarrow> bool" where
  "holds_keys X S did keys \<longleftrightarrow> distinct (map fst keys)
     \<and> (\<forall>(kid, pk)\<in>set keys. did_of kid = did \<and> (\<exists>key. S kid = Inr (Some key) \<and> public_key_of X key = pk))"

lemma first_held_all:
  assumes "holds_keys X S did keys" "recipients = filter P keys" "recipients \<noteq> []"
  obtains kid key where "first_held S (map fst recipients) = Inr (kid, key)"
    "(kid, public_key_of X key) \<in> set recipients" "did_of kid = did" "distinct (map fst recipients)"
proof -
  obtain kid pk rest where r: "recipients = (kid, pk) # rest" using assms(3) by (cases recipients) auto
  then have "(kid, pk) \<in> set keys" using assms(2) by (metis filter_is_subset list.set_intros(1) subsetD)
  then obtain key where key: "S kid = Inr (Some key)" "public_key_of X key = pk" "did_of kid = did"
    using assms(1) unfolding holds_keys_def by fast
  have "distinct (map fst recipients)" using assms(1,2) by (simp add: holds_keys_def distinct_map_filter)
  moreover have "first_held S (map fst recipients) = Inr (kid, key)" by (simp add: r key(1))
  moreover have "(kid, public_key_of X key) \<in> set recipients" by (simp add: r key(2))
  ultimately show ?thesis using that key(3) by blast
qed

lemma authcrypt_unpacks:
  fixes s :: "('r, 'z) node_scheme" and s2 :: "('q, 'y) node_scheme"
  assumes laws: "text_laws X" "key_laws X" "ciphers_ok X"
    and m: "sendable m" "from_utf8 (to_plaintext_json X m) = Some (to_plaintext_json X m)"
    and docs: "answers R (did_of t) rdoc" "answers R (did_of f) sdoc" "answers R' (did_of f) sdoc" "d_id sdoc = did_of f"
    and sender: "holds_key_agreement X S sdoc"
    and recipient: "\<And>keys. key_agreement_keys rdoc t = Inr keys \<Longrightarrow> holds_keys X S' (did_of t) keys"
    and pack: "pack_encrypted X now m t (Some f) None R S (default_options\<lparr>po_forward := False\<rparr>) s = (Inr pm, s')"
  shows "\<exists>meta s2'. unpack X (pm_message pm) R' S' s2 = (Inr (m\<lparr>m_typ := Some PLAINTEXT_TYP\<rparr>, meta), s2')
    \<and> um_encrypted meta \<and> um_authenticated meta \<and> um_encrypted_from_kid meta = pm_from_kid pm"
proof -
  let ?m = "m\<lparr>m_typ := Some PLAINTEXT_TYP\<rparr>"
  obtain keys skid sk recipients j and s0 s1 :: "('r, 'z) node_scheme" where
    v: "validate m = Inr ()" "m_from m = Some (did_of f)" "case m_to m of None \<Rightarrow> True | Some ts \<Rightarrow> did_of t \<in> set ts"
    and k: "key_agreement_keys rdoc t = Inr keys" "find_authcrypt_keys sdoc f keys S = Inr (skid, sk, recipients)"
    and e: "jwe_encrypt X (to_plaintext_json X m) (Some (skid, sk)) recipients A256CbcHs512 s0 = (Inr j, s1)"
      "pm_message pm = jwe_to_json X j" "pm_from_kid pm = Some skid"
    by (rule pack_authcrypt_ok [OF pack _ _ docs(1,2)]) (simp_all add: default_options_def)
  have fa: "skid \<in> set (d_key_agreement sdoc)" "S skid = Inr (Some sk)"
    "recipients = filter (\<lambda>(_, key). pk_curve key = sk_curve sk) keys" "recipients \<noteq> []"
    using find_authcrypt_ok [OF k(2)] by auto
  then have sk: "did_of skid = did_of f" "key_agreement_key sdoc skid = Inr (public_key_of X sk)"
    "jwk_law X (sk_curve sk)" "from_utf8 skid = Some skid"
    using sender docs(4) unfolding holds_key_agreement_def by metis+
  obtain kid key where h: "first_held S' (map fst recipients) = Inr (kid, key)"
    "(kid, public_key_of X key) \<in> set recipients" "did_of kid = did_of t" "distinct (map fst recipients)"
    by (rule first_held_all [OF recipient [OF k(1)] fa(3,4)])
  have "sk_curve key = sk_curve sk" using h(2) fa(3) by auto
  then have jl: "jwk_law X (sk_curve key)" using sk(3) by simp
  let ?u = "\<lparr>us_meta = default_metadata, us_layers = [], us_current = pm_message pm, us_recipient_dids = []\<rparr>"
  let ?v = "\<lparr>us_meta = default_metadata\<lparr>um_authenticated := True, um_encrypted_from_kid := Some skid,
        um_enc_alg_auth := Some A256CbcHs512, um_encrypted := True,
        um_encrypted_to_kids := map fst recipients, um_decrypted_by_kid := Some kid\<rparr>,
      us_layers = [Authcrypt], us_current = to_plaintext_json X m, us_recipient_dids = [did_of kid]\<rparr>"
  obtain r where st: "unpack_step X R' S' ?u s2 = (Inr (Inr ?v), s2\<lparr>resolver_state := r\<rparr>)"
    by (rule authcrypt_step [OF laws(1,2) jl laws(3) e(1) h(4,2,1), of R' sdoc ?u s2])
      (use docs(3) sk m(2) e(2) in simp_all)
  have "unpack_step X R' S' ?v (s2\<lparr>resolver_state := r\<rparr>) = (Inr (Inl ?m), s2\<lparr>resolver_state := r\<rparr>)"
    by (rule plaintext_step) (use laws m validate_typ [OF v(1)] in \<open>simp_all add: to_plaintext_json_def\<close>)
  then have "unpack_loop X R' S' ?v (s2\<lparr>resolver_state := r\<rparr>) = (Inr (?m, ?v), s2\<lparr>resolver_state := r\<rparr>)"
    by (subst unpack_loop.simps) simp
  then have "unpack_loop X R' S' ?u s2 = (Inr (?m, ?v), s2\<lparr>resolver_state := r\<rparr>)"
    using st by (subst unpack_loop.simps) simp
  moreover have "m_from_prior m = None" using m(1) by (simp add: sendable_def)
  ultimately show ?thesis
    using v(2,3) sk(1) h(3) e(3)
    by (simp add: unpack_def bind_act_def check_consistency_def default_metadata_def split: option.splits)
qed

text \<open>C3: End to end: what \<open>pack_encrypted\<close> authcrypts from a sender to a recipient, \<open>unpack\<close> at the
  recipient returns as the same message, reported as encrypted and authenticated by the key the
  sender used. The sender and the recipient only need documents that publish the keys they
  hold.\<close>

theorem authcrypt_end_to_end:
  fixes s :: "('r, 'z) node_scheme" and s2 :: "('q, 'y) node_scheme"
  assumes laws: "text_laws X" "key_laws X" "ciphers_ok X"
    and m: "sendable m" "from_utf8 (to_plaintext_json X m) = Some (to_plaintext_json X m)"
    and docs: "answers R (did_of t) rdoc" "answers R (did_of f) sdoc" "answers R' (did_of f) sdoc" "d_id sdoc = did_of f"
    and sender: "holds_key_agreement X S sdoc"
    and recipient: "\<And>keys. key_agreement_keys rdoc t = Inr keys \<Longrightarrow> holds_keys X S' (did_of t) keys"
    and pack: "pack_encrypted X now m t (Some f) None R S (default_options\<lparr>po_forward := False\<rparr>) s = (Inr pm, s')"
  shows "\<exists>meta s2'. unpack X (pm_message pm) R' S' s2 = (Inr (m\<lparr>m_typ := Some PLAINTEXT_TYP\<rparr>, meta), s2')
    \<and> um_encrypted meta \<and> um_authenticated meta \<and> um_encrypted_from_kid meta = pm_from_kid pm"
  by (rule authcrypt_unpacks [OF assms])

section \<open>The signed layer\<close>

lemma jws_value_ok: "value_ok (se_jws j)"
  by (auto simp: value_ok_def se_jws_def se_jws_signature_def opt_member_def split: option.splits)

lemma signed_step:
  fixes s :: "('r, 'z) node_scheme"
  assumes laws: "text_laws X" "sig_laws X" and sign: "jws_sign X p kid key = Inr j"
    and doc: "answers R (did_of kid) doc" "authentication_key doc kid = Inr (public_key_of X key)"
    and u: "from_utf8 p = Some p" "Signed \<notin> set (us_layers u)" "us_current u = jws_to_json X j"
  obtains r where "unpack_step X R S u s = (Inr (Inr \<lparr>
      us_meta = (us_meta u)\<lparr>um_non_repudiation := True, um_signed_message := Some (us_current u),
        um_sign_from := Some kid\<rparr>,
      us_layers = us_layers u @ [Signed], us_current = p,
      us_recipient_dids = us_recipient_dids u\<rparr>), s\<lparr>resolver_state := r\<rparr>)"
proof -
  obtain h where h: "jws_protected_header_of X j = Inr h" "jh_typ h = Some SIGNED_TYP"
    and p: "jws_parse X (jws_to_json X j) = Inr j" "signer_kid X j = Inr kid" "jws_verify X j (public_key_of X key) = Inr p"
    using jws_round_trip [OF laws sign] by blast
  have v: "from_str_value X (us_current u) = Inr (se_jws j)"
    using u laws(1) jws_value_ok by (simp add: jws_to_json_def from_str_value_print)
  obtain r where r: "resolve_in R (did_of kid) s = (Inr doc, s\<lparr>resolver_state := r\<rparr>)"
    using answers_resolve [OF doc(1)] by blast
  have ct: "check_typ (Some SIGNED_TYP) SIGNED_TYP = Inr ()" by (simp add: check_typ_def media_type_is_def)
  have "step_jws X R u s = (Inr \<lparr>
      us_meta = (us_meta u)\<lparr>um_non_repudiation := True, um_signed_message := Some (us_current u),
        um_sign_from := Some kid\<rparr>,
      us_layers = us_layers u @ [Signed], us_current = p,
      us_recipient_dids = us_recipient_dids u\<rparr>, s\<lparr>resolver_state := r\<rparr>)"
    using u h p r ct doc(2) by (simp add: step_jws_def bind_act_def utf8_def)
  then show thesis
    using that [of r] v by (simp add: unpack_step_def bind_act_def se_jws_def)
qed

lemma signed_unpacks:
  fixes s :: "('r, 'z) node_scheme" and s2 :: "('q, 'y) node_scheme"
  assumes laws: "text_laws X" "sig_laws X"
    and m: "sendable m" "from_utf8 (to_plaintext_json X m) = Some (to_plaintext_json X m)"
    and docs: "answers R (did_of f) doc" "answers R' (did_of f) doc" "d_id doc = did_of f" "holds_authentication X S doc"
    and pack: "pack_signed X m f R S s = (Inr (t, kid), s')"
  shows "\<exists>meta s2'. unpack X t R' S' s2 = (Inr (m\<lparr>m_typ := Some PLAINTEXT_TYP\<rparr>, meta), s2')
    \<and> um_non_repudiation meta \<and> um_sign_from meta = Some kid \<and> um_signed_message meta = Some t
    \<and> \<not> um_encrypted meta"
proof -
  let ?m = "m\<lparr>m_typ := Some PLAINTEXT_TYP\<rparr>"
  obtain key j s1 where v: "validate m = Inr ()" "m_from m = Some (did_of f)"
    and f: "find_signing_key f R S s = (Inr (kid, key), s1)"
    and j: "jws_sign X (to_plaintext_json X m) kid key = Inr j" "t = jws_to_json X j"
    using pack by (auto simp: pack_signed_def bind_act_Inr)
  obtain doc' where d: "fst (R (did_of f) (resolver_state s)) = Inr doc'" "S kid = Inr (Some key)"
    "kid \<in> set (d_authentication doc')"
    by (rule find_signing_key_ok [OF f]) (metis fst_conv)
  then have "doc' = doc" using docs(1) by (simp add: answers_def)
  then have k: "did_of kid = did_of f" "authentication_key doc kid = Inr (public_key_of X key)"
    using docs(3,4) d unfolding holds_authentication_def by metis+
  let ?u = "\<lparr>us_meta = default_metadata, us_layers = [], us_current = t, us_recipient_dids = []\<rparr>"
  let ?v = "\<lparr>us_meta = default_metadata\<lparr>um_non_repudiation := True, um_signed_message := Some t, um_sign_from := Some kid\<rparr>,
      us_layers = [Signed], us_current = to_plaintext_json X m, us_recipient_dids = []\<rparr>"
  obtain r where st: "unpack_step X R' S' ?u s2 = (Inr (Inr ?v), s2\<lparr>resolver_state := r\<rparr>)"
    by (rule signed_step [OF laws j(1), of R' doc ?u S' s2]) (use docs(2) k m(2) j(2) in simp_all)
  have "unpack_step X R' S' ?v (s2\<lparr>resolver_state := r\<rparr>) = (Inr (Inl ?m), s2\<lparr>resolver_state := r\<rparr>)"
    by (rule plaintext_step) (use laws m validate_typ [OF v(1)] in \<open>simp_all add: to_plaintext_json_def\<close>)
  then have "unpack_loop X R' S' ?v (s2\<lparr>resolver_state := r\<rparr>) = (Inr (?m, ?v), s2\<lparr>resolver_state := r\<rparr>)"
    by (subst unpack_loop.simps) simp
  then have "unpack_loop X R' S' ?u s2 = (Inr (?m, ?v), s2\<lparr>resolver_state := r\<rparr>)"
    using st by (subst unpack_loop.simps) simp
  moreover have "m_from_prior m = None" using m(1) by (simp add: sendable_def)
  ultimately show ?thesis
    using v(2) k(1)
    by (cases "m_to m") (simp_all add: unpack_def bind_act_def check_consistency_def default_metadata_def Let_def)
qed

text \<open>C11: What \<open>pack_signed\<close> signs, \<open>unpack\<close> reads back as the same message, reported as signed by
  the key the signer used (and, without an encrypted envelope around it, as not encrypted).\<close>

theorem signed_end_to_end:
  fixes s :: "('r, 'z) node_scheme" and s2 :: "('q, 'y) node_scheme"
  assumes laws: "text_laws X" "sig_laws X"
    and m: "sendable m" "from_utf8 (to_plaintext_json X m) = Some (to_plaintext_json X m)"
    and docs: "answers R (did_of f) doc" "answers R' (did_of f) doc" "d_id doc = did_of f" "holds_authentication X S doc"
    and pack: "pack_signed X m f R S s = (Inr (t, kid), s')"
  shows "\<exists>meta s2'. unpack X t R' S' s2 = (Inr (m\<lparr>m_typ := Some PLAINTEXT_TYP\<rparr>, meta), s2')
    \<and> um_non_repudiation meta \<and> um_sign_from meta = Some kid \<and> um_signed_message meta = Some t
    \<and> \<not> um_encrypted meta"
  by (rule signed_unpacks [OF assms])

definition signed_message :: message where
  "signed_message = set_from ''did:a'' sample_message"

lemma signed_message_ok:
  "sendable signed_message" "validate signed_message = Inr ()"
  "from_utf8 (to_plaintext_json sample_ext signed_message) = Some (to_plaintext_json sample_ext signed_message)"
  by (simp_all add: sendable_def message_ok_def value_ok_def signed_message_def sample_message_def message_new_def
      set_to_def set_from_def validate_def check_did_def starts_with_def)
    (simp add: utf8_of_ascii to_plaintext_json_def se_message_def opt_member_def PLAINTEXT_TYP_def se_strings_def)

lemma sample_doc_holds: "answers (static_resolve [sample_doc]) ''did:a'' sample_doc" "did_of ''did:a'' = ''did:a''"
  "holds_authentication sample_ext sample_secrets sample_doc"
  by (auto simp: answers_def static_resolve_def holds_authentication_def sample_secrets_def sample_doc_def
      in_memory_secrets_def did_of_def authentication_key_Inr doc_method_def split: if_splits)

lemma sample_signed:
  obtains t s' where "pack_signed sample_ext signed_message ''did:a'' (static_resolve [sample_doc]) sample_secrets sample_node
    = (Inr (t, ''did:a#k''), s')"
proof -
  have m: "m_from signed_message = Some ''did:a''" by (simp add: signed_message_def set_from_def)
  have f: "find_signing_key ''did:a'' (static_resolve [sample_doc]) sample_secrets sample_node
      = (Inr (''did:a#k'', SkEd25519 ''s''), sample_node)"
    by (simp add: find_signing_key_def sample_doc_holds(2) bind_act_def resolve_in_def static_resolve_def sample_doc_def
        sample_secrets_def in_memory_secrets_def sample_node_def)
  show thesis
    by (rule that) (simp add: pack_signed_def bind_act_def signed_message_ok m f sample_doc_holds(2) jws_sign_def
        signature_alg_res_def secret_sign_def Let_def)
qed

theorem signed_end_to_end_witness:
  "\<exists>t s' meta s2'. pack_signed sample_ext signed_message ''did:a'' (static_resolve [sample_doc]) sample_secrets sample_node
      = (Inr (t, ''did:a#k''), s')
    \<and> unpack sample_ext t (static_resolve [sample_doc]) sample_secrets sample_node
      = (Inr (signed_message\<lparr>m_typ := Some PLAINTEXT_TYP\<rparr>, meta), s2') \<and> um_sign_from meta = Some ''did:a#k''"
proof (rule sample_signed)
  fix t s'
  assume p: "pack_signed sample_ext signed_message ''did:a'' (static_resolve [sample_doc]) sample_secrets sample_node
    = (Inr (t, ''did:a#k''), s')"
  have d: "d_id sample_doc = ''did:a''" by (simp add: sample_doc_def)
  from signed_end_to_end [OF sample_text_laws sample_sig_laws(1) signed_message_ok(1,3) _ _ _ sample_doc_holds(3) p,
      unfolded sample_doc_holds(2), OF sample_doc_holds(1) sample_doc_holds(1) d] p
  show ?thesis by blast
qed

theorem unpack_signed_message_witness:
  "\<exists>t meta s2'. unpack sample_ext t (static_resolve [sample_doc]) sample_secrets sample_node
      = (Inr (signed_message\<lparr>m_typ := Some PLAINTEXT_TYP\<rparr>, meta), s2') \<and> um_non_repudiation meta
    \<and> (\<exists>kid. um_sign_from meta = Some kid \<and> did_of kid = ''did:a'')"
proof (rule sample_signed)
  fix t s'
  assume p: "pack_signed sample_ext signed_message ''did:a'' (static_resolve [sample_doc]) sample_secrets sample_node
    = (Inr (t, ''did:a#k''), s')"
  have d: "d_id sample_doc = ''did:a''" by (simp add: sample_doc_def)
  obtain meta s2' where u: "unpack sample_ext t (static_resolve [sample_doc]) sample_secrets sample_node
      = (Inr (signed_message\<lparr>m_typ := Some PLAINTEXT_TYP\<rparr>, meta), s2')" "um_non_repudiation meta"
    using signed_unpacks [OF sample_text_laws sample_sig_laws(1) signed_message_ok(1,3) _ _ _ sample_doc_holds(3) p,
      unfolded sample_doc_holds(2), OF sample_doc_holds(1) sample_doc_holds(1) d] by blast
  from unpack_signed_message [OF this] obtain kid where "um_sign_from meta = Some kid" "did_of kid = ''did:a''"
    by (auto simp: signed_message_def set_from_def)
  with u show ?thesis by blast
qed

text \<open>One envelope is opened: the signed sample message.\<close>

theorem unpack_opens_at_most_three_witness:
  "\<exists>u v (s :: unit node) s'. us_layers u = [] \<and> us_layers v = [Signed]
    \<and> unpack_step sample_ext (static_resolve [sample_doc]) sample_secrets u s = (Inr (Inr v), s') \<and> (1 :: nat) \<le> 3"
proof -
  obtain j where j: "jws_sign sample_ext ''hello'' ''did:a#k'' (SkEd25519 ''s'') = Inr j"
    by (simp add: jws_sign_def signature_alg_res_def secret_sign_def Let_def)
  let ?u = "\<lparr>us_meta = default_metadata, us_layers = [], us_current = jws_to_json sample_ext j, us_recipient_dids = []\<rparr>"
  have k: "did_of ''did:a#k'' = ''did:a''" by (simp add: did_of_def)
  have a: "authentication_key sample_doc ''did:a#k'' = Inr (public_key_of sample_ext (SkEd25519 ''s''))"
    by (simp add: authentication_key_Inr doc_method_def sample_doc_def)
  obtain r where r: "unpack_step sample_ext (static_resolve [sample_doc]) sample_secrets ?u sample_node = (Inr (Inr \<lparr>
      us_meta = default_metadata\<lparr>um_non_repudiation := True, um_signed_message := Some (us_current ?u),
        um_sign_from := Some ''did:a#k''\<rparr>, us_layers = [Signed], us_current = ''hello'',
      us_recipient_dids = []\<rparr>), sample_node\<lparr>resolver_state := r\<rparr>)" (is "_ = (Inr (Inr ?v), _)")
    by (rule signed_step [OF sample_text_laws sample_sig_laws(1) j _ a, of "static_resolve [sample_doc]" ?u sample_secrets sample_node])
      (simp_all add: k sample_doc_holds utf8_of_ascii)
  have "(1 :: nat) \<le> 3"
    by (rule unpack_opens_at_most_three [of "\<lambda>i. if i = 0 then ?u else ?v", where 'r = unit and 'z = unit]) (use r in auto)
  then show ?thesis using r by (intro exI [of _ ?u] exI [of _ ?v] exI [of _ sample_node]) simp
qed

end
