(* ===== verification/Anonymous.thy ===== *)
theory Anonymous
  imports End_To_End
begin

text \<open>
  Anonymous encryption end to end: \<open>pack_encrypted\<close> without a sender, which is also what a
  \<open>forward\<close> is wrapped in.
\<close>

lemma anoncrypt_step:
  fixes s :: "('r, 'z) node_scheme" and s0 s1 :: "('q, 'y) node_scheme"
  assumes laws: "text_laws X" "key_laws X" "jwk_law X (sk_curve key)" "ciphers_ok X"
    and enc: "jwe_encrypt X p None recipients enc s0 = (Inr j, s1)"
    and rec: "distinct (map fst recipients)" "(kid, public_key_of X key) \<in> set recipients"
      "first_held S (map fst recipients) = Inr (kid, key)"
    and u: "from_utf8 p = Some p" "us_layers u = []" "us_current u = jwe_to_json X j"
  shows "unpack_step X R S u s = (Inr (Inr \<lparr>
      us_meta = (us_meta u)\<lparr>um_enc_alg_anon := Some enc, um_encrypted := True,
        um_encrypted_to_kids := map fst recipients, um_decrypted_by_kid := Some kid\<rparr>,
      us_layers = [Anoncrypt], us_current = p,
      us_recipient_dids = us_recipient_dids u @ [did_of kid]\<rparr>), s)"
proof -
  obtain e where h: "protected_header X j = Inr (jwe_header X e None recipients enc)"
    and kids: "recipient_kids j = map fst recipients"
    by (rule jwe_encrypt_header [OF laws(1) enc])
  have dec: "jwe_decrypt X j kid key None = Inr p"
    using jwe_round_trip_aux [OF laws enc _ rec(1,2)] by simp
  have v: "from_str_value X (us_current u) = Inr (se_jwe j)" "jwe_parse X (us_current u) = Inr j"
    using u laws(1) jwe_value_ok by (simp_all add: jwe_to_json_def from_str_value_print jwe_parse_def)
  have ct: "check_typ (Some ENCRYPTED_TYP) ENCRYPTED_TYP = Inr ()" by (simp add: check_typ_def media_type_is_def)
  have "step_jwe X R S u s = (Inr \<lparr>
      us_meta = (us_meta u)\<lparr>um_enc_alg_anon := Some enc, um_encrypted := True,
        um_encrypted_to_kids := map fst recipients, um_decrypted_by_kid := Some kid\<rparr>,
      us_layers = [Anoncrypt], us_current = p,
      us_recipient_dids = us_recipient_dids u @ [did_of kid]\<rparr>, s)"
    using v(2) h kids rec(3) ct dec u
    by (simp add: step_jwe_def sender_of_def find_decryption_key_def layer_allowed_def utf8_def bind_act_def
        Let_def) (simp add: jwe_header_def ct bind_act_def)
  then show ?thesis using v(1) by (simp add: unpack_step_def bind_act_def se_jwe_def)
qed

lemma pack_anoncrypt_ok:
  fixes s :: "('r, 'z) node_scheme"
  assumes "pack_encrypted X now m t None None R S opts s = (Inr pm, s')" "\<not> po_forward opts"
    and "answers R (did_of t) rdoc"
  obtains keys j and s0 s1 :: "('r, 'z) node_scheme" where
    "validate m = Inr ()" "case m_to m of None \<Rightarrow> True | Some ts \<Rightarrow> did_of t \<in> set ts"
    "key_agreement_keys rdoc t = Inr keys"
    "jwe_encrypt X (to_plaintext_json X m) None (same_curve keys) (po_anoncrypt_enc opts) s0 = (Inr j, s1)"
    "pm_message pm = jwe_to_json X j"
proof -
  obtain r where r: "resolve_in R (did_of t) s = (Inr rdoc, s\<lparr>resolver_state := r\<rparr>)"
    using answers_resolve [OF assms(3)] by blast
  show thesis using assms(1,2) r that
    by (auto simp: pack_encrypted_def bind_act_Inr anoncrypt_def Let_def split: if_splits)
qed

lemma same_curve_filter: "same_curve keys = filter (\<lambda>(_, key). pk_curve key = pk_curve (snd (hd keys))) keys"
  by (simp add: same_curve_def)

lemma anoncrypt_unpacks:
  fixes s :: "('r, 'z) node_scheme" and s2 :: "('q, 'y) node_scheme"
  assumes laws: "text_laws X" "key_laws X" "ciphers_ok X"
    and jwk: "\<And>keys pk. key_agreement_keys rdoc t = Inr keys \<Longrightarrow> pk \<in> snd ` set (same_curve keys) \<Longrightarrow> jwk_law X (pk_curve pk)"
    and m: "sendable m" "from_utf8 (to_plaintext_json X m) = Some (to_plaintext_json X m)"
    and doc: "answers R (did_of t) rdoc"
    and recipient: "\<And>keys. key_agreement_keys rdoc t = Inr keys \<Longrightarrow> holds_keys X S' (did_of t) keys"
    and pack: "pack_encrypted X now m t None None R S (default_options\<lparr>po_forward := False\<rparr>) s = (Inr pm, s')"
  shows "\<exists>meta. unpack X (pm_message pm) R' S' s2 = (Inr (m\<lparr>m_typ := Some PLAINTEXT_TYP\<rparr>, meta), s2)
    \<and> um_encrypted meta \<and> \<not> um_authenticated meta \<and> um_anonymous_sender meta"
proof -
  let ?m = "m\<lparr>m_typ := Some PLAINTEXT_TYP\<rparr>"
  obtain keys j and s0 s1 :: "('r, 'z) node_scheme" where
    v: "validate m = Inr ()" "case m_to m of None \<Rightarrow> True | Some ts \<Rightarrow> did_of t \<in> set ts"
    and k: "key_agreement_keys rdoc t = Inr keys"
    and e: "jwe_encrypt X (to_plaintext_json X m) None (same_curve keys) A256CbcHs512 s0 = (Inr j, s1)"
      "pm_message pm = jwe_to_json X j"
    by (rule pack_anoncrypt_ok [OF pack _ doc]) (simp_all add: default_options_def)
  have "keys \<noteq> []" using k by (auto simp: key_agreement_keys_def split: if_splits)
  then have ne: "same_curve keys \<noteq> []" by (cases keys) (auto simp: same_curve_def)
  obtain kid key where h: "first_held S' (map fst (same_curve keys)) = Inr (kid, key)"
    "(kid, public_key_of X key) \<in> set (same_curve keys)" "did_of kid = did_of t" "distinct (map fst (same_curve keys))"
    by (rule first_held_all [OF recipient [OF k] same_curve_filter ne])
  have jl: "jwk_law X (sk_curve key)" using jwk [OF k, of "public_key_of X key"] h(2) by force
  let ?u = "\<lparr>us_meta = default_metadata, us_layers = [], us_current = pm_message pm, us_recipient_dids = []\<rparr>"
  let ?v = "\<lparr>us_meta = default_metadata\<lparr>um_enc_alg_anon := Some A256CbcHs512, um_encrypted := True,
        um_encrypted_to_kids := map fst (same_curve keys), um_decrypted_by_kid := Some kid\<rparr>,
      us_layers = [Anoncrypt], us_current = to_plaintext_json X m, us_recipient_dids = [did_of kid]\<rparr>"
  have st: "unpack_step X R' S' ?u s2 = (Inr (Inr ?v), s2)"
    using anoncrypt_step [OF laws(1,2) jl laws(3) e(1) h(4,2,1) m(2), of ?u R' s2] e(2) by simp
  have "unpack_step X R' S' ?v s2 = (Inr (Inl ?m), s2)"
    by (rule plaintext_step) (use laws m validate_typ [OF v(1)] in \<open>simp_all add: to_plaintext_json_def\<close>)
  then have "unpack_loop X R' S' ?v s2 = (Inr (?m, ?v), s2)" by (subst unpack_loop.simps) simp
  then have "unpack_loop X R' S' ?u s2 = (Inr (?m, ?v), s2)" using st by (subst unpack_loop.simps) simp
  moreover have "m_from_prior m = None" using m(1) by (simp add: sendable_def)
  ultimately show ?thesis
    using v(2) h(3)
    by (cases "m_to m") (simp_all add: unpack_def bind_act_def check_consistency_def default_metadata_def Let_def)
qed

text \<open>C10: End to end without a sender: what \<open>pack_encrypted\<close> anoncrypts to a recipient, \<open>unpack\<close> at
  the recipient returns as the same message, reported as encrypted and as not authenticated,
  even if the message names a \<open>from\<close>.\<close>

theorem anoncrypt_end_to_end:
  fixes s :: "('r, 'z) node_scheme" and s2 :: "('q, 'y) node_scheme"
  assumes laws: "text_laws X" "key_laws X" "ciphers_ok X"
    and jwk: "\<And>keys pk. key_agreement_keys rdoc t = Inr keys \<Longrightarrow> pk \<in> snd ` set (same_curve keys) \<Longrightarrow> jwk_law X (pk_curve pk)"
    and m: "sendable m" "from_utf8 (to_plaintext_json X m) = Some (to_plaintext_json X m)"
    and doc: "answers R (did_of t) rdoc"
    and recipient: "\<And>keys. key_agreement_keys rdoc t = Inr keys \<Longrightarrow> holds_keys X S' (did_of t) keys"
    and pack: "pack_encrypted X now m t None None R S (default_options\<lparr>po_forward := False\<rparr>) s = (Inr pm, s')"
  shows "\<exists>meta. unpack X (pm_message pm) R' S' s2 = (Inr (m\<lparr>m_typ := Some PLAINTEXT_TYP\<rparr>, meta), s2)
    \<and> um_encrypted meta \<and> \<not> um_authenticated meta \<and> um_anonymous_sender meta"
  by (rule anoncrypt_unpacks [OF assms])

end
