(* ===== verification/Store_Spec.thy ===== *)
theory Store_Spec
  imports Rust_Std
begin

text \<open>
  What the mediator needs from storage: the types and the trait of
  \<open>crates/mediator/src/store/mod.rs\<close>, with the device types of \<open>crates/mediator/src/push/mod.rs\<close>.
  A \<open>dyn Store\<close> is a record of its methods over a state of any type; an \<open>anyhow\<close> error is its
  text. The locale \<open>store\<close> is the contract the protocol handlers rely on, in terms of three
  observations: who owns a recipient DID, which mediations are granted, and what is queued.
\<close>

section \<open>Devices\<close>

datatype service = Fcm | Apns

fun service_str :: "service \<Rightarrow> string" where
  "service_str Fcm = ''fcm''"
| "service_str Apns = ''apns''"

definition service_parse :: "string \<Rightarrow> service option" where
  "service_parse v = (if v = ''fcm'' then Some Fcm else if v = ''apns'' then Some Apns else None)"

text \<open>The derived \<open>Ord\<close>: in declaration order.\<close>

instantiation service :: linorder
begin

definition less_eq_service :: "service \<Rightarrow> service \<Rightarrow> bool" where
  "less_eq_service a b \<longleftrightarrow> a = Fcm \<or> b = Apns"

definition less_service :: "service \<Rightarrow> service \<Rightarrow> bool" where
  "less_service a b \<longleftrightarrow> a = Fcm \<and> b = Apns"

instance
proof
  fix x y z :: service
  show "(x < y) = (x \<le> y \<and> \<not> y \<le> x)"
    by (cases x; cases y) (simp_all add: less_eq_service_def less_service_def)
  show "x \<le> x" by (cases x) (simp_all add: less_eq_service_def)
  show "x \<le> y \<Longrightarrow> y \<le> z \<Longrightarrow> x \<le> z"
    by (cases x; cases y; cases z) (simp_all add: less_eq_service_def)
  show "x \<le> y \<Longrightarrow> y \<le> x \<Longrightarrow> x = y" by (cases x; cases y) (simp_all add: less_eq_service_def)
  show "x \<le> y \<or> y \<le> x" by (cases x; cases y) (simp_all add: less_eq_service_def)
qed

end

record device =
  dv_token :: string
  dv_platform :: "string option"

lemma service_parse_str [simp]: "service_parse (service_str s) = Some s"
  by (cases s) (simp_all add: service_parse_def)

section \<open>Queue, recipients and relays\<close>

datatype add_recipient = Added | AlreadyYours | TakenByOther | LimitReached

datatype remove_recipient = Removed | NotRegistered | NotYours

record queued =
  q_id :: string
  q_recipient :: string
  q_received :: u64
  q_message :: string

record queue_summary =
  qs_count :: nat
  qs_oldest :: "u64 option"
  qs_newest :: "u64 option"
  qs_total_bytes :: u64

definition default_summary :: queue_summary where
  "default_summary = \<lparr>qs_count = 0, qs_oldest = None, qs_newest = None, qs_total_bytes = 0\<rparr>"

record pending_relay =
  pr_id :: string
  pr_uri :: string
  pr_message :: string
  pr_retries :: u32

record queue_limits =
  ql_ttl_secs :: u64
  ql_max_messages :: nat
  ql_max_bytes :: u64

definition is_queue_id :: "string \<Rightarrow> bool" where
  "is_queue_id i =
     (case split_once (CHR ''-'') i of
        None \<Rightarrow> False
      | Some (ms, seq) \<Rightarrow> ms \<noteq> [] \<and> seq \<noteq> [] \<and> list_all is_ascii_digit (ms @ seq))"

definition id_millis :: "string \<Rightarrow> u64" where
  "id_millis i =
     (case Option.bind (split_once (CHR ''-'') i) (\<lambda>(ms, _). parse_u64 ms) of
        None \<Rightarrow> 0 | Some n \<Rightarrow> n)"

section \<open>The trait\<close>

record 's store_ops =
  ping :: "('s, string, unit) act"
  kind :: string
  grant_mediation :: "string \<Rightarrow> u64 \<Rightarrow> ('s, string, unit) act"
  touch_mediation :: "string \<Rightarrow> u64 \<Rightarrow> ('s, string, unit) act"
  remove_idle_mediations :: "u64 \<Rightarrow> nat \<Rightarrow> ('s, string, string list) act"
  has_mediation :: "string \<Rightarrow> ('s, string, bool) act"
  add_recipient :: "string \<Rightarrow> string \<Rightarrow> nat \<Rightarrow> ('s, string, add_recipient) act"
  remove_recipient :: "string \<Rightarrow> string \<Rightarrow> ('s, string, remove_recipient) act"
  recipients :: "string \<Rightarrow> ('s, string, string list) act"
  mediation_of :: "string \<Rightarrow> ('s, string, string option) act"
  enqueue :: "string \<Rightarrow> string \<Rightarrow> string \<Rightarrow> u64 \<Rightarrow> queue_limits \<Rightarrow> ('s, string, string option) act"
  summary :: "string \<Rightarrow> string option \<Rightarrow> u64 \<Rightarrow> u64 \<Rightarrow> ('s, string, queue_summary) act"
  peek :: "string \<Rightarrow> string option \<Rightarrow> nat \<Rightarrow> u64 \<Rightarrow> u64 \<Rightarrow> ('s, string, queued list) act"
  remove :: "string \<Rightarrow> string list \<Rightarrow> ('s, string, nat) act"
  hit :: "string \<Rightarrow> u64 \<Rightarrow> u64 \<Rightarrow> ('s, string, u64) act"
  schedule_relay :: "pending_relay \<Rightarrow> u64 \<Rightarrow> nat \<Rightarrow> ('s, string, bool) act"
  due_relays :: "u64 \<Rightarrow> u64 \<Rightarrow> nat \<Rightarrow> ('s, string, pending_relay list) act"
  finish_relay :: "string \<Rightarrow> ('s, string, unit) act"
  set_device :: "string \<Rightarrow> service \<Rightarrow> device option \<Rightarrow> ('s, string, unit) act"
  devices :: "string \<Rightarrow> ('s, string, (service \<times> device) list) act"
  remove_device :: "string \<Rightarrow> service \<Rightarrow> string \<Rightarrow> ('s, string, unit) act"
  claim_push :: "string \<Rightarrow> u64 \<Rightarrow> u64 \<Rightarrow> ('s, string, bool) act"
  release_push :: "string \<Rightarrow> u64 \<Rightarrow> u64 \<Rightarrow> ('s, string, unit) act"

section \<open>The contract\<close>

text \<open>The messages of a queue that are not expired at \<open>now\<close>.\<close>

definition live_part :: "u64 \<Rightarrow> u64 \<Rightarrow> queued list \<Rightarrow> queued list" where
  "live_part now ttl qs = filter (\<lambda>q. saturating_sub now ttl \<le> q_received q) qs"

definition matching :: "string option \<Rightarrow> queued list \<Rightarrow> queued list" where
  "matching r qs = filter (\<lambda>q. case r of None \<Rightarrow> True | Some d \<Rightarrow> q_recipient q = d) qs"

text \<open>
  The laws say what each operation may do to the observations whatever its result is, errors
  included, and what a result tells about them. They are stated for one operation at a time;
  the operations that are not mentioned in a law keep all three observations.
\<close>

locale store =
  fixes ops :: "'s store_ops"
    and sinv :: "'s \<Rightarrow> bool"
    and granted :: "'s \<Rightarrow> string \<Rightarrow> bool"
    and owner :: "'s \<Rightarrow> string \<Rightarrow> string option"
    and queue :: "'s \<Rightarrow> string \<Rightarrow> queued list"
  assumes keep_silent:
      "sinv s \<Longrightarrow> s' \<in> {snd (touch_mediation ops m now s), snd (has_mediation ops m s),
         snd (recipients ops m s), snd (mediation_of ops r s), snd (hit ops k w now s),
         snd (schedule_relay ops rel due mx s), snd (due_relays ops now w lim s),
         snd (finish_relay ops i s), snd (set_device ops m sv dev s), snd (devices ops m s),
         snd (remove_device ops m sv tok s), snd (claim_push ops m now w s),
         snd (release_push ops m now w s)} \<Longrightarrow>
       sinv s' \<and> granted s' = granted s \<and> owner s' = owner s \<and> queue s' = queue s"
    and keep_grant:
      "sinv s \<Longrightarrow> s' = snd (grant_mediation ops m now s) \<Longrightarrow>
       sinv s' \<and> owner s' = owner s \<and> queue s' = queue s \<and> (\<forall>m'. m' \<noteq> m \<longrightarrow> granted s' m' = granted s m')"
    and grant_ok: "sinv s \<Longrightarrow> grant_mediation ops m now s = (Inr (), s') \<Longrightarrow> granted s' m"
    and keep_add:
      "sinv s \<Longrightarrow> s' = snd (add_recipient ops m r mx s) \<Longrightarrow>
       sinv s' \<and> granted s' = granted s \<and> queue s' = queue s
       \<and> (owner s' = owner s \<or> owner s r = None \<and> owner s' = (owner s)(r \<mapsto> m))"
    and add_ok:
      "sinv s \<Longrightarrow> add_recipient ops m r mx s = (Inr a, s') \<Longrightarrow>
       (a = Added \<longleftrightarrow> owner s r = None \<and> owner s' r = Some m)
       \<and> (a = AlreadyYours \<longleftrightarrow> owner s r = Some m)
       \<and> (a = TakenByOther \<longleftrightarrow> owner s r \<noteq> None \<and> owner s r \<noteq> Some m)"
    and keep_remove_recipient:
      "sinv s \<Longrightarrow> s' = snd (remove_recipient ops m r s) \<Longrightarrow>
       sinv s' \<and> granted s' = granted s \<and> queue s' = queue s
       \<and> (owner s' = owner s \<or> owner s r = Some m \<and> owner s' = (owner s)(r := None))"
    and has_mediation_ok: "sinv s \<Longrightarrow> has_mediation ops m s = (Inr b, s') \<Longrightarrow> b = granted s m"
    and recipients_ok:
      "sinv s \<Longrightarrow> recipients ops m s = (Inr rs, s') \<Longrightarrow>
       sorted rs \<and> distinct rs \<and> set rs = {r. owner s r = Some m}"
    and mediation_of_ok: "sinv s \<Longrightarrow> mediation_of ops r s = (Inr o', s') \<Longrightarrow> o' = owner s r"
    and keep_enqueue:
      "sinv s \<Longrightarrow> s' = snd (enqueue ops m r t now lims s) \<Longrightarrow>
       sinv s' \<and> granted s' = granted s \<and> owner s' = owner s
       \<and> (\<forall>m'. m' \<noteq> m \<longrightarrow> queue s' m' = queue s m')
       \<and> set (live_part now (ql_ttl_secs lims) (queue s m)) \<subseteq> set (queue s' m)"
    and enqueue_ok:
      "sinv s \<Longrightarrow> enqueue ops m r t now lims s = (Inr (Some i), s') \<Longrightarrow>
       \<exists>q. queue s' m = live_part now (ql_ttl_secs lims) (queue s m) @ [q]
         \<and> q_id q = i \<and> q_recipient q = r \<and> q_message q = t"
    and keep_read:
      "sinv s \<Longrightarrow> s' \<in> {snd (summary ops m ro now ttl s), snd (peek ops m ro lim now ttl s)} \<Longrightarrow>
       sinv s' \<and> granted s' = granted s \<and> owner s' = owner s
       \<and> (\<forall>m'. m' \<noteq> m \<longrightarrow> queue s' m' = queue s m')
       \<and> (queue s' m = queue s m \<or> queue s' m = live_part now ttl (queue s m))"
    and peek_ok:
      "sinv s \<Longrightarrow> peek ops m ro lim now ttl s = (Inr qs, s') \<Longrightarrow>
       qs = take lim (matching ro (live_part now ttl (queue s m)))"
    and summary_ok:
      "sinv s \<Longrightarrow> summary ops m ro now ttl s = (Inr sm, s') \<Longrightarrow>
       qs_count sm = length (matching ro (live_part now ttl (queue s m)))"
    and keep_remove:
      "sinv s \<Longrightarrow> s' = snd (remove ops m ids s) \<Longrightarrow>
       sinv s' \<and> granted s' = granted s \<and> owner s' = owner s
       \<and> (\<forall>m'. m' \<noteq> m \<longrightarrow> queue s' m' = queue s m')
       \<and> (\<forall>q\<in>set (queue s m). q_id q \<notin> set ids \<longrightarrow> q \<in> set (queue s' m))"
    and remove_ok:
      "sinv s \<Longrightarrow> remove ops m ids s = (Inr n, s') \<Longrightarrow>
       queue s' m = filter (\<lambda>q. q_id q \<notin> set ids) (queue s m)"

end
