(* ===== verification/Protocols.thy ===== *)
theory Protocols
  imports Message Store_Spec
begin

text \<open>
  The protocols the mediator answers by itself, and the problems it reports:
  \<open>crates/mediator/src/dispatch/protocols.rs\<close>. \<open>Message::new\<close> draws a random id, so what builds a
  message is an action.
\<close>

definition PING :: string where
  "PING = ''https://didcomm.org/trust-ping/2.0/ping''"

definition PING_RESPONSE :: string where
  "PING_RESPONSE = ''https://didcomm.org/trust-ping/2.0/ping-response''"

definition QUERIES :: string where
  "QUERIES = ''https://didcomm.org/discover-features/2.0/queries''"

definition DISCLOSE :: string where
  "DISCLOSE = ''https://didcomm.org/discover-features/2.0/disclose''"

definition PROBLEM_REPORT :: string where
  "PROBLEM_REPORT = ''https://didcomm.org/report-problem/2.0/problem-report''"

definition COORDINATE_MEDIATION :: string where
  "COORDINATE_MEDIATION = ''https://didcomm.org/coordinate-mediation/3.0/''"

definition MEDIATE_REQUEST :: string where
  "MEDIATE_REQUEST = ''https://didcomm.org/coordinate-mediation/3.0/mediate-request''"

definition MEDIATE_GRANT :: string where
  "MEDIATE_GRANT = ''https://didcomm.org/coordinate-mediation/3.0/mediate-grant''"

definition RECIPIENT_UPDATE :: string where
  "RECIPIENT_UPDATE = ''https://didcomm.org/coordinate-mediation/3.0/recipient-update''"

definition RECIPIENT_UPDATE_RESPONSE :: string where
  "RECIPIENT_UPDATE_RESPONSE = ''https://didcomm.org/coordinate-mediation/3.0/recipient-update-response''"

definition RECIPIENT_QUERY :: string where
  "RECIPIENT_QUERY = ''https://didcomm.org/coordinate-mediation/3.0/recipient-query''"

definition RECIPIENT :: string where
  "RECIPIENT = ''https://didcomm.org/coordinate-mediation/3.0/recipient''"

definition PICKUP :: string where
  "PICKUP = ''https://didcomm.org/messagepickup/3.0/''"

definition STATUS_REQUEST :: string where
  "STATUS_REQUEST = ''https://didcomm.org/messagepickup/3.0/status-request''"

definition STATUS :: string where
  "STATUS = ''https://didcomm.org/messagepickup/3.0/status''"

definition DELIVERY_REQUEST :: string where
  "DELIVERY_REQUEST = ''https://didcomm.org/messagepickup/3.0/delivery-request''"

definition DELIVERY :: string where
  "DELIVERY = ''https://didcomm.org/messagepickup/3.0/delivery''"

definition MESSAGES_RECEIVED :: string where
  "MESSAGES_RECEIVED = ''https://didcomm.org/messagepickup/3.0/messages-received''"

definition LIVE_DELIVERY_CHANGE :: string where
  "LIVE_DELIVERY_CHANGE = ''https://didcomm.org/messagepickup/3.0/live-delivery-change''"

definition PUSH_FCM :: string where
  "PUSH_FCM = ''https://didcomm.org/push-notifications-fcm/1.0/''"

definition PUSH_APNS :: string where
  "PUSH_APNS = ''https://didcomm.org/push-notifications-apns/1.0/''"

definition SET_DEVICE_INFO :: string where
  "SET_DEVICE_INFO = ''set-device-info''"

definition GET_DEVICE_INFO :: string where
  "GET_DEVICE_INFO = ''get-device-info''"

definition DEVICE_INFO :: string where
  "DEVICE_INFO = ''device-info''"

definition ACK :: string where
  "ACK = ''https://didcomm.org/notification/1.0/ack''"

fun push_protocol :: "service \<Rightarrow> string" where
  "push_protocol Fcm = PUSH_FCM"
| "push_protocol Apns = PUSH_APNS"

lemmas protocol_names = PING_def PING_RESPONSE_def QUERIES_def DISCLOSE_def PROBLEM_REPORT_def
  COORDINATE_MEDIATION_def MEDIATE_REQUEST_def MEDIATE_GRANT_def RECIPIENT_UPDATE_def
  RECIPIENT_UPDATE_RESPONSE_def RECIPIENT_QUERY_def RECIPIENT_def PICKUP_def STATUS_REQUEST_def
  STATUS_def DELIVERY_REQUEST_def DELIVERY_def MESSAGES_RECEIVED_def LIVE_DELIVERY_CHANGE_def
  PUSH_FCM_def PUSH_APNS_def

text \<open>\<open>Message::new\<close>: a random id and the current time.\<close>

definition new_message :: "ext \<Rightarrow> u64 \<Rightarrow> string \<Rightarrow> json \<Rightarrow> (('r, 'z) node_scheme, 'e, message) act" where
  "new_message X now ty body = bind_act (draw_uuid X) (\<lambda>uid. return_act (message_new uid now ty body))"

section \<open>Features\<close>

record feature =
  ft_type :: string
  ft_id :: string
  ft_roles :: "string list"

definition FEATURES :: "feature list" where
  "FEATURES =
     [\<lparr>ft_type = ''protocol'', ft_id = ''https://didcomm.org/trust-ping/2.0'', ft_roles = [''receiver'']\<rparr>,
      \<lparr>ft_type = ''protocol'', ft_id = ''https://didcomm.org/discover-features/2.0'', ft_roles = [''responder'']\<rparr>,
      \<lparr>ft_type = ''protocol'', ft_id = ''https://didcomm.org/report-problem/2.0'', ft_roles = []\<rparr>,
      \<lparr>ft_type = ''protocol'', ft_id = ''https://didcomm.org/coordinate-mediation/3.0'', ft_roles = [''mediator'']\<rparr>,
      \<lparr>ft_type = ''protocol'', ft_id = ''https://didcomm.org/routing/2.0'', ft_roles = [''mediator'']\<rparr>,
      \<lparr>ft_type = ''protocol'', ft_id = ''https://didcomm.org/messagepickup/3.0'', ft_roles = [''mediator'']\<rparr>,
      \<lparr>ft_type = ''header'', ft_id = ''return_route'', ft_roles = []\<rparr>]"

definition trust_ping :: "ext \<Rightarrow> u64 \<Rightarrow> message \<Rightarrow> (('r, 'z) node_scheme, 'e, message option) act" where
  "trust_ping X now p =
     (let wanted = (case Option.bind (jget ''response_requested'' (m_body p)) as_bool of
          None \<Rightarrow> True | Some b \<Rightarrow> b)
      in if wanted
         then bind_act (new_message X now PING_RESPONSE (JObj [])) (\<lambda>m. return_act (Some (reply_to p m)))
         else return_act None)"

text \<open>\<open>*\<close> matches any run of characters; everything else matches literally.\<close>

function matches :: "string \<Rightarrow> string \<Rightarrow> bool" where
  "matches pattern v =
     (case split_once (CHR ''*'') pattern of
        None \<Rightarrow> pattern = v
      | Some (prefix, rest) \<Rightarrow>
          (case strip_prefix prefix v of
             None \<Rightarrow> False
           | Some tail \<Rightarrow>
               list_ex (\<lambda>i. is_char_boundary tail i \<and> matches rest (drop i tail)) [0..<Suc (length tail)]))"
  by pat_completeness auto

lemma split_once_shorter: "split_once c s = Some (a, b) \<Longrightarrow> length b < length s"
  by (induction s arbitrary: a b) (auto split: if_splits option.splits)

termination matches
  by (relation "measure (\<lambda>(p, _). length p)") (auto dest: split_once_shorter)

declare matches.simps [simp del]

definition feature_disclosure :: "feature \<Rightarrow> json" where
  "feature_disclosure f =
     (let d = JObj [(''feature-type'', JStr (ft_type f)), (''id'', JStr (ft_id f))]
      in if ft_roles f \<noteq> [] then jset ''roles'' (JArr (map JStr (ft_roles f))) d else d)"

datatype problem =
    UnsupportedType
  | InvalidBody
  | Expired
  | Unauthenticated
  | NoMediation
  | UnknownRecipientDid string
  | LiveModeNotSupported

text \<open>What one query discloses; the loop of \<open>discover_features\<close> concatenates them.\<close>

definition query_disclosures :: "nat \<Rightarrow> service list \<Rightarrow> json \<Rightarrow> problem + json list" where
  "query_disclosures max_receive_bytes push query =
     (case (jget_str ''feature-type'' query, jget_str ''match'' query) of
        (Some ty, Some pattern) \<Rightarrow>
          Inr (map feature_disclosure (filter (\<lambda>f. ft_type f = ty \<and> matches pattern (ft_id f)) FEATURES)
            @ (if ty = ''protocol'' then
                 map (\<lambda>i. JObj [(''feature-type'', JStr ''protocol''), (''id'', JStr i),
                     (''roles'', JArr [JStr ''notification-sender''])])
                   (filter (matches pattern) (map (\<lambda>s. trim_end_matches (CHR ''/'') (push_protocol s)) push))
               else [])
            @ (if ty = ''constraint'' \<and> matches pattern ''max_receive_bytes'' then
                 [JObj [(''feature-type'', JStr ''constraint''), (''id'', JStr ''max_receive_bytes''),
                    (''max_receive_bytes'', JStr (show_nat max_receive_bytes))]]
               else []))
      | _ \<Rightarrow> Inl InvalidBody)"

definition discover_features ::
  "ext \<Rightarrow> u64 \<Rightarrow> message \<Rightarrow> nat \<Rightarrow> service list \<Rightarrow> (('r, 'z) node_scheme, problem, message) act" where
  "discover_features X now request max_receive_bytes push =
     bind_act (lift_act (ok_or InvalidBody (Option.bind (jget ''queries'' (m_body request)) as_array))) (\<lambda>queries.
     bind_act (lift_act (mapM_res (query_disclosures max_receive_bytes push) queries)) (\<lambda>ds.
     bind_act (new_message X now DISCLOSE (JObj [(''disclosures'', JArr (concat ds))])) (\<lambda>m.
     return_act (reply_to request m))))"

section \<open>Problem reports\<close>

fun problem_code :: "problem \<Rightarrow> string" where
  "problem_code UnsupportedType = ''e.m.msg.unsupported-type''"
| "problem_code InvalidBody = ''e.m.msg.invalid-body''"
| "problem_code Expired = ''e.m.req.time.expired''"
| "problem_code Unauthenticated = ''e.m.trust.unauthenticated''"
| "problem_code NoMediation = ''e.m.req.no-mediation''"
| "problem_code (UnknownRecipientDid _) = ''e.m.msg.unknown-recipient''"
| "problem_code LiveModeNotSupported = ''e.m.live-mode-not-supported''"

fun problem_comment :: "problem \<Rightarrow> string" where
  "problem_comment UnsupportedType = ''Message type {1} is not supported.''"
| "problem_comment InvalidBody = ''The message body is not valid for its type.''"
| "problem_comment Expired = ''The message expired before it was processed.''"
| "problem_comment Unauthenticated = ''This message must be authcrypted by its sender.''"
| "problem_comment NoMediation = ''Request mediation first.''"
| "problem_comment (UnknownRecipientDid _) = ''Recipient DID {1} is not registered by this mediation.''"
| "problem_comment LiveModeNotSupported = ''Connection does not support Live Delivery''"

fun problem_args :: "problem \<Rightarrow> message \<Rightarrow> json \<Rightarrow> json" where
  "problem_args UnsupportedType trigger body = jset ''args'' (JArr [JStr (m_type trigger)]) body"
| "problem_args (UnknownRecipientDid did) trigger body = jset ''args'' (JArr [JStr did]) body"
| "problem_args _ trigger body = body"

definition report :: "ext \<Rightarrow> u64 \<Rightarrow> problem \<Rightarrow> message \<Rightarrow> (('r, 'z) node_scheme, 'e, message) act" where
  "report X now p trigger =
     bind_act (new_message X now PROBLEM_REPORT (problem_args p trigger
       (JObj [(''code'', JStr (problem_code p)), (''comment'', JStr (problem_comment p))]))) (\<lambda>m.
     return_act ((header ''ack'' (JArr [JStr (m_id trigger)]) m)\<lparr>m_pthid := Some (thid trigger)\<rparr>))"

section \<open>Matching a pattern\<close>

text \<open>The usual definition of wildcards, byte by byte.\<close>

fun glob :: "string \<Rightarrow> string \<Rightarrow> bool" where
  "glob [] v = (v = [])"
| "glob (c # p) [] = (c = CHR ''*'' \<and> glob p [])"
| "glob (c # p) (d # v) =
     (if c = CHR ''*'' then glob p (d # v) \<or> glob (c # p) v else c = d \<and> glob p v)"

lemma glob_append: "CHR ''*'' \<notin> set a \<Longrightarrow> glob (a @ p) v \<longleftrightarrow> (\<exists>t. v = a @ t \<and> glob p t)"
proof (induction a arbitrary: v)
  case (Cons c a)
  then show ?case by (cases v) auto
qed simp

lemma glob_star: "glob (CHR ''*'' # p) v \<longleftrightarrow> (\<exists>i\<le>length v. glob p (drop i v))"
proof (induction v)
  case (Cons d v)
  have "(\<exists>i\<le>length (d # v). glob p (drop i (d # v))) \<longleftrightarrow>
      glob p (d # v) \<or> (\<exists>i\<le>length v. glob p (drop i v))" (is "?l \<longleftrightarrow> ?r")
  proof
    assume ?l
    then obtain i where "i \<le> length (d # v)" "glob p (drop i (d # v))" by blast
    then show ?r by (cases i) auto
  next
    assume ?r
    then show ?l
    proof
      assume "\<exists>i\<le>length v. glob p (drop i v)"
      then obtain i where "i \<le> length v" "glob p (drop i v)" by blast
      then show ?l by (intro exI [of _ "Suc i"]) simp
    qed (auto intro: exI [of _ 0])
  qed
  with Cons show ?case by simp
qed auto

lemma glob_literal: "CHR ''*'' \<notin> set p \<Longrightarrow> glob p v \<longleftrightarrow> p = v"
  using glob_append [of p "[]" v] by auto

text \<open>
  No \<open>*\<close> is followed by the middle of a character: true of every text, since a continuation
  byte only follows another byte of its character.
\<close>

definition whole_chars :: "string \<Rightarrow> bool" where
  "whole_chars p \<longleftrightarrow> (\<forall>a b. p = a @ CHR ''*'' # b \<longrightarrow> b \<noteq> [] \<longrightarrow> \<not> is_cont (of_char (hd b)))"

lemma glob_at_boundary:
  assumes "r = [] \<or> \<not> is_cont (of_char (hd r))" "i \<le> length t" "glob r (drop i t)"
  shows "\<exists>j\<le>length t. is_char_boundary t j \<and> glob r (drop j t)"
proof (cases r)
  case Nil
  with assms have "i = length t" by simp
  with assms show ?thesis by (auto simp: is_char_boundary_def)
next
  case (Cons c r')
  show ?thesis
  proof (cases "c = CHR ''*''")
    case True
    then obtain k where "k \<le> length (drop i t)" "glob r' (drop k (drop i t))"
      using assms Cons glob_star [of r' "drop i t"] by auto
    then have "glob r (drop 0 t)" using True Cons assms(2) glob_star [of r' t]
      by (auto simp: add.commute intro!: exI [of _ "k + i"])
    then show ?thesis by (intro exI [of _ 0]) (auto simp: is_char_boundary_def)
  next
    case False
    with assms Cons obtain t' where "drop i t = c # t'" by (cases "drop i t") auto
    then have "t ! i = c" "i < length t" by (metis hd_drop_conv_nth list.sel(1) drop_all list.distinct(1) not_le)+
    then have "is_char_boundary t i" using assms(1) Cons by (simp add: is_char_boundary_def)
    then show ?thesis using assms(2,3) by blast
  qed
qed

text \<open>C26: Matching a Discover Features query is the usual wildcard matching: \<open>*\<close> stands for any
  run of characters and everything else for itself, for every value and every pattern that is
  a text. Stepping over the value by characters, as the code does, loses no match.\<close>

theorem matches_is_glob:
  assumes "whole_chars pattern"
  shows "matches pattern v \<longleftrightarrow> glob pattern v"
  using assms
proof (induction pattern v rule: matches.induct)
  case (1 pattern v)
  show ?case
  proof (cases "split_once (CHR ''*'') pattern")
    case None
    then have "CHR ''*'' \<notin> set pattern" by (simp add: split_once_None)
    then show ?thesis using None by (simp add: matches.simps [of pattern] glob_literal)
  next
    case (Some pr)
    then obtain a r where s: "split_once (CHR ''*'') pattern = Some (a, r)" by (cases pr) auto
    then have p: "pattern = a @ CHR ''*'' # r" "CHR ''*'' \<notin> set a" by (auto simp: split_once_Some)
    have w: "whole_chars r" using 1(2) p(1) unfolding whole_chars_def by (metis append_Cons append_assoc)
    have r: "r = [] \<or> \<not> is_cont (of_char (hd r))" using 1(2) p(1) unfolding whole_chars_def by blast
    show ?thesis
    proof (cases "strip_prefix a v")
      case None
      then have "\<nexists>t. v = a @ t" using strip_prefix_append by (metis option.distinct(1))
      then have "\<not> glob pattern v" using p glob_append by blast
      then show ?thesis using s None by (simp add: matches.simps [of pattern])
    next
      case (Some t)
      have v: "v = a @ t" using Some by (simp add: strip_prefix_Some)
      have IH: "i < Suc (length t) \<Longrightarrow> matches r (drop i t) = glob r (drop i t)" for i
        using 1(1) [OF s refl Some _ w, of i] by (simp add: less_Suc_eq disj_commute)
      have "matches pattern v \<longleftrightarrow> (\<exists>i\<le>length t. is_char_boundary t i \<and> glob r (drop i t))"
      proof -
        have "list_ex (\<lambda>i. is_char_boundary t i \<and> matches r (drop i t)) [0..<Suc (length t)]
            \<longleftrightarrow> (\<exists>i<Suc (length t). is_char_boundary t i \<and> glob r (drop i t))"
          using IH unfolding list_ex_iff set_upt by (metis atLeastLessThan_iff zero_le)
        then show ?thesis using s Some by (simp add: matches.simps [of pattern] less_Suc_eq_le del: upt_Suc)
      qed
      also have "\<dots> \<longleftrightarrow> (\<exists>i\<le>length t. glob r (drop i t))" using glob_at_boundary [OF r] by blast
      also have "\<dots> \<longleftrightarrow> glob pattern v"
        unfolding p(1) glob_append [OF p(2)] glob_star [symmetric] v by simp
      finally show ?thesis .
    qed
  qed
qed

lemma whole_chars_ascii: "list_all (\<lambda>c. (of_char c :: nat) < 128) p \<Longrightarrow> whole_chars p"
  by (auto simp: whole_chars_def is_cont_def list_all_iff neq_Nil_conv)

theorem matches_is_glob_witness:
  "matches ''https://didcomm.org/*/2.0'' ''https://didcomm.org/routing/2.0''
   \<and> \<not> matches ''return'' ''return_route''"
proof -
  have "glob ''https://didcomm.org/*/2.0'' ''https://didcomm.org/routing/2.0''" "\<not> glob ''return'' ''return_route''"
    by (simp_all)
  moreover have "whole_chars ''https://didcomm.org/*/2.0''" "whole_chars ''return''"
    by (rule whole_chars_ascii, simp)+
  ultimately show ?thesis using matches_is_glob by simp
qed

end
