(* ===== verification/Live.thy ===== *)
theory Live
  imports Store_Spec
begin

text \<open>
  Live delivery: \<open>crates/mediator/src/dispatch/live.rs\<close>. A session is a WebSocket that can get
  messages as they are queued. Each session has one bounded channel, which the hub keeps by
  session id: its buffer, and whether the receiving side is still there. The subscriber lists
  hold session ids; the clone of the sender that the code stores beside the id is the session's
  channel.
\<close>

definition BUFFER :: nat where
  "BUFFER = 64"

record session =
  ss_id :: u64
  ss_live :: "string option"

record channel =
  ch_buffer :: "queued list"
  ch_open :: bool

record live_hub =
  next_id :: u64
  hub_poisoned :: bool
  sessions :: "string \<rightharpoonup> u64 list"
  channels :: "u64 \<rightharpoonup> channel"

definition hub_new :: live_hub where
  "hub_new = \<lparr>next_id = 0, hub_poisoned = False, sessions = Map.empty, channels = Map.empty\<rparr>"

definition is_live_for :: "session \<Rightarrow> string \<Rightarrow> bool" where
  "is_live_for s m \<longleftrightarrow> ss_live s = Some m"

definition hub_open :: "live_hub \<Rightarrow> session \<times> live_hub" where
  "hub_open h =
     (\<lparr>ss_id = next_id h, ss_live = None\<rparr>,
      h\<lparr>next_id := next_id h + 1,
        channels := (channels h)(next_id h \<mapsto> \<lparr>ch_buffer = [], ch_open = True\<rparr>)\<rparr>)"

definition hub_disable :: "session \<Rightarrow> live_hub \<Rightarrow> session \<times> live_hub" where
  "hub_disable s h =
     (case ss_live s of
        None \<Rightarrow> (s, h)
      | Some m \<Rightarrow>
          (s\<lparr>ss_live := None\<rparr>,
           if hub_poisoned h then h
           else case sessions h m of
             None \<Rightarrow> h
           | Some ids \<Rightarrow>
               (let ids' = filter (\<lambda>i. i \<noteq> ss_id s) ids
                in h\<lparr>sessions := (if ids' = [] then (sessions h)(m := None)
                       else (sessions h)(m \<mapsto> ids'))\<rparr>)))"

definition hub_enable :: "session \<Rightarrow> string \<Rightarrow> live_hub \<Rightarrow> session \<times> live_hub" where
  "hub_enable s m h =
     (case hub_disable s h of
        (s, h) \<Rightarrow>
          if hub_poisoned h then (s, h)
          else (s\<lparr>ss_live := Some m\<rparr>,
            h\<lparr>sessions := (sessions h)(m \<mapsto>
              (case sessions h m of None \<Rightarrow> [] | Some ids \<Rightarrow> ids) @ [ss_id s])\<rparr>))"

definition is_live :: "live_hub \<Rightarrow> string \<Rightarrow> bool" where
  "is_live h m \<longleftrightarrow> \<not> hub_poisoned h \<and> (case sessions h m of None \<Rightarrow> False | Some ids \<Rightarrow> ids \<noteq> [])"

text \<open>\<open>try_send\<close>: what it does to the channel, and whether the subscriber is kept.\<close>

definition try_send :: "queued \<Rightarrow> channel \<Rightarrow> channel \<times> bool" where
  "try_send q c =
     (if \<not> ch_open c then (c, False)
      else if length (ch_buffer c) < BUFFER then (c\<lparr>ch_buffer := ch_buffer c @ [q]\<rparr>, True)
      else (c, True))"

fun notify_list :: "queued \<Rightarrow> u64 list \<Rightarrow> (u64 \<rightharpoonup> channel) \<Rightarrow> u64 list \<times> (u64 \<rightharpoonup> channel)" where
  "notify_list q [] chans = ([], chans)"
| "notify_list q (i # ids) chans =
     (case chans i of
        None \<Rightarrow> notify_list q ids chans
      | Some c \<Rightarrow>
          (case try_send q c of
             (c', keep) \<Rightarrow>
               (case notify_list q ids (chans(i \<mapsto> c')) of
                  (ids', chans') \<Rightarrow> (if keep then i # ids' else ids', chans'))))"

definition notify :: "string \<Rightarrow> queued \<Rightarrow> live_hub \<Rightarrow> live_hub" where
  "notify m q h =
     (if hub_poisoned h then h
      else case sessions h m of
        None \<Rightarrow> h
      | Some ids \<Rightarrow>
          (case notify_list q ids (channels h) of
             (ids', chans') \<Rightarrow> h\<lparr>sessions := (sessions h)(m \<mapsto> ids'), channels := chans'\<rparr>))"

text \<open>The connection task reads its channel, and drops the receiver when it ends.\<close>

definition recv :: "u64 \<Rightarrow> live_hub \<Rightarrow> queued option \<times> live_hub" where
  "recv i h =
     (case channels h i of
        Some c \<Rightarrow>
          (case ch_buffer c of
             [] \<Rightarrow> (None, h)
           | q # qs \<Rightarrow> (Some q, h\<lparr>channels := (channels h)(i \<mapsto> c\<lparr>ch_buffer := qs\<rparr>)\<rparr>))
      | None \<Rightarrow> (None, h))"

definition drop_receiver :: "u64 \<Rightarrow> live_hub \<Rightarrow> live_hub" where
  "drop_receiver i h =
     (case channels h i of
        Some c \<Rightarrow> h\<lparr>channels := (channels h)(i \<mapsto> c\<lparr>ch_open := False\<rparr>)\<rparr>
      | None \<Rightarrow> h)"

section \<open>The hub and its sessions\<close>

definition subscribers :: "live_hub \<Rightarrow> string \<Rightarrow> u64 list" where
  "subscribers h m = (case sessions h m of None \<Rightarrow> [] | Some ids \<Rightarrow> ids)"

text \<open>
  The hub agrees with the open sessions \<open>S\<close>: a session is on the list of a mediation exactly when
  it is live for it, and once; it has a channel with a receiver; no buffer is over its bound; and
  session ids are fresh.
\<close>

definition hub_ok :: "session set \<Rightarrow> live_hub \<Rightarrow> bool" where
  "hub_ok S h \<longleftrightarrow> \<not> hub_poisoned h
     \<and> (\<forall>m. distinct (subscribers h m))
     \<and> (\<forall>s\<in>S. \<forall>m. ss_id s \<in> set (subscribers h m) \<longleftrightarrow> ss_live s = Some m)
     \<and> (\<forall>s\<in>S. \<forall>t\<in>S. ss_id s = ss_id t \<longrightarrow> s = t)
     \<and> (\<forall>s\<in>S. \<exists>c. channels h (ss_id s) = Some c \<and> ch_open c)
     \<and> (\<forall>m i. i \<in> set (subscribers h m) \<longrightarrow> channels h i \<noteq> None)
     \<and> (\<forall>i c. channels h i = Some c \<longrightarrow> i < next_id h \<and> length (ch_buffer c) \<le> BUFFER)"

text \<open>What connections do to the hub.\<close>

inductive hub_step :: "session set \<times> live_hub \<Rightarrow> session set \<times> live_hub \<Rightarrow> bool" where
  conn_open: "hub_open h = (s, h') \<Longrightarrow> unat (next_id h) + 1 < 2 ^ 64 \<Longrightarrow> hub_step (S, h) (insert s S, h')"
| conn_enable: "s \<in> S \<Longrightarrow> hub_enable s m h = (s', h') \<Longrightarrow> hub_step (S, h) (insert s' (S - {s}), h')"
| conn_disable: "s \<in> S \<Longrightarrow> hub_disable s h = (s', h') \<Longrightarrow> hub_step (S, h) (insert s' (S - {s}), h')"
| conn_close: "s \<in> S \<Longrightarrow> hub_disable s h = (s', h') \<Longrightarrow> hub_step (S, h) (S - {s}, drop_receiver (ss_id s) h')"
| conn_notify: "hub_step (S, h) (S, notify m q h)"
| conn_recv: "recv i h = (r, h') \<Longrightarrow> hub_step (S, h) (S, h')"

lemma try_send_buffer: "length (ch_buffer c) \<le> BUFFER \<Longrightarrow> length (ch_buffer (fst (try_send q c))) \<le> BUFFER"
  by (simp add: try_send_def)

lemma subscribers_disable:
  assumes "\<not> hub_poisoned h"
  shows "subscribers (snd (hub_disable s h)) m =
    (if ss_live s = Some m then filter (\<lambda>i. i \<noteq> ss_id s) (subscribers h m) else subscribers h m)"
  using assms by (auto simp: hub_disable_def subscribers_def Let_def split: option.splits)

lemma hub_disable_simps [simp]:
  "channels (snd (hub_disable s h)) = channels h" "hub_poisoned (snd (hub_disable s h)) = hub_poisoned h"
  "next_id (snd (hub_disable s h)) = next_id h"
  "ss_id (fst (hub_disable s h)) = ss_id s" "ss_live (fst (hub_disable s h)) = None"
  by (auto simp: hub_disable_def Let_def split: option.splits)

lemma subscribers_enable:
  assumes "\<not> hub_poisoned h"
  shows "subscribers (snd (hub_enable s m h)) m' =
      subscribers (snd (hub_disable s h)) m' @ (if m' = m then [ss_id s] else [])"
  using assms
  by (auto simp: hub_enable_def subscribers_def split_beta split: option.splits)

lemma hub_enable_simps [simp]:
  "channels (snd (hub_enable s m h)) = channels h" "ss_id (fst (hub_enable s m h)) = ss_id s"
  by (auto simp: hub_enable_def split_beta)

lemma hub_enable_live: "\<not> hub_poisoned h \<Longrightarrow> ss_live (fst (hub_enable s m h)) = Some m"
  by (simp add: hub_enable_def split_beta)

lemma hub_okI:
  assumes "\<not> hub_poisoned h" "\<And>m. distinct (subscribers h m)"
    and "\<And>s m. s \<in> S \<Longrightarrow> ss_id s \<in> set (subscribers h m) \<longleftrightarrow> ss_live s = Some m"
    and "\<And>s t. s \<in> S \<Longrightarrow> t \<in> S \<Longrightarrow> ss_id s = ss_id t \<Longrightarrow> s = t"
    and "\<And>s. s \<in> S \<Longrightarrow> \<exists>c. channels h (ss_id s) = Some c \<and> ch_open c"
    and "\<And>m i. i \<in> set (subscribers h m) \<Longrightarrow> channels h i \<noteq> None"
    and "\<And>i c. channels h i = Some c \<Longrightarrow> i < next_id h"
    and "\<And>i c. channels h i = Some c \<Longrightarrow> length (ch_buffer c) \<le> BUFFER"
  shows "hub_ok S h"
  using assms unfolding hub_ok_def by (intro conjI ballI allI impI) auto

lemma hub_okD:
  assumes "hub_ok S h"
  shows "\<not> hub_poisoned h" "distinct (subscribers h m)"
    and "s \<in> S \<Longrightarrow> ss_id s \<in> set (subscribers h m) \<longleftrightarrow> ss_live s = Some m"
    and "s \<in> S \<Longrightarrow> t \<in> S \<Longrightarrow> ss_id s = ss_id t \<Longrightarrow> s = t"
    and "s \<in> S \<Longrightarrow> \<exists>c. channels h (ss_id s) = Some c \<and> ch_open c"
    and "i \<in> set (subscribers h m) \<Longrightarrow> channels h i \<noteq> None"
    and "channels h i = Some c \<Longrightarrow> i < next_id h"
    and "channels h i = Some c \<Longrightarrow> length (ch_buffer c) \<le> BUFFER"
  using assms unfolding hub_ok_def by blast+

lemma hub_step_open:
  assumes ok: "hub_ok S h" and o: "hub_open h = (s, h')" and n: "unat (next_id h) + 1 < 2 ^ 64"
  shows "hub_ok (insert s S) h'"
proof -
  have lt: "i < next_id h \<Longrightarrow> i < next_id h + 1" for i
    using n by (simp add: word_less_nat_alt unat_word_ariths)
  have new: "next_id h < next_id h + 1" using n by (simp add: word_less_nat_alt unat_word_ariths)
  have fresh: "channels h (next_id h) = None" using hub_okD(7) [OF ok, of "next_id h"] by (cases "channels h (next_id h)") auto
  have s: "s = \<lparr>ss_id = next_id h, ss_live = None\<rparr>"
    and h': "h' = h\<lparr>next_id := next_id h + 1,
        channels := (channels h)(next_id h \<mapsto> \<lparr>ch_buffer = [], ch_open = True\<rparr>)\<rparr>"
    using o by (auto simp: hub_open_def)
  have subs: "subscribers h' m = subscribers h m" for m by (simp add: h' subscribers_def)
  have notin: "next_id h \<notin> set (subscribers h m)" for m using hub_okD(6) [OF ok] fresh by blast
  have other: "t \<in> S \<Longrightarrow> ss_id t \<noteq> next_id h" for t using hub_okD(5) [OF ok, of t] fresh by auto
  show ?thesis
  proof (rule hub_okI, goal_cases)
    case 1 then show ?case using hub_okD(1) [OF ok] by (simp add: h')
  next
    case 2 then show ?case using hub_okD(2) [OF ok] by (simp add: subs)
  next
    case (3 t m) then show ?case using hub_okD(3) [OF ok] notin by (auto simp: subs s)
  next
    case (4 t u) then show ?case using hub_okD(4) [OF ok, of t u] other [of t] other [of u] by (auto simp: s)
  next
    case (5 t) then show ?case using hub_okD(5) [OF ok] by (auto simp: s h')
  next
    case (6 m i)
    then have "channels h i \<noteq> None" using hub_okD(6) [OF ok, of i m] by (auto simp: subs)
    then show ?case by (simp add: h')
  next
    case (7 i c) then show ?case using hub_okD(7) [OF ok] lt new by (auto simp: h' split: if_splits)
  next
    case (8 i c) then show ?case using hub_okD(8) [OF ok] by (auto simp: h' split: if_splits)
  qed
qed

text \<open>Replacing a session by its new version, when only its own subscriptions changed.\<close>

lemma hub_ok_replace:
  assumes ok: "hub_ok S h" and s: "s \<in> S" and ids: "ss_id s' = ss_id s"
    and chan: "channels h' = channels h" "next_id h' = next_id h" "hub_poisoned h' = hub_poisoned h"
    and subs: "\<And>m. distinct (subscribers h' m)"
      "\<And>m i. i \<noteq> ss_id s \<Longrightarrow> i \<in> set (subscribers h' m) \<longleftrightarrow> i \<in> set (subscribers h m)"
      "\<And>m. ss_id s \<in> set (subscribers h' m) \<longleftrightarrow> ss_live s' = Some m"
  shows "hub_ok (insert s' (S - {s})) h'"
proof -
  have other: "t \<in> S - {s} \<Longrightarrow> ss_id t \<noteq> ss_id s" for t using hub_okD(4) [OF ok, of t s] s by blast
  show ?thesis
  proof (rule hub_okI, goal_cases)
    case 1 then show ?case using hub_okD(1) [OF ok] by (simp add: chan)
  next
    case 2 then show ?case by (rule subs(1))
  next
    case (3 t m)
    show ?case
    proof (cases "t = s'")
      case True then show ?thesis using subs(3) [of m] ids by simp
    next
      case False
      with 3 have t: "t \<in> S - {s}" by blast
      then show ?thesis using subs(2) [OF other [OF t], of m] hub_okD(3) [OF ok, of t m] by blast
    qed
  next
    case (4 t u)
    then have "t \<in> S - {s} \<and> u \<in> S - {s} \<or> t = s' \<and> u = s'" using other ids by (metis insert_iff)
    then show ?case using hub_okD(4) [OF ok, of t u] 4(3) by blast
  next
    case (5 t) then show ?case using hub_okD(5) [OF ok, of t] hub_okD(5) [OF ok s] ids by (auto simp: chan)
  next
    case (6 m i)
    then show ?case using hub_okD(5) [OF ok s] hub_okD(6) [OF ok, of i m] subs(2) [of i m] by (auto simp: chan)
  next
    case (7 i c) then show ?case using hub_okD(7) [OF ok] by (simp add: chan)
  next
    case (8 i c) then show ?case using hub_okD(8) [OF ok] by (simp add: chan)
  qed
qed

lemma subscribers_disable_self:
  assumes "hub_ok S h" "s \<in> S"
  shows "subscribers (snd (hub_disable s h)) m = filter (\<lambda>i. i \<noteq> ss_id s) (subscribers h m)"
proof (cases "ss_live s = Some m")
  case False
  then have "ss_id s \<notin> set (subscribers h m)" using hub_okD(3) [OF assms] by simp
  then have "filter (\<lambda>i. i \<noteq> ss_id s) (subscribers h m) = subscribers h m" by (intro filter_True) auto
  then show ?thesis using False hub_okD(1) [OF assms(1)] by (simp add: subscribers_disable)
qed (use hub_okD(1) [OF assms(1)] in \<open>simp add: subscribers_disable\<close>)

lemma hub_step_disable:
  assumes "hub_ok S h" "s \<in> S" "hub_disable s h = (s', h')"
  shows "hub_ok (insert s' (S - {s})) h'"
proof -
  have "hub_ok (insert (fst (hub_disable s h)) (S - {s})) (snd (hub_disable s h))"
    by (rule hub_ok_replace [OF assms(1,2)])
      (simp_all add: subscribers_disable_self [OF assms(1,2)] hub_okD(2) [OF assms(1)])
  then show ?thesis using assms(3) by simp
qed

lemma next_id_enable [simp]: "next_id (snd (hub_enable s m h)) = next_id h"
  "hub_poisoned (snd (hub_enable s m h)) = hub_poisoned h"
  by (auto simp: hub_enable_def split_beta)

lemma hub_step_enable:
  assumes "hub_ok S h" "s \<in> S" "hub_enable s m h = (s', h')"
  shows "hub_ok (insert s' (S - {s})) h'"
proof -
  have np: "\<not> hub_poisoned h" using hub_okD(1) [OF assms(1)] .
  have subs: "subscribers (snd (hub_enable s m h)) m' =
      filter (\<lambda>i. i \<noteq> ss_id s) (subscribers h m') @ (if m' = m then [ss_id s] else [])" for m'
    by (simp add: subscribers_enable [OF np] subscribers_disable_self [OF assms(1,2)])
  have "hub_ok (insert (fst (hub_enable s m h)) (S - {s})) (snd (hub_enable s m h))"
    by (rule hub_ok_replace [OF assms(1,2)])
      (auto simp: subs hub_okD(2) [OF assms(1)] hub_enable_live [OF np])
  then show ?thesis using assms(3) by simp
qed

lemma hub_ok_subset: "hub_ok S h \<Longrightarrow> T \<subseteq> S \<Longrightarrow> hub_ok T h"
  unfolding hub_ok_def by blast

text \<open>The channels may change as long as ids, bounds and the sessions' receivers stay.\<close>

lemma hub_ok_channels:
  assumes ok: "hub_ok S h" and h': "next_id h' = next_id h" "hub_poisoned h' = hub_poisoned h"
    and subs: "\<And>m. distinct (subscribers h' m)" "\<And>m. set (subscribers h' m) \<subseteq> set (subscribers h m)"
      "\<And>s m. s \<in> S \<Longrightarrow> ss_id s \<in> set (subscribers h m) \<Longrightarrow> ss_id s \<in> set (subscribers h' m)"
    and dom: "\<And>i. channels h' i = None \<longleftrightarrow> channels h i = None"
    and bound: "\<And>i c. channels h' i = Some c \<Longrightarrow> length (ch_buffer c) \<le> BUFFER"
    and opn: "\<And>s. s \<in> S \<Longrightarrow> \<exists>c. channels h' (ss_id s) = Some c \<and> ch_open c"
  shows "hub_ok S h'"
proof (rule hub_okI, goal_cases)
  case 1 then show ?case using hub_okD(1) [OF ok] by (simp add: h')
next
  case 2 then show ?case by (rule subs(1))
next
  case (3 s m) then show ?case using subs(2) [of m] subs(3) [of s m] hub_okD(3) [OF ok, of s m] by blast
next
  case (4 s t) then show ?case using hub_okD(4) [OF ok] by blast
next
  case (5 s) then show ?case by (rule opn)
next
  case (6 m i)
  then have "channels h i \<noteq> None" using subs(2) [of m] hub_okD(6) [OF ok, of i m] by blast
  then show ?case using dom [of i] by simp
next
  case (7 i c)
  then obtain c' where "channels h i = Some c'" using dom [of i] by (cases "channels h i") auto
  then show ?case using hub_okD(7) [OF ok] by (simp add: h')
next
  case (8 i c) then show ?case by (rule bound)
qed

lemma hub_step_close:
  assumes "hub_ok S h" "s \<in> S" "hub_disable s h = (s', h')"
  shows "hub_ok (S - {s}) (drop_receiver (ss_id s) h')"
proof -
  have ok: "hub_ok (S - {s}) h'" using hub_step_disable [OF assms] hub_ok_subset by blast
  have other: "ss_id t \<noteq> ss_id s" if "t \<in> S - {s}" for t using that hub_okD(4) [OF assms(1), of t s] assms(2) by blast
  have subs: "subscribers (drop_receiver (ss_id s) h') m = subscribers h' m" for m
    by (simp add: drop_receiver_def subscribers_def split: option.splits)
  have fld: "next_id (drop_receiver (ss_id s) h') = next_id h'" "hub_poisoned (drop_receiver (ss_id s) h') = hub_poisoned h'"
    by (simp_all add: drop_receiver_def split: option.splits)
  have ch: "channels (drop_receiver (ss_id s) h') i =
      (if i = ss_id s then map_option (\<lambda>c. c\<lparr>ch_open := False\<rparr>) (channels h' i) else channels h' i)" for i
    by (simp add: drop_receiver_def split: option.splits)
  show ?thesis
  proof (rule hub_ok_channels [OF ok], goal_cases)
    case (7 i c) then show ?case using hub_okD(8) [OF ok, of i] by (auto simp: ch split: if_splits)
  next
    case (8 t) then show ?case using hub_okD(5) [OF ok, of t] other [of t] by (simp add: ch)
  qed (auto simp: fld subs hub_okD(2) [OF ok] ch)
qed

lemma hub_step_recv:
  assumes ok: "hub_ok S h" and r: "recv i h = (r, h')"
  shows "hub_ok S h'"
proof (cases "\<exists>c q qs. channels h i = Some c \<and> ch_buffer c = q # qs")
  case True
  then obtain c q qs where c: "channels h i = Some c" "ch_buffer c = q # qs" by blast
  then have h': "h' = h\<lparr>channels := (channels h)(i \<mapsto> c\<lparr>ch_buffer := qs\<rparr>)\<rparr>" using r by (simp add: recv_def)
  have subs: "subscribers h' m = subscribers h m" for m by (simp add: h' subscribers_def)
  have fld: "next_id h' = next_id h" "hub_poisoned h' = hub_poisoned h"
    "channels h' = (channels h)(i \<mapsto> c\<lparr>ch_buffer := qs\<rparr>)" by (simp_all add: h')
  show ?thesis
  proof (rule hub_ok_channels [OF ok], goal_cases)
    case (7 j d) then show ?case using hub_okD(8) [OF ok, of j] c by (auto simp: fld split: if_splits)
  next
    case (8 t) then show ?case using hub_okD(5) [OF ok, of t] c by (auto simp: fld)
  qed (auto simp: fld subs hub_okD(2) [OF ok] c)
next
  case False
  then have "h' = h" using r by (auto simp: recv_def split: option.splits list.splits)
  then show ?thesis using ok by simp
qed

lemma notify_list_spec:
  assumes "notify_list q ids chans = (ids', chans')" "distinct ids"
  shows "distinct ids' \<and> set ids' \<subseteq> set ids
    \<and> (\<forall>i. chans' i = (if i \<in> set ids then map_option (\<lambda>c. fst (try_send q c)) (chans i) else chans i))
    \<and> (\<forall>i c. i \<in> set ids \<and> chans i = Some c \<and> ch_open c \<longrightarrow> i \<in> set ids')"
  using assms
proof (induction q ids chans arbitrary: ids' chans' rule: notify_list.induct)
  case (2 q i ids chans)
  show ?case
  proof (cases "chans i")
    case None
    with 2 show ?thesis by auto
  next
    case (Some c)
    obtain c' keep where t: "try_send q c = (c', keep)" by (cases "try_send q c")
    obtain js ch where n: "notify_list q ids (chans(i \<mapsto> c')) = (js, ch)"
      by (cases "notify_list q ids (chans(i \<mapsto> c'))")
    have IH: "distinct js \<and> set js \<subseteq> set ids
        \<and> (\<forall>j. ch j = (if j \<in> set ids then map_option (\<lambda>c. fst (try_send q c)) ((chans(i \<mapsto> c')) j) else (chans(i \<mapsto> c')) j))
        \<and> (\<forall>j d. j \<in> set ids \<and> (chans(i \<mapsto> c')) j = Some d \<and> ch_open d \<longrightarrow> j \<in> set js)"
      using 2(2) [OF Some t [symmetric] n] 2(4) by simp
    have "ids' = (if keep then i # js else js)" "chans' = ch" using 2(3) Some t n by auto
    moreover have "ch_open c \<Longrightarrow> keep" using t by (auto simp: try_send_def split: if_splits)
    ultimately show ?thesis using IH 2(4) Some t by auto
  qed
qed simp

lemma hub_step_notify:
  assumes ok: "hub_ok S h"
  shows "hub_ok S (notify m q h)"
proof (cases "sessions h m")
  case None
  then show ?thesis using ok by (simp add: notify_def)
next
  case (Some ids)
  obtain ids' ch where n: "notify_list q ids (channels h) = (ids', ch)" by (cases "notify_list q ids (channels h)")
  have ids: "subscribers h m = ids" using Some by (simp add: subscribers_def)
  have spec: "distinct ids' \<and> set ids' \<subseteq> set ids
    \<and> (\<forall>i. ch i = (if i \<in> set ids then map_option (\<lambda>c. fst (try_send q c)) (channels h i) else channels h i))
    \<and> (\<forall>i c. i \<in> set ids \<and> channels h i = Some c \<and> ch_open c \<longrightarrow> i \<in> set ids')"
    using notify_list_spec [OF n] hub_okD(2) [OF ok, of m] ids by simp
  have h': "notify m q h = h\<lparr>sessions := (sessions h)(m \<mapsto> ids'), channels := ch\<rparr>"
    using Some n hub_okD(1) [OF ok] by (simp add: notify_def)
  have subs: "subscribers (notify m q h) m' = (if m' = m then ids' else subscribers h m')" for m'
    by (simp add: h' subscribers_def)
  have flds: "next_id (notify m q h) = next_id h" "hub_poisoned (notify m q h) = hub_poisoned h" "channels (notify m q h) = ch"
    by (simp_all add: h')
  have op: "ch_open (fst (try_send q c)) = ch_open c" for c by (simp add: try_send_def)
  show ?thesis
  proof (rule hub_ok_channels [OF ok], goal_cases)
    case (5 s m') then show ?case using spec hub_okD(5) [OF ok, of s] ids by (auto simp: subs)
  next
    case (7 i c)
    then show ?case using spec hub_okD(8) [OF ok, of i] try_send_buffer by (auto simp: flds split: if_splits)
  next
    case (8 s) then show ?case using spec hub_okD(5) [OF ok, of s] by (auto simp: flds op)
  qed (use spec ids in \<open>auto simp: subs hub_okD(2) [OF ok] flds\<close>)
qed

lemma hub_step_ok: "hub_step p p' \<Longrightarrow> hub_ok (fst p) (snd p) \<Longrightarrow> hub_ok (fst p') (snd p')"
  by (induction rule: hub_step.induct)
    (auto intro: hub_step_open hub_step_enable hub_step_disable hub_step_close hub_step_notify hub_step_recv)

lemma hub_ok_new: "hub_ok {} hub_new"
  by (simp add: hub_ok_def hub_new_def subscribers_def)

lemma hub_reachable_ok: "hub_step\<^sup>*\<^sup>* p p' \<Longrightarrow> hub_ok (fst p) (snd p) \<Longrightarrow> hub_ok (fst p') (snd p')"
  by (induction rule: rtranclp_induct) (auto intro: hub_step_ok)

lemma notify_channels:
  assumes ok: "hub_ok S h"
  shows "channels (notify m q h) i =
    (if i \<in> set (subscribers h m) then map_option (\<lambda>c. fst (try_send q c)) (channels h i) else channels h i)"
proof (cases "sessions h m")
  case (Some ids)
  obtain ids' ch where n: "notify_list q ids (channels h) = (ids', ch)" by (cases "notify_list q ids (channels h)")
  show ?thesis using notify_list_spec [OF n] hub_okD(1) [OF ok] hub_okD(2) [OF ok, of m] Some n
    by (simp add: notify_def subscribers_def)
qed (use hub_okD(1) [OF ok] in \<open>simp add: notify_def subscribers_def\<close>)

section \<open>Claims\<close>

text \<open>C21: Whatever connections do, a session that is still open is on the subscriber list of a
  mediation exactly when it is live for it, and at most once: enabling moves it, disabling and
  closing take it off, so a push is never sent twice or for an account the session left. No
  channel ever holds more than \<open>BUFFER\<close> messages.\<close>

theorem live_sessions_subscribed:
  assumes "hub_step\<^sup>*\<^sup>* ({}, hub_new) (S, h)" "s \<in> S"
  shows "(ss_id s \<in> set (subscribers h m) \<longleftrightarrow> is_live_for s m) \<and> distinct (subscribers h m)
    \<and> (is_live_for s m \<longrightarrow> is_live h m)
    \<and> (\<forall>i c. channels h i = Some c \<longrightarrow> length (ch_buffer c) \<le> BUFFER)"
proof -
  have ok: "hub_ok S h" using hub_reachable_ok [OF assms(1)] hub_ok_new by simp
  have "is_live h m" if "ss_id s \<in> set (subscribers h m)"
    using that hub_okD(1) [OF ok] by (cases "sessions h m") (auto simp: is_live_def subscribers_def)
  then show ?thesis using hub_okD(3) [OF ok assms(2)] hub_okD(2,8) [OF ok] by (auto simp: is_live_for_def)
qed

theorem live_sessions_subscribed_witness:
  "\<exists>S h s. s \<in> S \<and> is_live_for s ''did:a'' \<and> is_live h ''did:a''"
proof -
  define s where "s = fst (hub_open hub_new)"
  define h where "h = snd (hub_open hub_new)"
  have "hub_open hub_new = (s, h)" by (simp add: s_def h_def)
  then have 1: "hub_step ({}, hub_new) ({s}, h)" by (intro conn_open) (simp_all add: hub_new_def)
  have 2: "hub_step ({s}, h) ({fst (hub_enable s ''did:a'' h)}, snd (hub_enable s ''did:a'' h))"
    using conn_enable [of s "{s}" "''did:a''" h] by simp
  let ?s = "fst (hub_enable s ''did:a'' h)" and ?h = "snd (hub_enable s ''did:a'' h)"
  have "hub_step\<^sup>*\<^sup>* ({}, hub_new) ({?s}, ?h)" using 1 2 by simp
  moreover have "is_live_for ?s ''did:a''"
    by (simp add: s_def h_def hub_open_def hub_new_def hub_enable_def hub_disable_def is_live_for_def)
  ultimately show ?thesis using live_sessions_subscribed [of "{?s}" ?h ?s "''did:a''"] by blast
qed

text \<open>C24: Announcing a queued message reaches every open session that is live for that mediation,
  at the end of its channel, unless the channel is full, in which case it is dropped for that
  session; the channels of all other sessions are untouched.\<close>

theorem notify_reaches_live_sessions:
  assumes "hub_ok S h" "s \<in> S" "channels h (ss_id s) = Some c"
  shows "channels (notify m q h) (ss_id s) =
    Some (if is_live_for s m \<and> length (ch_buffer c) < BUFFER then c\<lparr>ch_buffer := ch_buffer c @ [q]\<rparr> else c)"
proof -
  have "ch_open c" using hub_okD(5) [OF assms(1,2)] assms(3) by simp
  then show ?thesis using hub_okD(3) [OF assms(1,2), of m] assms(3)
    by (simp add: notify_channels [OF assms(1)] is_live_for_def try_send_def)
qed

definition sample_hub :: live_hub where
  "sample_hub = snd (hub_enable (fst (hub_open hub_new)) ''did:a'' (snd (hub_open hub_new)))"

theorem notify_reaches_live_sessions_witness:
  "channels (notify ''did:a'' \<lparr>q_id = ''x'', q_recipient = ''did:r'', q_received = 0, q_message = ''m''\<rparr> sample_hub) 0 =
     Some \<lparr>ch_buffer = [\<lparr>q_id = ''x'', q_recipient = ''did:r'', q_received = 0, q_message = ''m''\<rparr>], ch_open = True\<rparr>"
proof -
  let ?s = "\<lparr>ss_id = 0, ss_live = Some ''did:a''\<rparr>"
  have "hub_ok {?s} sample_hub"
    by (auto simp: hub_ok_def sample_hub_def hub_open_def hub_new_def hub_enable_def hub_disable_def
        subscribers_def BUFFER_def)
  moreover have "channels sample_hub 0 = Some \<lparr>ch_buffer = [], ch_open = True\<rparr>"
    by (simp add: sample_hub_def hub_open_def hub_new_def hub_enable_def hub_disable_def)
  ultimately show ?thesis
    using notify_reaches_live_sessions [of "{?s}" sample_hub ?s "\<lparr>ch_buffer = [], ch_open = True\<rparr>" "''did:a''"]
    by (simp add: is_live_for_def BUFFER_def)
qed

end
