(* ===== verification/Metrics.thy ===== *)
theory Metrics
  imports Store_Spec
begin

text \<open>
  The process's counters: \<open>crates/mediator/src/metrics.rs\<close>. The arrays indexed by an enumeration
  are functions of it; a counter is a \<open>u64\<close> and \<open>fetch_add\<close> wraps. Serving them over HTTP is not
  modelled; the exposition text is.
\<close>

datatype via = Http | WebSocket
datatype message_outcome = MoAccepted | MoReply | MoRejected
datatype forward_result = FwQueued | FwRelayed | FwRelayScheduled | FwRelayDropped | FwRefused
datatype retry_result = RtDelivered | RtRescheduled | RtAbandoned
datatype push_result = PuDelivered | PuInvalidToken | PuFailed

record metrics =
  mt_messages :: "via \<Rightarrow> message_outcome \<Rightarrow> u64"
  mt_rate_limited :: u64
  mt_forwards :: "forward_result \<Rightarrow> u64"
  mt_relay_retries :: "retry_result \<Rightarrow> u64"
  mt_pushes :: "service \<Rightarrow> push_result \<Rightarrow> u64"
  mt_live_sessions :: u64
  mt_mediations_granted :: u64
  mt_mediations_removed :: u64

definition metrics_new :: metrics where
  "metrics_new = \<lparr>mt_messages = (\<lambda>_ _. 0), mt_rate_limited = 0, mt_forwards = (\<lambda>_. 0),
     mt_relay_retries = (\<lambda>_. 0), mt_pushes = (\<lambda>_ _. 0), mt_live_sessions = 0,
     mt_mediations_granted = 0, mt_mediations_removed = 0\<rparr>"

definition count_message :: "via \<Rightarrow> message_outcome \<Rightarrow> metrics \<Rightarrow> metrics" where
  "count_message t oc x = x\<lparr>mt_messages := (mt_messages x)(t := (mt_messages x t)(oc := mt_messages x t oc + 1))\<rparr>"

definition count_rate_limited :: "metrics \<Rightarrow> metrics" where
  "count_rate_limited x = x\<lparr>mt_rate_limited := mt_rate_limited x + 1\<rparr>"

definition count_forward :: "forward_result \<Rightarrow> u64 \<Rightarrow> metrics \<Rightarrow> metrics" where
  "count_forward f n x = x\<lparr>mt_forwards := (mt_forwards x)(f := mt_forwards x f + n)\<rparr>"

definition count_relay_retry :: "retry_result \<Rightarrow> metrics \<Rightarrow> metrics" where
  "count_relay_retry r x = x\<lparr>mt_relay_retries := (mt_relay_retries x)(r := mt_relay_retries x r + 1)\<rparr>"

definition count_push :: "service \<Rightarrow> push_result \<Rightarrow> metrics \<Rightarrow> metrics" where
  "count_push sv p x = x\<lparr>mt_pushes := (mt_pushes x)(sv := (mt_pushes x sv)(p := mt_pushes x sv p + 1))\<rparr>"

definition live_session_opened :: "metrics \<Rightarrow> metrics" where
  "live_session_opened x = x\<lparr>mt_live_sessions := mt_live_sessions x + 1\<rparr>"

definition live_session_closed :: "metrics \<Rightarrow> metrics" where
  "live_session_closed x = x\<lparr>mt_live_sessions := mt_live_sessions x - 1\<rparr>"

definition count_mediation_granted :: "metrics \<Rightarrow> metrics" where
  "count_mediation_granted x = x\<lparr>mt_mediations_granted := mt_mediations_granted x + 1\<rparr>"

definition count_mediations_removed :: "u64 \<Rightarrow> metrics \<Rightarrow> metrics" where
  "count_mediations_removed n x = x\<lparr>mt_mediations_removed := mt_mediations_removed x + n\<rparr>"

section \<open>The exposition text\<close>

definition newline :: string where
  "newline = [char_of (10 :: nat)]"

definition quoted :: "string \<Rightarrow> string" where
  "quoted t = [char_of (34 :: nat)] @ t @ [char_of (34 :: nat)]"

definition show_i64 :: "u64 \<Rightarrow> string" where
  "show_i64 w = (if sint w < 0 then ''-'' @ show_nat (nat (- sint w)) else show_nat (nat (sint w)))"

definition TRANSPORTS :: "(via \<times> string) list" where
  "TRANSPORTS = [(Http, ''http''), (WebSocket, ''websocket'')]"

definition OUTCOMES :: "(message_outcome \<times> string) list" where
  "OUTCOMES = [(MoAccepted, ''accepted''), (MoReply, ''reply''), (MoRejected, ''rejected'')]"

definition FORWARDS :: "(forward_result \<times> string) list" where
  "FORWARDS = [(FwQueued, ''queued''), (FwRelayed, ''relayed''), (FwRelayScheduled, ''relay_scheduled''),
     (FwRelayDropped, ''relay_dropped''), (FwRefused, ''refused'')]"

definition RETRIES :: "(retry_result \<times> string) list" where
  "RETRIES = [(RtDelivered, ''delivered''), (RtRescheduled, ''rescheduled''), (RtAbandoned, ''abandoned'')]"

definition SERVICES :: "(service \<times> string) list" where
  "SERVICES = [(Fcm, ''fcm''), (Apns, ''apns'')]"

definition PUSHES :: "(push_result \<times> string) list" where
  "PUSHES = [(PuDelivered, ''delivered''), (PuInvalidToken, ''invalid_token''), (PuFailed, ''failed'')]"

definition family :: "string \<Rightarrow> string \<Rightarrow> string \<Rightarrow> string" where
  "family name knd help =
     ''# HELP '' @ name @ '' '' @ help @ newline @ ''# TYPE '' @ name @ '' '' @ knd @ newline"

definition sample :: "string \<Rightarrow> (string \<times> string) list \<Rightarrow> string \<Rightarrow> string" where
  "sample name labels v =
     name @ (if labels = [] then []
             else ''{'' @ join '','' (map (\<lambda>(k, l). k @ ''='' @ quoted l) labels) @ ''}'')
       @ '' '' @ v @ newline"

definition render :: "string \<Rightarrow> metrics \<Rightarrow> string" where
  "render version x =
     family ''almena_mediator_info'' ''gauge'' ''The running mediator.''
     @ sample ''almena_mediator_info'' [(''version'', version)] ''1''
     @ family ''almena_didcomm_messages_total'' ''counter'' ''DIDComm messages received, by transport and outcome.''
     @ concat (map (\<lambda>(t, tn). concat (map (\<lambda>(oc, on).
         sample ''almena_didcomm_messages_total'' [(''transport'', tn), (''outcome'', on)]
           (show_u64 (mt_messages x t oc))) OUTCOMES)) TRANSPORTS)
     @ family ''almena_rate_limited_total'' ''counter''
         ''Requests and WebSocket messages refused by the per-IP rate limit.''
     @ sample ''almena_rate_limited_total'' [] (show_u64 (mt_rate_limited x))
     @ family ''almena_forwards_total'' ''counter'' ''Forwarded payloads, by what became of them.''
     @ concat (map (\<lambda>(f, n). sample ''almena_forwards_total'' [(''result'', n)] (show_u64 (mt_forwards x f))) FORWARDS)
     @ family ''almena_relay_retries_total'' ''counter'' ''Retries of relays to other mediators, by result.''
     @ concat (map (\<lambda>(r, n). sample ''almena_relay_retries_total'' [(''result'', n)]
         (show_u64 (mt_relay_retries x r))) RETRIES)
     @ family ''almena_pushes_total'' ''counter'' ''Push wake-ups, by service and result.''
     @ concat (map (\<lambda>(sv, sn). concat (map (\<lambda>(p, n).
         sample ''almena_pushes_total'' [(''service'', sn), (''result'', n)] (show_u64 (mt_pushes x sv p))) PUSHES)) SERVICES)
     @ family ''almena_live_sessions'' ''gauge'' ''WebSocket sessions open now.''
     @ sample ''almena_live_sessions'' [] (show_i64 (mt_live_sessions x))
     @ family ''almena_mediations_granted_total'' ''counter''
         ''mediate-request messages granted (a repeated request counts again).''
     @ sample ''almena_mediations_granted_total'' [] (show_u64 (mt_mediations_granted x))
     @ family ''almena_mediations_removed_total'' ''counter''
         ''Mediations removed for being idle longer than ALMENA_MEDIATION_TTL.''
     @ sample ''almena_mediations_removed_total'' [] (show_u64 (mt_mediations_removed x))"

end
