(* ===== verification/Mediator.thy ===== *)
theory Mediator
  imports Unpack Protocols Live Metrics
begin

text \<open>
  The mediator's identity (\<open>crates/mediator/src/identity.rs\<close>) and the state its handlers share
  (\<open>dispatch/mod.rs\<close>). A handler is an action on a \<open>world\<close>: the node of the DIDComm library
  extended with the store, the hub of live sessions, the session of the connection the message
  came on, the background tasks that were spawned and the counters. The store, the transport to
  other mediators and the pusher are the trait objects of \<open>Mediator\<close>: records of operations. The
  clock is read once per handled message (\<open>now\<close>).
\<close>

section \<open>Identity\<close>

definition DIDCOMM_PATH :: string where
  "DIDCOMM_PATH = ''/didcomm''"

definition WS_PATH :: string where
  "WS_PATH = ''/ws''"

record mediator_keys =
  mk_ed25519 :: secret_key
  mk_x25519 :: secret_key
  mk_p384 :: secret_key

record identity =
  id_did :: string
  id_document :: did_document
  id_secrets :: secrets

definition keys_generate :: "ext \<Rightarrow> (('r, 'z) node_scheme, error, mediator_keys) act" where
  "keys_generate X =
     bind_act (generate X Ed25519) (\<lambda>ed.
     bind_act (generate X X25519) (\<lambda>x.
     bind_act (generate X P384) (\<lambda>p.
     return_act \<lparr>mk_ed25519 = ed, mk_x25519 = x, mk_p384 = p\<rparr>)))"

text \<open>\<open>str::trim_start_matches\<close> with a string pattern.\<close>

function trim_start_matches :: "string \<Rightarrow> string \<Rightarrow> string" where
  "trim_start_matches p s =
     (if p \<noteq> [] \<and> starts_with s p then trim_start_matches p (drop (length p) s) else s)"
  by pat_completeness auto

termination trim_start_matches
  by (relation "measure (\<lambda>(p, s). length s)") (auto simp: starts_with_iff)

declare trim_start_matches.simps [simp del]

definition own_method :: "ext \<Rightarrow> string \<Rightarrow> string \<Rightarrow> secret_key \<Rightarrow> verification_method" where
  "own_method X did fragment key =
     \<lparr>vm_id = did @ ''#'' @ fragment, vm_controller = did, vm_key = public_key_of X key\<rparr>"

definition own_service :: "string \<Rightarrow> string \<Rightarrow> service_entry" where
  "own_service did public_url =
     \<lparr>sv_id = did @ ''#didcomm'', sv_kind = ''DIDCommMessaging'',
      sv_endpoint = JArr [
        JObj [(''uri'', JStr (public_url @ DIDCOMM_PATH)), (''accept'', JArr [JStr ''didcomm/v2''])],
        JObj [(''uri'', JStr (''ws'' @ trim_start_matches ''http'' public_url @ WS_PATH)),
              (''accept'', JArr [JStr ''didcomm/v2''])]]\<rparr>"

definition identity_new :: "ext \<Rightarrow> mediator_keys \<Rightarrow> string \<Rightarrow> error + identity" where
  "identity_new X keys public_url =
     bind_res (did_from_origin public_url) (\<lambda>did.
     let kid = (\<lambda>fragment. did @ ''#'' @ fragment) in
     Inr \<lparr>
       id_did = did,
       id_document = default_document\<lparr>
         d_id := did,
         d_verification_method := [own_method X did ''key-ed25519'' (mk_ed25519 keys),
           own_method X did ''key-x25519'' (mk_x25519 keys), own_method X did ''key-p384'' (mk_p384 keys)],
         d_authentication := [kid ''key-ed25519''],
         d_assertion_method := [kid ''key-ed25519''],
         d_key_agreement := [kid ''key-x25519'', kid ''key-p384''],
         d_service := [own_service did public_url]\<rparr>,
       id_secrets = in_memory_secrets [kid ''key-ed25519'' \<mapsto> mk_ed25519 keys,
         kid ''key-x25519'' \<mapsto> mk_x25519 keys, kid ''key-p384'' \<mapsto> mk_p384 keys]\<rparr>)"

definition ephemeral :: "ext \<Rightarrow> string \<Rightarrow> (('r, 'z) node_scheme, error, identity) act" where
  "ephemeral X public_url =
     bind_act (keys_generate X) (\<lambda>keys. lift_act (identity_new X keys public_url))"

section \<open>The mediator and its state\<close>

record limits =
  lm_max_message_bytes :: nat
  lm_queue :: queue_limits
  lm_max_recipient_dids :: nat
  lm_push_min_interval_secs :: u64
  lm_recipient_proof :: bool
  lm_mediation_ttl_secs :: u64

datatype outcome = Accepted | OutcomeReply string

datatype receive_error =
    UnpackError error
  | BadForward string
  | UnknownRecipient
  | QueueFull
  | StoreError string

datatype handled = HReply message | HProblem problem | HNothing

record 'n transport =
  tp_get_json :: "string \<Rightarrow> 'n \<Rightarrow> (string + json) \<times> 'n"
  tp_post_didcomm :: "string \<Rightarrow> string \<Rightarrow> 'n \<Rightarrow> (string + unit) \<times> 'n"

datatype sent = Delivered | InvalidToken

record 'n pusher =
  ps_services :: "service list"
  ps_wake :: "service \<Rightarrow> string \<Rightarrow> 'n \<Rightarrow> (string + sent) \<times> 'n"

record ('n, 's) mediator =
  md_ext :: ext
  md_identity :: identity
  md_store :: "'s store_ops"
  md_limits :: limits
  md_transport :: "'n transport option"
  md_pusher :: "'n pusher option"

text \<open>What \<open>tokio::spawn\<close> starts: a push wake-up of a mediation, or a delivery to another mediator.\<close>

datatype task = WakeTask string u64 | DeliverTask string string

record ('n, 's) world = "'n resolvers node" +
  w_store :: 's
  w_hub :: live_hub
  w_session :: "session option"
  w_tasks :: "task list"
  w_metrics :: metrics

definition md_resolver :: "('n, 's) mediator \<Rightarrow> 'n resolvers resolver" where
  "md_resolver md = mediator_resolver (md_ext md) (id_document (md_identity md))
     (map_option tp_get_json (md_transport md))"

section \<open>Acting on a part of the world\<close>

definition on_store :: "('s, 'e, 'a) act \<Rightarrow> (('n, 's) world, 'e, 'a) act" where
  "on_store f w = (case f (w_store w) of (r, s) \<Rightarrow> (r, w\<lparr>w_store := s\<rparr>))"

definition on_net :: "('n \<Rightarrow> ('e + 'a) \<times> 'n) \<Rightarrow> (('n, 's) world, 'e, 'a) act" where
  "on_net f w =
     (case f (wr_net (rs_web (resolver_state w))) of
        (r, n) \<Rightarrow> (r, w\<lparr>resolver_state := (resolver_state w)\<lparr>rs_web := (rs_web (resolver_state w))\<lparr>wr_net := n\<rparr>\<rparr>\<rparr>))"

definition count :: "(metrics \<Rightarrow> metrics) \<Rightarrow> (('n, 's) world, 'e, unit) act" where
  "count f w = (Inr (), w\<lparr>w_metrics := f (w_metrics w)\<rparr>)"

definition spawn :: "task \<Rightarrow> (('n, 's) world, 'e, unit) act" where
  "spawn t w = (Inr (), w\<lparr>w_tasks := w_tasks w @ [t]\<rparr>)"

definition hub_notify :: "string \<Rightarrow> queued \<Rightarrow> (('n, 's) world, 'e, unit) act" where
  "hub_notify m q w = (Inr (), w\<lparr>w_hub := notify m q (w_hub w)\<rparr>)"

section \<open>Waking, picking up, sessions\<close>

definition md_wake :: "('n, 's) mediator \<Rightarrow> string \<Rightarrow> (('n, 's) world, 'e, unit) act" where
  "md_wake md mediation w =
     (case md_pusher md of
        None \<Rightarrow> (Inr (), w)
      | Some _ \<Rightarrow>
          if is_live (w_hub w) mediation then (Inr (), w)
          else spawn (WakeTask mediation (ql_ttl_secs (lm_queue (md_limits md)))) w)"

definition picked_up :: "('n, 's) mediator \<Rightarrow> u64 \<Rightarrow> string \<Rightarrow> (('n, 's) world, string, unit) act" where
  "picked_up md now mediation =
     (case md_pusher md of
        Some _ \<Rightarrow> on_store (release_push (md_store md) mediation now (lm_push_min_interval_secs (md_limits md)))
      | None \<Rightarrow> return_act ())"

definition open_session :: "(('n, 's) world, 'e, session) act" where
  "open_session w =
     (case hub_open (w_hub w) of
        (s, h) \<Rightarrow> (Inr s, w\<lparr>w_metrics := live_session_opened (w_metrics w), w_hub := h, w_session := Some s\<rparr>))"

definition close_session :: "session \<Rightarrow> (('n, 's) world, 'e, session) act" where
  "close_session s w =
     (case hub_disable s (w_hub w) of
        (s', h) \<Rightarrow> (Inr s', w\<lparr>w_metrics := live_session_closed (w_metrics w), w_hub := h\<rparr>))"

text \<open>\<open>enable\<close> and \<open>disable\<close> on the session of this connection.\<close>

definition session_enable :: "session \<Rightarrow> string \<Rightarrow> (('n, 's) world, 'e, unit) act" where
  "session_enable s m w =
     (case hub_enable s m (w_hub w) of (s', h) \<Rightarrow> (Inr (), w\<lparr>w_session := Some s', w_hub := h\<rparr>))"

definition session_disable :: "session \<Rightarrow> (('n, 's) world, 'e, unit) act" where
  "session_disable s w =
     (case hub_disable s (w_hub w) of (s', h) \<Rightarrow> (Inr (), w\<lparr>w_session := Some s', w_hub := h\<rparr>))"

end
