(* ===== verification/Relay.thy ===== *)
theory Relay
  imports Mediator
begin

text \<open>
  Federation: \<open>crates/mediator/src/dispatch/relay.rs\<close>. A forward payload for a party that is not
  mediated here goes to its own mediator; what cannot be delivered at once is stored and
  retried with backoff.
\<close>

definition BACKOFF :: "u64 list" where
  "BACKOFF = [5, 30, 120, 600]"

definition MAX_PENDING :: nat where
  "MAX_PENDING = 1000"

definition LEASE_SECS :: u64 where
  "LEASE_SECS = 60"

definition BATCH :: nat where
  "BATCH = 16"

definition own_endpoints :: "('n, 's) mediator \<Rightarrow> string list" where
  "own_endpoints md =
     filter (\<lambda>uri. ends_with uri DIDCOMM_PATH)
       (map ep_uri (concat (map
         (\<lambda>s. case didcomm_endpoints (md_ext md) s of Inr es \<Rightarrow> es | Inl _ \<Rightarrow> [])
         (didcomm_services (id_document (md_identity md))))))"

definition relay_id :: "ext \<Rightarrow> string \<Rightarrow> string \<Rightarrow> string" where
  "relay_id X uri message = b64_encode X (sha256 X (uri @ [char_of (0 :: nat)] @ message))"

text \<open>First attempt now; on failure, stored for \<open>retry_due\<close>.\<close>

definition deliver ::
  "('n, 's) mediator \<Rightarrow> 'n transport \<Rightarrow> u64 \<Rightarrow> string \<Rightarrow> string \<Rightarrow> (('n, 's) world, 'e, unit) act" where
  "deliver md tp now uri message =
     bind_act (catch_act (on_net (tp_post_didcomm tp uri message))) (\<lambda>r.
     case r of
       Inr _ \<Rightarrow> count (count_forward FwRelayed 1)
     | Inl _ \<Rightarrow>
         bind_act (catch_act (on_store (schedule_relay (md_store md)
             \<lparr>pr_id = relay_id (md_ext md) uri message, pr_uri = uri, pr_message = message, pr_retries = 0\<rparr>
             (now + BACKOFF ! 0) MAX_PENDING))) (\<lambda>s.
         case s of
           Inr True \<Rightarrow> count (count_forward FwRelayScheduled 1)
         | _ \<Rightarrow> count (count_forward FwRelayDropped 1)))"

definition relay_one ::
  "('n, 's) mediator \<Rightarrow> 'n transport \<Rightarrow> u64 \<Rightarrow> string \<Rightarrow> string \<Rightarrow> (('n, 's) world, receive_error, unit) act" where
  "relay_one md tp now nxt payload =
     bind_act (map_err_act (\<lambda>_. UnknownRecipient)
       (route (md_ext md) now payload nxt (md_resolver md) A256CbcHs512)) (\<lambda>routed.
     case rt_service_uri routed of
       None \<Rightarrow> throw_act UnknownRecipient
     | Some uri \<Rightarrow>
         if map_option did_of (rt_first_hop routed) = Some (id_did (md_identity md))
           \<or> uri \<in> set (own_endpoints md)
         then throw_act UnknownRecipient
         else deliver md tp now uri (rt_message routed))"

definition relay ::
  "('n, 's) mediator \<Rightarrow> u64 \<Rightarrow> string \<Rightarrow> string list \<Rightarrow> (('n, 's) world, receive_error, unit) act" where
  "relay md now nxt payloads =
     (case md_transport md of
        None \<Rightarrow> throw_act UnknownRecipient
      | Some tp \<Rightarrow> for_act payloads (relay_one md tp now nxt))"

text \<open>One relay of a round of retries.\<close>

definition retry_one ::
  "('n, 's) mediator \<Rightarrow> 'n transport \<Rightarrow> u64 \<Rightarrow> pending_relay \<Rightarrow> (('n, 's) world, string, unit) act" where
  "retry_one md tp now r =
     bind_act (catch_act (on_net (tp_post_didcomm tp (pr_uri r) (pr_message r)))) (\<lambda>res.
     case res of
       Inr _ \<Rightarrow>
         bind_act (count (count_relay_retry RtDelivered)) (\<lambda>_.
         on_store (finish_relay (md_store md) (pr_id r)))
     | Inl _ \<Rightarrow>
         (let nxt = unat (pr_retries r) + 1 in
          if nxt < length BACKOFF then
            bind_act (count (count_relay_retry RtRescheduled)) (\<lambda>_.
            bind_act (on_store (schedule_relay (md_store md) (r\<lparr>pr_retries := pr_retries r + 1\<rparr>)
              (now + BACKOFF ! nxt) MAX_PENDING)) (\<lambda>_. return_act ()))
          else
            bind_act (count (count_relay_retry RtAbandoned)) (\<lambda>_.
            on_store (finish_relay (md_store md) (pr_id r)))))"

definition retry_due ::
  "('n, 's) mediator \<Rightarrow> 'n transport \<Rightarrow> u64 \<Rightarrow> (('n, 's) world, string, unit) act" where
  "retry_due md tp now =
     bind_act (on_store (due_relays (md_store md) now LEASE_SECS BATCH)) (\<lambda>rs.
     for_act rs (retry_one md tp now))"

end
