(* ===== verification/Mediation.thy ===== *)
theory Mediation
  imports Relay
begin

text \<open>
  Coordinate Mediation 3.0 and Routing 2.0 \<open>forward\<close>:
  \<open>crates/mediator/src/dispatch/mediation.rs\<close>.
\<close>

definition PROOF_MAX_AGE_SECS :: u64 where
  "PROOF_MAX_AGE_SECS = 300"

definition PROOF_MAX_SKEW_SECS :: u64 where
  "PROOF_MAX_SKEW_SECS = 60"

definition is_did :: "string \<Rightarrow> bool" where
  "is_did v \<longleftrightarrow> starts_with v ''did:'' \<and> length v > 4 \<and> did_of v = v"

definition dids :: "string list \<Rightarrow> json" where
  "dids l = JArr (map (\<lambda>did. JObj [(''recipient_did'', JStr did)]) l)"

definition check_proof ::
  "('n, 's) mediator \<Rightarrow> u64 \<Rightarrow> string \<Rightarrow> string \<Rightarrow> json \<Rightarrow> (('n, 's) world, string, unit) act" where
  "check_proof md now requester did update =
     (if \<not> lm_recipient_proof (md_limits md) \<or> did = requester then return_act ()
      else
        bind_act (lift_act (ok_or ''no proof'' (jget_str ''proof'' update))) (\<lambda>token.
        bind_act (map_err_act (\<lambda>_. ''proof does not verify'')
          (possession_unpack (md_ext md) token (md_resolver md))) (\<lambda>proof.
        if pp_iss proof \<noteq> did then throw_act ''proof is for another DID''
        else if pp_aud proof \<noteq> id_did (md_identity md) then throw_act ''proof is for another mediator''
        else if pp_sub proof \<noteq> requester then throw_act ''proof is for another mediation''
        else if pp_iat proof + PROOF_MAX_AGE_SECS < now \<or> now + PROOF_MAX_SKEW_SECS < pp_iat proof
        then throw_act ''proof is not recent''
        else return_act ())))"

text \<open>The result of one element of \<open>updates\<close>.\<close>

fun add_result :: "add_recipient \<Rightarrow> string" where
  "add_result Added = ''success''"
| "add_result AlreadyYours = ''no_change''"
| "add_result TakenByOther = ''client_error''"
| "add_result LimitReached = ''client_error''"

fun remove_result :: "remove_recipient \<Rightarrow> string" where
  "remove_result Removed = ''success''"
| "remove_result NotRegistered = ''no_change''"
| "remove_result NotYours = ''client_error''"

definition or_default :: "string option \<Rightarrow> string" where
  "or_default v = (case v of Some s \<Rightarrow> s | None \<Rightarrow> [])"

definition update_result ::
  "('n, 's) mediator \<Rightarrow> u64 \<Rightarrow> string \<Rightarrow> json \<Rightarrow> string \<Rightarrow> string \<Rightarrow> (('n, 's) world, string, string) act" where
  "update_result md now requester update did action =
     (if \<not> is_did did then return_act ''client_error''
      else
        bind_act (if action = ''add'' then catch_act (check_proof md now requester did update)
                  else return_act (Inr ())) (\<lambda>checked.
        case checked of
          Inl _ \<Rightarrow> return_act ''client_error''
        | Inr _ \<Rightarrow>
            if action = ''add'' then
              bind_act (on_store (store_ops.add_recipient (md_store md) requester did
                (lm_max_recipient_dids (md_limits md)))) (\<lambda>a. return_act (add_result a))
            else if action = ''remove'' then
              bind_act (on_store (store_ops.remove_recipient (md_store md) requester did))
                (\<lambda>r. return_act (remove_result r))
            else return_act ''client_error''))"

definition recipient_update ::
  "('n, 's) mediator \<Rightarrow> u64 \<Rightarrow> string \<Rightarrow> json \<Rightarrow> (('n, 's) world, string, json) act" where
  "recipient_update md now requester update =
     (let did = or_default (jget_str ''recipient_did'' update);
          action = or_default (jget_str ''action'' update)
      in bind_act (update_result md now requester update did action) (\<lambda>result.
         return_act (JObj [(''recipient_did'', JStr did), (''action'', JStr action), (''result'', JStr result)])))"

text \<open>\<open>usize\<close> is 64 bits wide: \<open>usize::try_from\<close> of a \<open>u64\<close> does not fail.\<close>

definition page_of :: "string list \<Rightarrow> u64 \<Rightarrow> u64 \<Rightarrow> nat \<times> string list" where
  "page_of allr limit offset =
     (let off = min (unat offset) (length allr);
          lim = unat limit
      in (off, take (min (min (off + lim) usize_MAX) (length allr) - off) (drop off allr)))"

definition query_body :: "string list \<Rightarrow> json \<Rightarrow> json option" where
  "query_body allr body =
     (case jget ''paginate'' body of
        None \<Rightarrow> Some (JObj [(''dids'', dids allr)])
      | Some paginate \<Rightarrow>
          (case (Option.bind (jget ''limit'' paginate) as_u64, Option.bind (jget ''offset'' paginate) as_u64) of
             (Some limit, Some offset) \<Rightarrow>
               (case page_of allr limit offset of (off, page) \<Rightarrow>
                 Some (JObj [(''dids'', dids page), (''pagination'', JObj [
                   (''count'', JNat (length page)),
                   (''offset'', JNat off),
                   (''remaining'', JNat (length allr - off - length page))])]))
           | _ \<Rightarrow> None))"

definition mediation_handle ::
  "('n, 's) mediator \<Rightarrow> u64 \<Rightarrow> string \<Rightarrow> message \<Rightarrow> (('n, 's) world, string, handled) act" where
  "mediation_handle md now requester m =
     (if m_type m = MEDIATE_REQUEST then
        bind_act (on_store (grant_mediation (md_store md) requester now)) (\<lambda>_.
        bind_act (count count_mediation_granted) (\<lambda>_.
        bind_act (new_message (md_ext md) now MEDIATE_GRANT
          (JObj [(''routing_did'', JArr [JStr (id_did (md_identity md))])])) (\<lambda>grant.
        return_act (HReply (reply_to m grant)))))
      else if m_type m = RECIPIENT_UPDATE then
        bind_act (on_store (has_mediation (md_store md) requester)) (\<lambda>has.
        if \<not> has then return_act (HProblem NoMediation)
        else case Option.bind (jget ''updates'' (m_body m)) as_array of
          None \<Rightarrow> return_act (HProblem InvalidBody)
        | Some updates \<Rightarrow>
            bind_act (mapM_act (recipient_update md now requester) updates) (\<lambda>updated.
            bind_act (new_message (md_ext md) now RECIPIENT_UPDATE_RESPONSE
              (JObj [(''updated'', JArr updated)])) (\<lambda>r.
            return_act (HReply (reply_to m r)))))
      else if m_type m = RECIPIENT_QUERY then
        bind_act (on_store (has_mediation (md_store md) requester)) (\<lambda>has.
        if \<not> has then return_act (HProblem NoMediation)
        else
          bind_act (on_store (recipients (md_store md) requester)) (\<lambda>allr.
          case query_body allr (m_body m) of
            None \<Rightarrow> return_act (HProblem InvalidBody)
          | Some body \<Rightarrow>
              bind_act (new_message (md_ext md) now RECIPIENT body) (\<lambda>r.
              return_act (HReply (reply_to m r)))))
      else return_act (HProblem UnsupportedType))"

section \<open>forward\<close>

text \<open>The text of one attachment, which must be an encrypted message.\<close>

definition payload_of :: "ext \<Rightarrow> attachment \<Rightarrow> receive_error + string" where
  "payload_of X a =
     bind_res (case ad_json (at_data a) of
         Some v \<Rightarrow> Inr (json_print X v)
       | None \<Rightarrow>
           (case ad_base64 (at_data a) of
              Some b \<Rightarrow>
                bind_res (map_err (\<lambda>_. BadForward ''attachment is not base64url'') (b64_decode X b)) (\<lambda>bs.
                ok_or (BadForward ''attachment is not UTF-8'') (from_utf8 bs))
            | None \<Rightarrow> Inl (BadForward ''only json and base64 attachments are supported''))) (\<lambda>payload.
     bind_res (map_err (\<lambda>_. BadForward ''attachment is not an encrypted DIDComm message'') (jwe_parse X payload)) (\<lambda>_.
     Inr payload))"

text \<open>Queues one encrypted message and pushes it to the live sessions.\<close>

definition queue_message ::
  "('n, 's) mediator \<Rightarrow> u64 \<Rightarrow> string \<Rightarrow> string \<Rightarrow> string \<Rightarrow> (('n, 's) world, receive_error, unit) act" where
  "queue_message md now mediation recipient payload =
     bind_act (map_err_act StoreError (on_store (enqueue (md_store md) mediation recipient payload now
       (lm_queue (md_limits md))))) (\<lambda>r.
     bind_act (lift_act (ok_or QueueFull r)) (\<lambda>i.
     hub_notify mediation \<lparr>q_id = i, q_recipient = recipient, q_received = now, q_message = payload\<rparr>))"

definition forward ::
  "('n, 's) mediator \<Rightarrow> u64 \<Rightarrow> message \<Rightarrow> (('n, 's) world, receive_error, unit) act" where
  "forward md now m =
     bind_act (lift_act (ok_or (BadForward ''forward without next'') (jget_str ''next'' (m_body m)))) (\<lambda>nxt.
     bind_act (lift_act (ok_or (BadForward ''forward without attachments'')
       (case m_attachments m of Some (a # as) \<Rightarrow> Some (a # as) | _ \<Rightarrow> None))) (\<lambda>attachments.
     bind_act (lift_act (mapM_res (payload_of (md_ext md)) attachments)) (\<lambda>payloads.
     let recipient = did_of nxt in
     bind_act (map_err_act StoreError (on_store (mediation_of (md_store md) recipient))) (\<lambda>found.
     case found of
       None \<Rightarrow> relay md now nxt payloads
     | Some mediation \<Rightarrow>
         bind_act (for_act payloads (queue_message md now mediation recipient)) (\<lambda>_.
         bind_act (count (count_forward FwQueued (of_nat (length attachments)))) (\<lambda>_.
         md_wake md mediation))))))"

end
