(* ===== verification/Pickup.thy ===== *)
theory Pickup
  imports Mediator
begin

text \<open>Message Pickup 3.0: \<open>crates/mediator/src/dispatch/pickup.rs\<close>.\<close>

definition MAX_BATCH :: u64 where
  "MAX_BATCH = 100"

definition status_body :: "u64 \<Rightarrow> queue_summary \<Rightarrow> string option \<Rightarrow> bool \<Rightarrow> json" where
  "status_body now sm recipient live =
     (let body = JObj [(''message_count'', JNat (qs_count sm)), (''total_bytes'', JU64 (qs_total_bytes sm)),
            (''live_delivery'', JBool live)];
          body = (case (qs_oldest sm, qs_newest sm) of
             (Some oldest, Some newest) \<Rightarrow>
               jset ''longest_waited_seconds'' (JU64 (saturating_sub now oldest))
                 (jset ''newest_received_time'' (JU64 newest) (jset ''oldest_received_time'' (JU64 oldest) body))
           | _ \<Rightarrow> body)
      in case recipient of Some did \<Rightarrow> jset ''recipient_did'' (JStr did) body | None \<Rightarrow> body)"

definition status ::
  "('n, 's) mediator \<Rightarrow> u64 \<Rightarrow> string \<Rightarrow> string option \<Rightarrow> message \<Rightarrow> bool \<Rightarrow> (('n, 's) world, string, handled) act" where
  "status md now mediation recipient request live =
     bind_act (on_store (summary (md_store md) mediation recipient now (ql_ttl_secs (lm_queue (md_limits md))))) (\<lambda>sm.
     bind_act (new_message (md_ext md) now STATUS (status_body now sm recipient live)) (\<lambda>r.
     return_act (HReply (reply_to request r))))"

text \<open>\<open>recipient_did\<close>, when given, must be one of the requester's.\<close>

definition pickup_recipient ::
  "('n, 's) mediator \<Rightarrow> string \<Rightarrow> message \<Rightarrow> (('n, 's) world, string, problem + string option) act" where
  "pickup_recipient md requester m =
     (case jget ''recipient_did'' (m_body m) of
        None \<Rightarrow> return_act (Inr None)
      | Some JNull \<Rightarrow> return_act (Inr None)
      | Some (JStr did) \<Rightarrow>
          bind_act (on_store (recipients (md_store md) requester)) (\<lambda>rs.
          return_act (if did \<in> set rs then Inr (Some did) else Inl (UnknownRecipientDid did)))
      | Some _ \<Rightarrow> return_act (Inl InvalidBody))"

definition delivery_of :: "ext \<Rightarrow> message \<Rightarrow> queued list \<Rightarrow> message \<Rightarrow> message" where
  "delivery_of X request qs m =
     fold (\<lambda>q d. add_attachment (with_id (q_id q) (attachment_base64 X (q_message q))) d) qs (reply_to request m)"

definition session_get :: "(('n, 's) world, 'e, session option) act" where
  "session_get w = (Inr (w_session w), w)"

definition pickup_type ::
  "('n, 's) mediator \<Rightarrow> u64 \<Rightarrow> string \<Rightarrow> message \<Rightarrow> string option \<Rightarrow> session option
     \<Rightarrow> (('n, 's) world, string, handled) act" where
  "pickup_type md now requester m recipient session =
     (let ttl = ql_ttl_secs (lm_queue (md_limits md));
          live = (case session of Some s \<Rightarrow> is_live_for s requester | None \<Rightarrow> False)
      in
      if m_type m = STATUS_REQUEST then status md now requester recipient m live
      else if m_type m = DELIVERY_REQUEST then
        (case Option.bind (jget ''limit'' (m_body m)) as_u64 of
           Some l \<Rightarrow>
             if l = 0 then return_act (HProblem InvalidBody)
             else
               bind_act (on_store (peek (md_store md) requester recipient (unat (min l MAX_BATCH)) now ttl)) (\<lambda>qs.
               if qs = [] then status md now requester recipient m live
               else
                 bind_act (new_message (md_ext md) now DELIVERY
                   (case recipient of Some did \<Rightarrow> JObj [(''recipient_did'', JStr did)] | None \<Rightarrow> JObj [])) (\<lambda>d.
                 return_act (HReply (delivery_of (md_ext md) m qs d))))
         | None \<Rightarrow> return_act (HProblem InvalidBody))
      else if m_type m = MESSAGES_RECEIVED then
        (case Option.bind (Option.bind (jget ''message_id_list'' (m_body m)) as_array) (mapM_opt as_str) of
           None \<Rightarrow> return_act (HProblem InvalidBody)
         | Some ids \<Rightarrow>
             bind_act (on_store (remove (md_store md) requester ids)) (\<lambda>_.
             status md now requester recipient m live))
      else if m_type m = LIVE_DELIVERY_CHANGE then
        (case Option.bind (jget ''live_delivery'' (m_body m)) as_bool of
           None \<Rightarrow> return_act (HProblem InvalidBody)
         | Some wanted \<Rightarrow>
             (case (wanted, session) of
                (True, None) \<Rightarrow> return_act (HProblem LiveModeNotSupported)
              | (True, Some s) \<Rightarrow>
                  bind_act (session_enable s requester) (\<lambda>_. status md now requester recipient m True)
              | (False, Some s) \<Rightarrow>
                  bind_act (session_disable s) (\<lambda>_. status md now requester recipient m False)
              | (False, None) \<Rightarrow> status md now requester recipient m False))
      else return_act (HProblem UnsupportedType))"

definition pickup_handle ::
  "('n, 's) mediator \<Rightarrow> u64 \<Rightarrow> string \<Rightarrow> message \<Rightarrow> (('n, 's) world, string, handled) act" where
  "pickup_handle md now requester m =
     bind_act (on_store (has_mediation (md_store md) requester)) (\<lambda>has.
     if \<not> has then return_act (HProblem NoMediation)
     else
       bind_act (picked_up md now requester) (\<lambda>_.
       bind_act (pickup_recipient md requester m) (\<lambda>r.
       case r of
         Inl p \<Rightarrow> return_act (HProblem p)
       | Inr recipient \<Rightarrow>
           bind_act session_get (\<lambda>session. pickup_type md now requester m recipient session))))"

end
