(* ===== verification/Push.thy ===== *)
theory Push
  imports Mediator
begin

text \<open>
  Push wake-ups: \<open>wake\<close> of \<open>crates/mediator/src/push/mod.rs\<close>, and the device registrations of
  the push protocols, \<open>dispatch/devices.rs\<close>. What FCM and APNs answer is the pusher's.
\<close>

section \<open>Waking the devices of a mediation\<close>

definition wake_device ::
  "('n, 's) mediator \<Rightarrow> 'n pusher \<Rightarrow> string \<Rightarrow> service \<times> device \<Rightarrow> (('n, 's) world, string, unit) act" where
  "wake_device md pusher mediation sd =
     (case sd of (service, dev) \<Rightarrow>
       bind_act (catch_act (on_net (ps_wake pusher service (dv_token dev)))) (\<lambda>r.
       case r of
         Inr Delivered \<Rightarrow> count (count_push service PuDelivered)
       | Inr InvalidToken \<Rightarrow>
           bind_act (count (count_push service PuInvalidToken)) (\<lambda>_.
           on_store (remove_device (md_store md) mediation service (dv_token dev)))
       | Inl _ \<Rightarrow> count (count_push service PuFailed)))"

definition push_wake ::
  "('n, 's) mediator \<Rightarrow> 'n pusher \<Rightarrow> u64 \<Rightarrow> string \<Rightarrow> u64 \<Rightarrow> (('n, 's) world, string, unit) act" where
  "push_wake md pusher now mediation hold_secs =
     bind_act (on_store (devices (md_store md) mediation)) (\<lambda>all.
     let ds = filter (\<lambda>(service, _). service \<in> set (ps_services pusher)) all in
     if ds = [] then return_act ()
     else bind_act (on_store (claim_push (md_store md) mediation now hold_secs)) (\<lambda>claimed.
       if \<not> claimed then return_act () else for_act ds (wake_device md pusher mediation)))"

section \<open>DirectPusher\<close>

text \<open>\<open>Fcm::wake\<close> and \<open>Apns::wake\<close> are the two optional services.\<close>

type_synonym 'n push_service = "string \<Rightarrow> 'n \<Rightarrow> (string + sent) \<times> 'n"

definition direct_pusher :: "'n push_service option \<Rightarrow> 'n push_service option \<Rightarrow> 'n pusher" where
  "direct_pusher fcm apns = \<lparr>
     ps_services = (if fcm \<noteq> None then [Fcm] else []) @ (if apns \<noteq> None then [Apns] else []),
     ps_wake = (\<lambda>service token n.
       case service of
         Fcm \<Rightarrow> (case fcm of Some f \<Rightarrow> f token n | None \<Rightarrow> (Inl (service_str Fcm @ '' is not configured''), n))
       | Apns \<Rightarrow> (case apns of Some a \<Rightarrow> a token n | None \<Rightarrow> (Inl (service_str Apns @ '' is not configured''), n)))\<rparr>"

section \<open>Device registrations\<close>

definition MAX_FCM_TOKEN :: nat where
  "MAX_FCM_TOKEN = 4096"

definition MAX_APNS_TOKEN :: nat where
  "MAX_APNS_TOKEN = 200"

definition MAX_PLATFORM :: nat where
  "MAX_PLATFORM = 64"

definition is_fcm_token :: "string \<Rightarrow> bool" where
  "is_fcm_token token \<longleftrightarrow> token \<noteq> [] \<and> length token \<le> MAX_FCM_TOKEN \<and> list_all is_ascii_graphic token"

definition is_apns_token :: "string \<Rightarrow> bool" where
  "is_apns_token token \<longleftrightarrow> token \<noteq> [] \<and> length token \<le> MAX_APNS_TOKEN \<and> list_all is_ascii_hexdigit token"

text \<open>The closure \<open>field\<close>: a missing field counts as \<open>null\<close>.\<close>

definition nullable_str :: "string \<Rightarrow> json \<Rightarrow> string option option" where
  "nullable_str name body =
     (case jget name body of
        None \<Rightarrow> Some None
      | Some JNull \<Rightarrow> Some None
      | Some (JStr v) \<Rightarrow> Some (Some v)
      | Some _ \<Rightarrow> None)"

definition parse_device :: "service \<Rightarrow> json \<Rightarrow> device option option" where
  "parse_device service body =
     Option.bind (nullable_str ''device_token'' body) (\<lambda>token.
     case service of
       Apns \<Rightarrow>
         (case token of
            None \<Rightarrow> Some None
          | Some t \<Rightarrow> if is_apns_token t then Some (Some \<lparr>dv_token = t, dv_platform = None\<rparr>) else None)
     | Fcm \<Rightarrow>
         Option.bind (nullable_str ''device_platform'' body) (\<lambda>platform.
         case (token, platform) of
           (None, None) \<Rightarrow> Some None
         | (Some t, Some p) \<Rightarrow>
             if is_fcm_token t \<and> p \<noteq> [] \<and> length p \<le> MAX_PLATFORM
             then Some (Some \<lparr>dv_token = t, dv_platform = Some p\<rparr>) else None
         | _ \<Rightarrow> None))"

definition opt_json :: "string option \<Rightarrow> json" where
  "opt_json v = (case v of None \<Rightarrow> JNull | Some t \<Rightarrow> JStr t)"

definition push_type :: "string \<Rightarrow> (service \<times> string) option" where
  "push_type t =
     (case strip_prefix PUSH_FCM t of
        Some name \<Rightarrow> Some (Fcm, name)
      | None \<Rightarrow> (case strip_prefix PUSH_APNS t of Some name \<Rightarrow> Some (Apns, name) | None \<Rightarrow> None))"

definition devices_handle ::
  "('n, 's) mediator \<Rightarrow> u64 \<Rightarrow> string \<Rightarrow> message \<Rightarrow> (('n, 's) world, string, handled) act" where
  "devices_handle md now requester m =
     (case push_type (m_type m) of
        None \<Rightarrow> return_act (HProblem UnsupportedType)
      | Some (service, name) \<Rightarrow>
     if \<not> (case md_pusher md of Some p \<Rightarrow> service \<in> set (ps_services p) | None \<Rightarrow> False)
     then return_act (HProblem UnsupportedType)
     else
       bind_act (on_store (has_mediation (md_store md) requester)) (\<lambda>has.
       if \<not> has then return_act (HProblem NoMediation)
       else if name = SET_DEVICE_INFO then
         (case parse_device service (m_body m) of
            None \<Rightarrow> return_act (HProblem InvalidBody)
          | Some dev \<Rightarrow>
              bind_act (on_store (set_device (md_store md) requester service dev)) (\<lambda>_.
              bind_act (new_message (md_ext md) now ACK (JObj [(''status'', JStr ''OK'')])) (\<lambda>r.
              return_act (HReply (reply_to m r)))))
       else if name = GET_DEVICE_INFO then
         bind_act (on_store (devices (md_store md) requester)) (\<lambda>ds.
         let dev = map_option snd (List.find (\<lambda>(s, _). s = service) ds);
             body = JObj [(''device_token'', opt_json (map_option dv_token dev))];
             body = (if service = Fcm
               then jset ''device_platform'' (opt_json (Option.bind dev dv_platform)) body else body)
         in bind_act (new_message (md_ext md) now (push_protocol service @ DEVICE_INFO) body) (\<lambda>r.
            return_act (HReply (reply_to m r))))
       else return_act (HProblem UnsupportedType)))"

end
