(* ===== verification/Dispatch.thy ===== *)
theory Dispatch
  imports Mediation Pickup Push
begin

text \<open>
  Receiving a message: \<open>crates/mediator/src/dispatch/mod.rs\<close>. \<open>handle\<close> unpacks an envelope, runs
  the protocol it is addressed to and routes the reply back; \<open>receive\<close> counts the outcome.
\<close>

section \<open>Replies\<close>

definition pack_reply ::
  "('n, 's) mediator \<Rightarrow> u64 \<Rightarrow> message \<Rightarrow> string \<Rightarrow> bool \<Rightarrow> (('n, 's) world, 'e, packed_message option) act" where
  "pack_reply md now reply recipient fwd =
     (let own = id_did (md_identity md) in
      bind_act (catch_act (pack_encrypted (md_ext md) now (set_to [recipient] (set_from own reply)) recipient
        (Some own) None (md_resolver md) (id_secrets (md_identity md)) (default_options\<lparr>po_forward := fwd\<rparr>))) (\<lambda>r.
      return_act (case r of Inr p \<Rightarrow> Some p | Inl _ \<Rightarrow> None)))"

definition send_reply ::
  "('n, 's) mediator \<Rightarrow> u64 \<Rightarrow> message \<Rightarrow> string \<Rightarrow> (('n, 's) world, 'e, unit) act" where
  "send_reply md now reply sender0 =
     (let sender = did_of sender0 in
      bind_act (catch_act (on_store (mediation_of (md_store md) sender))) (\<lambda>found.
      case found of
        Inr (Some mediation) \<Rightarrow>
          bind_act (pack_reply md now reply sender False) (\<lambda>packed.
          case packed of
            None \<Rightarrow> return_act ()
          | Some p \<Rightarrow>
              bind_act (catch_act (queue_message md now mediation sender (pm_message p))) (\<lambda>queued.
              case queued of
                Inr _ \<Rightarrow> md_wake md mediation
              | Inl _ \<Rightarrow> return_act ()))
      | Inr None \<Rightarrow>
          (case md_transport md of
             None \<Rightarrow> return_act ()
           | Some _ \<Rightarrow>
               bind_act (pack_reply md now reply sender True) (\<lambda>packed.
               case packed of
                 None \<Rightarrow> return_act ()
               | Some p \<Rightarrow>
                   (case pm_service_uri p of
                      None \<Rightarrow> return_act ()
                    | Some uri \<Rightarrow>
                        if uri \<in> set (own_endpoints md) then return_act ()
                        else spawn (DeliverTask uri (pm_message p)))))
      | Inl _ \<Rightarrow> return_act ()))"

definition return_route :: "message \<Rightarrow> bool \<Rightarrow> bool" where
  "return_route request websocket =
     (case Option.bind (map_of (m_extra_headers request) ''return_route'') as_str of
        Some v \<Rightarrow> v = ''all'' \<or> v = ''thread''
      | None \<Rightarrow> websocket)"

definition route_back ::
  "('n, 's) mediator \<Rightarrow> u64 \<Rightarrow> message \<Rightarrow> message \<Rightarrow> bool \<Rightarrow> bool \<Rightarrow> (('n, 's) world, 'e, outcome) act" where
  "route_back md now request reply websocket authenticated =
     (case m_from request of
        None \<Rightarrow> return_act Accepted
      | Some sender \<Rightarrow>
          if return_route request websocket then
            bind_act (pack_reply md now reply sender False) (\<lambda>packed.
            return_act (case packed of None \<Rightarrow> Accepted | Some p \<Rightarrow> OutcomeReply (pm_message p)))
          else if authenticated then
            bind_act (send_reply md now reply sender) (\<lambda>_. return_act Accepted)
          else return_act Accepted)"

section \<open>Handling an envelope\<close>

definition requester_of :: "message \<Rightarrow> unpack_metadata \<Rightarrow> string option" where
  "requester_of m meta = (if um_authenticated meta then m_from m else None)"

text \<open>The protocols a wallet needs a mediation for.\<close>

definition wallet_handle ::
  "('n, 's) mediator \<Rightarrow> u64 \<Rightarrow> string option \<Rightarrow> message \<Rightarrow> (('n, 's) world, string, handled) act" where
  "wallet_handle md now requester m =
     bind_act (case requester of
         Some r \<Rightarrow> on_store (touch_mediation (md_store md) r now)
       | None \<Rightarrow> return_act ()) (\<lambda>_.
     case requester of
       None \<Rightarrow> return_act (HProblem Unauthenticated)
     | Some r \<Rightarrow>
         if starts_with (m_type m) PICKUP then pickup_handle md now r m
         else if starts_with (m_type m) COORDINATE_MEDIATION then mediation_handle md now r m
         else devices_handle md now r m)"

definition dispatch ::
  "('n, 's) mediator \<Rightarrow> u64 \<Rightarrow> string option \<Rightarrow> message \<Rightarrow> (('n, 's) world, receive_error, handled) act" where
  "dispatch md now requester m =
     (let t = m_type m in
      if is_expired_at now m then return_act (HProblem Expired)
      else if t = FORWARD then bind_act (forward md now m) (\<lambda>_. return_act HNothing)
      else if t = PING then
        bind_act (trust_ping (md_ext md) now m) (\<lambda>r.
        return_act (case r of Some reply \<Rightarrow> HReply reply | None \<Rightarrow> HNothing))
      else if t = QUERIES then
        (let push = (case md_pusher md of Some p \<Rightarrow> ps_services p | None \<Rightarrow> []) in
         bind_act (catch_act (discover_features (md_ext md) now m (lm_max_message_bytes (md_limits md)) push)) (\<lambda>r.
         return_act (case r of Inr disclose \<Rightarrow> HReply disclose | Inl p \<Rightarrow> HProblem p)))
      else if t = PROBLEM_REPORT then return_act HNothing
      else if starts_with t COORDINATE_MEDIATION \<or> starts_with t PICKUP
        \<or> starts_with t PUSH_FCM \<or> starts_with t PUSH_APNS
      then map_err_act StoreError (wallet_handle md now requester m)
      else return_act (HProblem UnsupportedType))"

definition is_websocket :: "(('n, 's) world, 'e, bool) act" where
  "is_websocket w = (Inr (w_session w \<noteq> None), w)"

definition handle :: "('n, 's) mediator \<Rightarrow> u64 \<Rightarrow> string \<Rightarrow> (('n, 's) world, receive_error, outcome) act" where
  "handle md now packed =
     bind_act (map_err_act UnpackError
       (unpack (md_ext md) packed (md_resolver md) (id_secrets (md_identity md)))) (\<lambda>(m, meta).
     if \<not> um_encrypted meta
     then throw_act (UnpackError (Malformed ''the mediator accepts encrypted messages only''))
     else
       bind_act (dispatch md now (requester_of m meta) m) (\<lambda>handled.
       case handled of
         HNothing \<Rightarrow> return_act Accepted
       | HReply reply \<Rightarrow>
           bind_act is_websocket (\<lambda>ws. route_back md now m reply ws (um_authenticated meta))
       | HProblem p \<Rightarrow>
           bind_act (report (md_ext md) now p m) (\<lambda>reply.
           bind_act is_websocket (\<lambda>ws. route_back md now m reply ws (um_authenticated meta)))))"

fun outcome_metric :: "receive_error + outcome \<Rightarrow> message_outcome" where
  "outcome_metric (Inr Accepted) = MoAccepted"
| "outcome_metric (Inr (OutcomeReply _)) = MoReply"
| "outcome_metric (Inl _) = MoRejected"

fun refused :: "receive_error + outcome \<Rightarrow> bool" where
  "refused (Inl (BadForward _)) = True"
| "refused (Inl UnknownRecipient) = True"
| "refused (Inl QueueFull) = True"
| "refused _ = False"

definition receive :: "('n, 's) mediator \<Rightarrow> u64 \<Rightarrow> string \<Rightarrow> (('n, 's) world, receive_error, outcome) act" where
  "receive md now packed w =
     (let v = (if w_session w \<noteq> None then WebSocket else Http) in
      case handle md now packed w of
        (result, w') \<Rightarrow>
          (let ms = count_message v (outcome_metric result) (w_metrics w');
               ms = (if refused result then count_forward FwRefused 1 ms else ms)
           in (result, w'\<lparr>w_metrics := ms\<rparr>)))"

section \<open>Live deliveries, background tasks and cleanup\<close>

definition live_delivery ::
  "('n, 's) mediator \<Rightarrow> u64 \<Rightarrow> session \<Rightarrow> queued \<Rightarrow> (('n, 's) world, 'e, string option) act" where
  "live_delivery md now session q =
     (case ss_live session of
        None \<Rightarrow> return_act None
      | Some mediation \<Rightarrow>
          bind_act (new_message (md_ext md) now DELIVERY (JObj [])) (\<lambda>d.
          bind_act (pack_reply md now
            (add_attachment (with_id (q_id q) (attachment_base64 (md_ext md) (q_message q))) d) mediation False) (\<lambda>p.
          return_act (map_option pm_message p))))"

text \<open>What the spawned tasks do; their errors are only logged.\<close>

definition run_task :: "('n, 's) mediator \<Rightarrow> u64 \<Rightarrow> task \<Rightarrow> (('n, 's) world, 'e, unit) act" where
  "run_task md now t =
     (case t of
        WakeTask mediation hold \<Rightarrow>
          (case md_pusher md of
             Some p \<Rightarrow> bind_act (catch_act (push_wake md p now mediation hold)) (\<lambda>_. return_act ())
           | None \<Rightarrow> return_act ())
      | DeliverTask uri msg \<Rightarrow>
          (case md_transport md of
             Some tp \<Rightarrow> deliver md tp now uri msg
           | None \<Rightarrow> return_act ()))"

definition CLEANUP_BATCH :: nat where
  "CLEANUP_BATCH = 100"

text \<open>The loop of \<open>remove_idle\<close>: \<open>None\<close> if it never ends.\<close>

partial_function (option) remove_idle_loop ::
  "'s store_ops \<Rightarrow> u64 \<Rightarrow> nat \<Rightarrow> 's \<Rightarrow> ((string + nat) \<times> 's) option" where
  "remove_idle_loop ops cutoff n s =
     (case remove_idle_mediations ops cutoff CLEANUP_BATCH s of
        (Inl e, s') \<Rightarrow> Some (Inl e, s')
      | (Inr removed, s') \<Rightarrow>
          (if length removed < CLEANUP_BATCH then Some (Inr (n + length removed), s')
           else remove_idle_loop ops cutoff (n + length removed) s'))"

definition remove_idle ::
  "('n, 's) mediator \<Rightarrow> u64 \<Rightarrow> u64 \<Rightarrow> ('n, 's) world \<Rightarrow> ((string + nat) \<times> ('n, 's) world) option" where
  "remove_idle md ttl_secs now w =
     (case remove_idle_loop (md_store md) (saturating_sub now ttl_secs) 0 (w_store w) of
        None \<Rightarrow> None
      | Some (Inl e, s) \<Rightarrow> Some (Inl e, w\<lparr>w_store := s\<rparr>)
      | Some (Inr n, s) \<Rightarrow>
          Some (Inr n, w\<lparr>w_store := s,
            w_metrics := (if n > 0 then count_mediations_removed (of_nat n) (w_metrics w) else w_metrics w)\<rparr>))"

end
