(* ===== verification/Frames.thy ===== *)
theory Frames
  imports Dispatch
begin

text \<open>
  What the actions of the DIDComm library leave alone: packing, unpacking and resolving only
  change the resolver's caches and draw randomness, never what a caller adds to the node.
\<close>

definition node_only :: "('r, 'z) node_scheme \<Rightarrow> ('r, 'z) node_scheme \<Rightarrow> bool" where
  "node_only s s' \<longleftrightarrow> node.more s' = node.more s"

interpretation nodeG: guarantee node_only
  by unfold_locales (auto simp: node_only_def)

lemma node_only_random: "steps node_only (random_fill X n)" "steps node_only (draw_uuid X)"
  by (auto simp: steps_def random_fill_def draw_uuid_def node_only_def)

lemma node_only_resolve: "steps node_only (resolve_in R did)"
  by (auto simp: steps_def resolve_in_def node_only_def split: prod.splits)

lemmas node_base = node_only_random node_only_resolve nodeG.rules

lemma node_only_generate_fuel: "steps node_only (generate_fuel n X c)"
proof (induction n)
  case 0
  show ?case unfolding generate_fuel.simps by (rule nodeG.pure)
next
  case (Suc n)
  show ?case unfolding generate_fuel.simps by (intro node_base Suc)
qed

lemma node_only_generate: "steps node_only (generate X c)"
  by (simp add: generate_def node_only_generate_fuel)

lemma node_only_new_message: "steps node_only (new_message X now ty body)"
  unfolding new_message_def by (intro node_base)

lemma node_only_jwe: "steps node_only (jwe_encrypt X p sender rs enc)"
  unfolding jwe_encrypt_def Let_def
  by (auto intro!: node_base node_only_generate split: list.splits)

lemma node_only_crypt: "steps node_only (anoncrypt X p rs enc)" "steps node_only (authcrypt X p snd' rs)"
  by (simp_all add: anoncrypt_def authcrypt_def node_only_jwe)

lemma node_only_wrap_hop: "steps node_only (wrap_hop X now R enc hop nxt packed)"
  unfolding wrap_hop_def Let_def by (intro node_base node_only_crypt)

lemma node_only_wrap_hops: "steps node_only (wrap_hops X now R enc hops nxt packed)"
  by (induction hops arbitrary: nxt packed) (auto intro!: node_base node_only_wrap_hop)

lemma node_only_route: "steps node_only (route X now packed t R enc)"
  unfolding route_def Let_def by (intro node_base node_only_wrap_hops)

lemma node_only_find_signing: "steps node_only (find_signing_key kid R S)"
  unfolding find_signing_key_def by (intro node_base)

lemma node_only_pack_signed: "steps node_only (pack_signed X m by' R S)"
  unfolding pack_signed_def by (intro node_base node_only_find_signing)

lemma node_only_pack: "steps node_only (pack_encrypted X now m t fr sign_by R S opts)"
  unfolding pack_encrypted_def Let_def
  by (intro node_base node_only_pack_signed node_only_crypt node_only_route)

lemma node_only_possession: "steps node_only (possession_unpack X token R)"
  unfolding possession_unpack_def by (intro node_base)

lemma node_only_from_prior: "steps node_only (from_prior_unpack X token R)"
  unfolding from_prior_unpack_def by (intro node_base)

lemma node_only_sender_of: "steps node_only (sender_of X R l h meta)"
  unfolding sender_of_def by (cases l) (auto intro!: node_base)

lemma node_only_step: "steps node_only (unpack_step X R S u)"
  unfolding unpack_step_def step_jwe_def step_jws_def Let_def
  by (intro node_base node_only_sender_of)

lemma node_only_loop:
  fixes s :: "('r, 'z) node_scheme"
  shows "node_only s (snd (unpack_loop X R S u s))"
proof (induction "layer_measure (us_layers u)" arbitrary: u s rule: less_induct)
  case less
  obtain r t where rt: "unpack_step X R S u s = (r, t)" by (cases "unpack_step X R S u s")
  have 1: "node_only s t" by (rule stepsD [OF node_only_step rt])
  consider e where "r = Inl e" | m where "r = Inr (Inl m)" | u' where "r = Inr (Inr u')"
    by (metis sum.exhaust)
  then show ?case
  proof cases
    case 3
    then have "node_only t (snd (unpack_loop X R S u' t))"
      using less unpack_step_measure rt by blast
    then show ?thesis using 1 3 rt nodeG.trans by (subst unpack_loop.simps) simp
  qed (use 1 rt in \<open>subst unpack_loop.simps, simp\<close>)+
qed

lemma node_only_unpack_loop: "steps node_only (unpack_loop X R S u)"
  by (simp add: steps_def node_only_loop)

lemma node_only_unpack: "steps node_only (unpack X packed R S)"
  unfolding unpack_def Let_def
  by (intro node_base node_only_from_prior node_only_unpack_loop)

lemma node_only_protocols:
  "steps node_only (trust_ping X now m)" "steps node_only (discover_features X now m n push)"
  "steps node_only (report X now p m)"
  unfolding trust_ping_def discover_features_def report_def Let_def
  by (intro node_base node_only_new_message)+

lemmas node_only_actions = node_only_new_message node_only_route node_only_pack node_only_possession
  node_only_unpack node_only_protocols

end
