(* ===== verification/Memory_Store.thy ===== *)
theory Memory_Store
  imports Store_Spec
begin

text \<open>
  The in-process store: \<open>crates/mediator/src/store/memory.rs\<close>. \<open>inner\<close> has the fields of \<open>Inner\<close>
  and whether the mutex around it is poisoned. A \<open>HashMap\<close> that is only looked up is a map; one
  that is iterated or counted (\<open>seen\<close>, \<open>hits\<close>) is an association list; a \<open>BTreeSet\<close> is a sorted
  list and a \<open>BTreeMap\<close> a list sorted by key. Arithmetic on \<open>u64\<close> wraps, as in a release build.
\<close>

record inner =
  poisoned :: bool
  mediations :: "string set"
  owners :: "string \<rightharpoonup> string"
  in_recipients :: "string \<rightharpoonup> string list"
  queues :: "string \<rightharpoonup> queued list"
  hits :: "(string \<times> (u64 \<times> u64)) list"
  seq :: u64
  in_devices :: "string \<rightharpoonup> (service \<times> device) list"
  push_sent :: "string \<rightharpoonup> (u64 \<times> u64)"
  relays :: "(string \<times> (u64 \<times> pending_relay)) list"
  seen :: "(string \<times> u64) list"

definition mem_new :: inner where
  "mem_new = \<lparr>poisoned = False, mediations = {}, owners = Map.empty, in_recipients = Map.empty,
     queues = Map.empty, hits = [], seq = 0, in_devices = Map.empty, push_sent = Map.empty,
     relays = [], seen = []\<rparr>"

text \<open>\<open>MemoryStore::lock\<close>, and a method body that runs with the lock held.\<close>

definition locked :: "(inner \<Rightarrow> 'a \<times> inner) \<Rightarrow> (inner, string, 'a) act" where
  "locked f s =
     (if poisoned s then (Inl ''memory store poisoned'', s)
      else case f s of (a, s') \<Rightarrow> (Inr a, s'))"

section \<open>Operations\<close>

definition queue_of :: "inner \<Rightarrow> string \<Rightarrow> queued list" where
  "queue_of s m = (case queues s m of None \<Rightarrow> [] | Some qs \<Rightarrow> qs)"

definition recips_of :: "inner \<Rightarrow> string \<Rightarrow> string list" where
  "recips_of s m = (case in_recipients s m of None \<Rightarrow> [] | Some rs \<Rightarrow> rs)"

text \<open>\<open>Inner::queue\<close>: the queue with expired messages dropped, kept that way.\<close>

definition inner_queue :: "string \<Rightarrow> u64 \<Rightarrow> u64 \<Rightarrow> inner \<Rightarrow> queued list \<times> inner" where
  "inner_queue m now ttl_secs s =
     (let q = filter (\<lambda>q. saturating_sub now ttl_secs \<le> q_received q) (queue_of s m)
      in (q, s\<lparr>queues := (queues s)(m \<mapsto> q)\<rparr>))"

definition mem_ping :: "(inner, string, unit) act" where
  "mem_ping = locked (\<lambda>s. ((), s))"

definition mem_grant_mediation :: "string \<Rightarrow> u64 \<Rightarrow> (inner, string, unit) act" where
  "mem_grant_mediation m now = locked (\<lambda>s.
     ((), s\<lparr>mediations := insert m (mediations s), seen := AList.update m now (seen s)\<rparr>))"

definition mem_touch_mediation :: "string \<Rightarrow> u64 \<Rightarrow> (inner, string, unit) act" where
  "mem_touch_mediation m now = locked (\<lambda>s.
     ((), if m \<in> mediations s then s\<lparr>seen := AList.update m now (seen s)\<rparr> else s))"

definition forget_mediation :: "string \<Rightarrow> inner \<Rightarrow> inner" where
  "forget_mediation m s =
     (let rs = recips_of s m in
      s\<lparr>seen := AList.delete m (seen s), mediations := mediations s - {m},
        in_recipients := (in_recipients s)(m := None),
        owners := (\<lambda>r. if r \<in> set rs then None else owners s r),
        queues := (queues s)(m := None), in_devices := (in_devices s)(m := None),
        push_sent := (push_sent s)(m := None)\<rparr>)"

definition mem_remove_idle_mediations :: "u64 \<Rightarrow> nat \<Rightarrow> (inner, string, string list) act" where
  "mem_remove_idle_mediations cutoff limit = locked (\<lambda>s.
     let idle = take limit (map fst (filter (\<lambda>e. snd e \<le> cutoff) (seen s)))
     in (idle, fold forget_mediation idle s))"

definition mem_has_mediation :: "string \<Rightarrow> (inner, string, bool) act" where
  "mem_has_mediation m = locked (\<lambda>s. (m \<in> mediations s, s))"

definition mem_add_recipient :: "string \<Rightarrow> string \<Rightarrow> nat \<Rightarrow> (inner, string, add_recipient) act" where
  "mem_add_recipient m r mx = locked (\<lambda>s.
     case owners s r of
       Some own \<Rightarrow> if own = m then (AlreadyYours, s) else (TakenByOther, s)
     | None \<Rightarrow>
         (let rs = recips_of s m in
          if mx \<le> length rs then (LimitReached, s\<lparr>in_recipients := (in_recipients s)(m \<mapsto> rs)\<rparr>)
          else (Added, s\<lparr>in_recipients := (in_recipients s)(m \<mapsto> List.insort_insert r rs),
                 owners := (owners s)(r \<mapsto> m)\<rparr>)))"

definition mem_remove_recipient :: "string \<Rightarrow> string \<Rightarrow> (inner, string, remove_recipient) act" where
  "mem_remove_recipient m r = locked (\<lambda>s.
     case owners s r of
       None \<Rightarrow> (NotRegistered, s)
     | Some own \<Rightarrow>
         if own \<noteq> m then (NotYours, s)
         else (Removed, s\<lparr>owners := (owners s)(r := None),
           in_recipients := (case in_recipients s m of
               Some rs \<Rightarrow> (in_recipients s)(m \<mapsto> removeAll r rs)
             | None \<Rightarrow> in_recipients s)\<rparr>))"

definition mem_recipients :: "string \<Rightarrow> (inner, string, string list) act" where
  "mem_recipients m = locked (\<lambda>s. (recips_of s m, s))"

definition mem_mediation_of :: "string \<Rightarrow> (inner, string, string option) act" where
  "mem_mediation_of r = locked (\<lambda>s. (owners s r, s))"

definition message_bytes :: "queued list \<Rightarrow> u64" where
  "message_bytes qs = sum_list (map (\<lambda>q. of_nat (length (q_message q))) qs)"

definition mem_enqueue ::
  "string \<Rightarrow> string \<Rightarrow> string \<Rightarrow> u64 \<Rightarrow> queue_limits \<Rightarrow> (inner, string, string option) act" where
  "mem_enqueue m r message now lims = locked (\<lambda>s.
     let s = s\<lparr>seq := seq s + 1\<rparr>;
         i = show_u64 (now * 1000) @ ''-'' @ show_u64 (seq s);
         (q, s) = inner_queue m now (ql_ttl_secs lims) s
     in if ql_max_messages lims \<le> length q
           \<or> ql_max_bytes lims < message_bytes q + of_nat (length message) then (None, s)
        else (Some i, s\<lparr>queues := (queues s)(m \<mapsto> q @ [\<lparr>q_id = i, q_recipient = r,
               q_received = id_millis i div 1000, q_message = message\<rparr>])\<rparr>))"

definition add_to_summary :: "queued \<Rightarrow> queue_summary \<Rightarrow> queue_summary" where
  "add_to_summary q sm =
     \<lparr>qs_count = qs_count sm + 1,
      qs_oldest = Some (case qs_oldest sm of None \<Rightarrow> q_received q | Some t \<Rightarrow> min t (q_received q)),
      qs_newest = Some (case qs_newest sm of None \<Rightarrow> q_received q | Some t \<Rightarrow> max t (q_received q)),
      qs_total_bytes = qs_total_bytes sm + of_nat (length (q_message q))\<rparr>"

definition mem_summary ::
  "string \<Rightarrow> string option \<Rightarrow> u64 \<Rightarrow> u64 \<Rightarrow> (inner, string, queue_summary) act" where
  "mem_summary m r now ttl_secs = locked (\<lambda>s.
     case inner_queue m now ttl_secs s of
       (q, s) \<Rightarrow> (fold add_to_summary (matching r q) default_summary, s))"

definition mem_peek ::
  "string \<Rightarrow> string option \<Rightarrow> nat \<Rightarrow> u64 \<Rightarrow> u64 \<Rightarrow> (inner, string, queued list) act" where
  "mem_peek m r limit now ttl_secs = locked (\<lambda>s.
     case inner_queue m now ttl_secs s of (q, s) \<Rightarrow> (take limit (matching r q), s))"

definition mem_remove :: "string \<Rightarrow> string list \<Rightarrow> (inner, string, nat) act" where
  "mem_remove m ids = locked (\<lambda>s.
     case queues s m of
       None \<Rightarrow> (0, s)
     | Some q \<Rightarrow>
         (let q' = filter (\<lambda>e. q_id e \<notin> set ids) q
          in (length q - length q', s\<lparr>queues := (queues s)(m \<mapsto> q')\<rparr>)))"

definition mem_hit :: "string \<Rightarrow> u64 \<Rightarrow> u64 \<Rightarrow> (inner, string, u64) act" where
  "mem_hit key window_secs now = locked (\<lambda>s.
     let window = now div max window_secs 1;
         h = (if 100000 < length (hits s) then filter (\<lambda>e. fst (snd e) = window) (hits s) else hits s);
         n = (case map_of h key of
                Some (w, n) \<Rightarrow> if w = window then n else 0
              | None \<Rightarrow> 0) + 1
     in (n, s\<lparr>hits := AList.update key (window, n) h\<rparr>))"

definition mem_schedule_relay :: "pending_relay \<Rightarrow> u64 \<Rightarrow> nat \<Rightarrow> (inner, string, bool) act" where
  "mem_schedule_relay relay due max_pending = locked (\<lambda>s.
     if map_of (relays s) (pr_id relay) = None \<and> max_pending \<le> length (relays s) then (False, s)
     else (True, s\<lparr>relays := bt_insert (pr_id relay) (due, relay) (relays s)\<rparr>))"

definition mem_due_relays :: "u64 \<Rightarrow> u64 \<Rightarrow> nat \<Rightarrow> (inner, string, pending_relay list) act" where
  "mem_due_relays now lease_secs limit = locked (\<lambda>s.
     let due = filter (\<lambda>e. fst (snd e) \<le> now) (relays s);
         taken = take limit (sort_key (\<lambda>e. fst (snd e)) due);
         keys = set (map fst taken)
     in (map (\<lambda>e. snd (snd e)) taken,
         s\<lparr>relays := map (\<lambda>(k, v). (k, if k \<in> keys then (now + lease_secs, snd v) else v)) (relays s)\<rparr>))"

definition mem_finish_relay :: "string \<Rightarrow> (inner, string, unit) act" where
  "mem_finish_relay i = locked (\<lambda>s. ((), s\<lparr>relays := bt_remove i (relays s)\<rparr>))"

definition devices_of :: "inner \<Rightarrow> string \<Rightarrow> (service \<times> device) list" where
  "devices_of s m = (case in_devices s m of None \<Rightarrow> [] | Some ds \<Rightarrow> ds)"

definition mem_set_device :: "string \<Rightarrow> service \<Rightarrow> device option \<Rightarrow> (inner, string, unit) act" where
  "mem_set_device m sv dev = locked (\<lambda>s.
     ((), s\<lparr>in_devices := (in_devices s)(m \<mapsto>
       (case dev of Some d \<Rightarrow> bt_insert sv d (devices_of s m) | None \<Rightarrow> bt_remove sv (devices_of s m)))\<rparr>))"

definition mem_devices :: "string \<Rightarrow> (inner, string, (service \<times> device) list) act" where
  "mem_devices m = locked (\<lambda>s. (devices_of s m, s))"

definition mem_remove_device :: "string \<Rightarrow> service \<Rightarrow> string \<Rightarrow> (inner, string, unit) act" where
  "mem_remove_device m sv token = locked (\<lambda>s.
     ((), case in_devices s m of
        Some ds \<Rightarrow>
          (case map_of ds sv of
             Some d \<Rightarrow> if dv_token d = token
               then s\<lparr>in_devices := (in_devices s)(m \<mapsto> bt_remove sv ds)\<rparr> else s
           | None \<Rightarrow> s)
      | None \<Rightarrow> s))"

definition mem_claim_push :: "string \<Rightarrow> u64 \<Rightarrow> u64 \<Rightarrow> (inner, string, bool) act" where
  "mem_claim_push m now hold_secs = locked (\<lambda>s.
     if (case push_sent s m of Some (_, til) \<Rightarrow> now < til | None \<Rightarrow> False) then (False, s)
     else (True, s\<lparr>push_sent := (push_sent s)(m \<mapsto> (now, saturating_add now hold_secs))\<rparr>))"

definition mem_release_push :: "string \<Rightarrow> u64 \<Rightarrow> u64 \<Rightarrow> (inner, string, unit) act" where
  "mem_release_push m now min_interval_secs = locked (\<lambda>s.
     ((), case push_sent s m of
        Some (sent, til) \<Rightarrow>
          (let til = min til (saturating_add sent min_interval_secs)
           in if til \<le> now then s\<lparr>push_sent := (push_sent s)(m := None)\<rparr>
              else s\<lparr>push_sent := (push_sent s)(m \<mapsto> (sent, til))\<rparr>)
      | None \<Rightarrow> s))"

definition memory_store :: "inner store_ops" where
  "memory_store = \<lparr>
     ping = mem_ping, kind = ''memory'',
     grant_mediation = mem_grant_mediation, touch_mediation = mem_touch_mediation,
     remove_idle_mediations = mem_remove_idle_mediations, has_mediation = mem_has_mediation,
     add_recipient = mem_add_recipient, remove_recipient = mem_remove_recipient,
     recipients = mem_recipients, mediation_of = mem_mediation_of, enqueue = mem_enqueue,
     summary = mem_summary, peek = mem_peek, remove = mem_remove, hit = mem_hit,
     schedule_relay = mem_schedule_relay, due_relays = mem_due_relays,
     finish_relay = mem_finish_relay, set_device = mem_set_device, devices = mem_devices,
     remove_device = mem_remove_device, claim_push = mem_claim_push, release_push = mem_release_push\<rparr>"

section \<open>The invariant\<close>

text \<open>
  The two indexes of recipients agree and are sorted sets; a mediation is granted exactly when
  its last activity is recorded; every map has one entry per key; a relay is stored under its id.
\<close>

definition own_inv :: "inner \<Rightarrow> bool" where
  "own_inv s \<longleftrightarrow> (\<forall>r m. owners s r = Some m \<longleftrightarrow> r \<in> set (recips_of s m))
     \<and> (\<forall>m. sorted (recips_of s m) \<and> distinct (recips_of s m))"

definition seen_inv :: "inner \<Rightarrow> bool" where
  "seen_inv s \<longleftrightarrow> distinct (map fst (seen s)) \<and> fst ` set (seen s) = mediations s"

definition relay_inv :: "inner \<Rightarrow> bool" where
  "relay_inv s \<longleftrightarrow> bt_wf (relays s) \<and> (\<forall>e\<in>set (relays s). pr_id (snd (snd e)) = fst e)"

definition table_inv :: "inner \<Rightarrow> bool" where
  "table_inv s \<longleftrightarrow> distinct (map fst (hits s)) \<and> (\<forall>m. bt_wf (devices_of s m))"

definition mem_inv :: "inner \<Rightarrow> bool" where
  "mem_inv s \<longleftrightarrow> own_inv s \<and> seen_inv s \<and> relay_inv s \<and> table_inv s"

lemmas inv_defs = mem_inv_def own_inv_def seen_inv_def relay_inv_def table_inv_def

lemma locked_keeps: "(\<And>s. P s \<Longrightarrow> P (snd (f s))) \<Longrightarrow> P s \<Longrightarrow> P (snd (locked f s))"
  by (simp add: locked_def split_beta)

lemma locked_Inr [simp]: "locked f s = (Inr a, s') \<longleftrightarrow> \<not> poisoned s \<and> f s = (a, s')"
  by (auto simp: locked_def split: prod.splits)

lemma snd_locked: "snd (locked f s) = (if poisoned s then s else snd (f s))"
  by (simp add: locked_def split_beta)

lemma mem_inv_new: "mem_inv mem_new"
  by (simp add: inv_defs mem_new_def recips_of_def devices_of_def)

text \<open>Parts of the state that do not concern the invariant.\<close>

lemma mem_inv_queues [simp]: "mem_inv (s\<lparr>queues := q\<rparr>) = mem_inv s"
  by (simp add: inv_defs recips_of_def devices_of_def)

lemma mem_inv_seq [simp]: "mem_inv (s\<lparr>seq := n\<rparr>) = mem_inv s"
  by (simp add: inv_defs recips_of_def devices_of_def)

lemma mem_inv_push [simp]: "mem_inv (s\<lparr>push_sent := p\<rparr>) = mem_inv s"
  by (simp add: inv_defs recips_of_def devices_of_def)

lemma mem_inv_hits: "mem_inv s \<Longrightarrow> distinct (map fst h) \<Longrightarrow> mem_inv (s\<lparr>hits := h\<rparr>)"
  by (simp add: inv_defs recips_of_def devices_of_def)

lemma mem_inv_relays:
  "mem_inv s \<Longrightarrow> bt_wf rs \<Longrightarrow> \<forall>e\<in>set rs. pr_id (snd (snd e)) = fst e \<Longrightarrow> mem_inv (s\<lparr>relays := rs\<rparr>)"
  by (simp add: inv_defs recips_of_def devices_of_def)

lemma mem_inv_devices: "mem_inv s \<Longrightarrow> bt_wf ds \<Longrightarrow> mem_inv (s\<lparr>in_devices := (in_devices s)(m \<mapsto> ds)\<rparr>)"
  by (simp add: inv_defs recips_of_def devices_of_def)

lemma mem_inv_seen:
  "mem_inv s \<Longrightarrow> mem_inv (s\<lparr>mediations := insert m (mediations s), seen := AList.update m t (seen s)\<rparr>)"
  by (auto simp: inv_defs recips_of_def devices_of_def distinct_update dom_update)

lemma set_bt_insert: "e \<in> set (bt_insert k v m) \<Longrightarrow> e = (k, v) \<or> e \<in> set m"
  by (induction k v m rule: bt_insert.induct) (auto split: if_splits)

lemma recips_of_upd [simp]:
  "recips_of (s\<lparr>in_recipients := (in_recipients s)(m \<mapsto> rs), owners := w\<rparr>) m' = (if m' = m then rs else recips_of s m')"
  "recips_of (s\<lparr>in_recipients := (in_recipients s)(m \<mapsto> rs)\<rparr>) m' = (if m' = m then rs else recips_of s m')"
  by (simp_all add: recips_of_def)

lemma own_inv_owner: "own_inv s \<Longrightarrow> owners s r = Some m \<longleftrightarrow> r \<in> set (recips_of s m)"
  by (simp add: own_inv_def)

lemma recips_disjoint: "own_inv s \<Longrightarrow> r \<in> set (recips_of s m) \<Longrightarrow> r \<in> set (recips_of s m') \<Longrightarrow> m = m'"
  by (metis own_inv_owner option.inject)

lemma mem_invD:
  "mem_inv s \<Longrightarrow> own_inv s" "mem_inv s \<Longrightarrow> bt_wf (relays s)"
  "mem_inv s \<Longrightarrow> (k, d, rel) \<in> set (relays s) \<Longrightarrow> pr_id rel = k"
  "mem_inv s \<Longrightarrow> distinct (map fst (hits s))"
  by (force simp: mem_inv_def relay_inv_def table_inv_def)+

lemma fst_set_delete: "fst ` set (AList.delete k al) = fst ` set al - {k}"
  by (metis delete_keys list.set_map set_removeAll)

lemma add_inv:
  assumes "mem_inv s" "owners s r = None"
  shows "mem_inv (s\<lparr>in_recipients := (in_recipients s)(m \<mapsto> List.insort_insert r (recips_of s m)),
    owners := (owners s)(r \<mapsto> m)\<rparr>)"
proof -
  have "r \<notin> set (recips_of s m')" for m'
    using own_inv_owner [OF mem_invD(1) [OF assms(1)], of r m'] assms(2) by simp
  then show ?thesis
    using assms by (auto simp: inv_defs devices_of_def set_insort_insert sorted_insort_insert distinct_insort_insert)
qed

lemma limit_inv: "mem_inv s \<Longrightarrow> mem_inv (s\<lparr>in_recipients := (in_recipients s)(m \<mapsto> recips_of s m)\<rparr>)"
  by (auto simp: inv_defs devices_of_def)

lemma sorted_removeAll: "sorted xs \<Longrightarrow> sorted (removeAll x xs)"
  by (simp add: removeAll_filter_not_eq sorted_wrt_filter)

lemma remove_recipient_inv:
  assumes "mem_inv s" "owners s r = Some m"
  shows "mem_inv (s\<lparr>owners := (owners s)(r := None),
    in_recipients := (case in_recipients s m of Some rs \<Rightarrow> (in_recipients s)(m \<mapsto> removeAll r rs)
      | None \<Rightarrow> in_recipients s)\<rparr>)" (is "mem_inv ?s")
proof -
  have "r \<in> set (recips_of s m') \<longleftrightarrow> m' = m" for m'
    using own_inv_owner [OF mem_invD(1) [OF assms(1)], of r m'] assms(2) by auto
  moreover have "recips_of ?s m' = (if m' = m then removeAll r (recips_of s m) else recips_of s m')" for m'
    by (auto simp: recips_of_def split: option.splits)
  ultimately show ?thesis
    using assms by (auto simp: inv_defs devices_of_def sorted_removeAll distinct_removeAll)
qed

lemma forget_inv: "mem_inv s \<Longrightarrow> mem_inv (forget_mediation m s)"
proof -
  assume inv: "mem_inv s"
  have "recips_of (forget_mediation m s) m' = (if m' = m then [] else recips_of s m')" for m'
    by (simp add: forget_mediation_def recips_of_def Let_def)
  moreover have "devices_of (forget_mediation m s) m' = (if m' = m then [] else devices_of s m')" for m'
    by (simp add: forget_mediation_def devices_of_def Let_def)
  moreover have "owners (forget_mediation m s) r = (if r \<in> set (recips_of s m) then None else owners s r)" for r
    by (simp add: forget_mediation_def Let_def)
  moreover have "own_inv s" using inv by (simp add: mem_inv_def)
  ultimately have "own_inv (forget_mediation m s)"
    using recips_disjoint [of s] by (auto simp: own_inv_def)
  moreover have "seen_inv (forget_mediation m s)"
    using inv by (auto simp: inv_defs forget_mediation_def Let_def distinct_delete fst_set_delete)
  moreover have "relay_inv (forget_mediation m s)" "table_inv (forget_mediation m s)"
    using inv \<open>\<And>m'. devices_of (forget_mediation m s) m' = _ m'\<close>
    by (auto simp: inv_defs forget_mediation_def Let_def)
  ultimately show ?thesis by (simp add: mem_inv_def)
qed

lemma fold_forget_inv: "mem_inv s \<Longrightarrow> mem_inv (fold forget_mediation ms s)"
  by (induction ms arbitrary: s) (auto simp: forget_inv)

lemma inner_queue_inv: "mem_inv s \<Longrightarrow> inner_queue m now ttl s = (q, s') \<Longrightarrow> mem_inv s'"
  by (auto simp: inner_queue_def Let_def)

lemma mem_inv_grant: "mem_inv s \<Longrightarrow> mem_inv (snd (mem_grant_mediation m now s))"
  unfolding mem_grant_mediation_def by (erule locked_keeps [rotated]) (simp add: mem_inv_seen)

lemma mem_inv_touch: "mem_inv s \<Longrightarrow> mem_inv (snd (mem_touch_mediation m now s))"
  unfolding mem_touch_mediation_def
proof (erule locked_keeps [rotated])
  fix s assume inv: "mem_inv s"
  show "mem_inv (snd ((), if m \<in> mediations s then s\<lparr>seen := AList.update m now (seen s)\<rparr> else s))"
    using mem_inv_seen [OF inv, of m now] inv by (auto simp: insert_absorb)
qed

lemma mem_inv_remove_idle: "mem_inv s \<Longrightarrow> mem_inv (snd (mem_remove_idle_mediations c l s))"
  unfolding mem_remove_idle_mediations_def
  by (erule locked_keeps [rotated]) (simp add: Let_def fold_forget_inv)

lemma mem_inv_add: "mem_inv s \<Longrightarrow> mem_inv (snd (mem_add_recipient m r mx s))"
  unfolding mem_add_recipient_def
  by (erule locked_keeps [rotated]) (auto simp: Let_def add_inv limit_inv split: option.splits)

lemma mem_inv_remove_recipient: "mem_inv s \<Longrightarrow> mem_inv (snd (mem_remove_recipient m r s))"
  unfolding mem_remove_recipient_def
  by (erule locked_keeps [rotated]) (auto simp: remove_recipient_inv simp del: fun_upd_apply split: option.splits)

lemma mem_inv_enqueue: "mem_inv s \<Longrightarrow> mem_inv (snd (mem_enqueue m r t now lims s))"
  unfolding mem_enqueue_def
  by (erule locked_keeps [rotated]) (auto simp: Let_def inner_queue_def)

lemma mem_inv_summary: "mem_inv s \<Longrightarrow> mem_inv (snd (mem_summary m r now ttl s))"
  unfolding mem_summary_def
  by (erule locked_keeps [rotated]) (auto simp: Let_def inner_queue_def)

lemma mem_inv_peek: "mem_inv s \<Longrightarrow> mem_inv (snd (mem_peek m r lim now ttl s))"
  unfolding mem_peek_def
  by (erule locked_keeps [rotated]) (auto simp: Let_def inner_queue_def)

lemma mem_inv_remove: "mem_inv s \<Longrightarrow> mem_inv (snd (mem_remove m ids s))"
  unfolding mem_remove_def
  by (erule locked_keeps [rotated]) (auto simp: Let_def split: option.splits)

lemma mem_inv_hit: "mem_inv s \<Longrightarrow> mem_inv (snd (mem_hit k w now s))"
  unfolding mem_hit_def
proof (erule locked_keeps [rotated])
  fix s assume "mem_inv s"
  moreover from this have "distinct (map fst (filter P (hits s)))" for P
    by (simp add: mem_invD distinct_map_filter)
  ultimately show "mem_inv (snd (let window = now div max w 1;
      h = if 100000 < length (hits s) then filter (\<lambda>e. fst (snd e) = window) (hits s) else hits s;
      n = (case map_of h k of None \<Rightarrow> 0 | Some (w, n) \<Rightarrow> if w = window then n else 0) + 1
    in (n, s\<lparr>hits := AList.update k (window, n) h\<rparr>)))"
    by (auto simp: Let_def mem_invD intro!: mem_inv_hits distinct_update)
qed

lemma mem_inv_schedule: "mem_inv s \<Longrightarrow> mem_inv (snd (mem_schedule_relay rel due mx s))"
  unfolding mem_schedule_relay_def
  by (erule locked_keeps [rotated]) (auto intro!: mem_inv_relays simp: mem_invD dest!: set_bt_insert)

lemma mem_inv_due: "mem_inv s \<Longrightarrow> mem_inv (snd (mem_due_relays now lease lim s))"
  unfolding mem_due_relays_def
  by (erule locked_keeps [rotated]) (auto intro!: mem_inv_relays simp: mem_invD Let_def split: if_splits)

lemma mem_inv_finish: "mem_inv s \<Longrightarrow> mem_inv (snd (mem_finish_relay i s))"
  unfolding mem_finish_relay_def
  by (erule locked_keeps [rotated]) (auto intro!: mem_inv_relays simp: mem_invD bt_remove_def)

lemma bt_wf_devices_of: "mem_inv s \<Longrightarrow> bt_wf (devices_of s m)"
  by (simp add: inv_defs)

lemma mem_inv_set_device: "mem_inv s \<Longrightarrow> mem_inv (snd (mem_set_device m sv d s))"
  unfolding mem_set_device_def
  by (erule locked_keeps [rotated]) (auto intro!: mem_inv_devices simp: bt_wf_devices_of split: option.splits)

lemma mem_inv_remove_device: "mem_inv s \<Longrightarrow> mem_inv (snd (mem_remove_device m sv t s))"
  unfolding mem_remove_device_def
proof (erule locked_keeps [rotated])
  fix s assume inv: "mem_inv s"
  then have "in_devices s m = Some ds \<Longrightarrow> bt_wf ds" for ds
    using bt_wf_devices_of [OF inv, of m] by (simp add: devices_of_def)
  with inv show "mem_inv (snd ((), case in_devices s m of None \<Rightarrow> s
      | Some ds \<Rightarrow> (case map_of ds sv of None \<Rightarrow> s
        | Some d \<Rightarrow> if dv_token d = t then s\<lparr>in_devices := (in_devices s)(m \<mapsto> bt_remove sv ds)\<rparr> else s)))"
    by (auto intro!: mem_inv_devices split: option.splits)
qed

lemma mem_inv_claim: "mem_inv s \<Longrightarrow> mem_inv (snd (mem_claim_push m now h s))"
  unfolding mem_claim_push_def by (erule locked_keeps [rotated]) auto

lemma mem_inv_release: "mem_inv s \<Longrightarrow> mem_inv (snd (mem_release_push m now i s))"
  unfolding mem_release_push_def
  by (erule locked_keeps [rotated]) (auto simp: Let_def split: option.splits prod.splits)

lemma mem_inv_reads:
  "mem_inv s \<Longrightarrow> mem_inv (snd (mem_has_mediation m s))"
  "mem_inv s \<Longrightarrow> mem_inv (snd (mem_recipients m s))"
  "mem_inv s \<Longrightarrow> mem_inv (snd (mem_mediation_of r s))"
  "mem_inv s \<Longrightarrow> mem_inv (snd (mem_devices m s))"
  "mem_inv s \<Longrightarrow> mem_inv (snd (mem_ping s))"
  by (simp_all add: mem_has_mediation_def mem_recipients_def mem_mediation_of_def mem_devices_def
      mem_ping_def snd_locked)

lemmas mem_inv_ops = mem_inv_grant mem_inv_touch mem_inv_remove_idle mem_inv_add
  mem_inv_remove_recipient mem_inv_enqueue mem_inv_summary mem_inv_peek mem_inv_remove mem_inv_hit
  mem_inv_schedule mem_inv_due mem_inv_finish mem_inv_set_device mem_inv_remove_device
  mem_inv_claim mem_inv_release mem_inv_reads

section \<open>The contract\<close>

abbreviation mem_granted :: "inner \<Rightarrow> string \<Rightarrow> bool" where
  "mem_granted s m \<equiv> m \<in> mediations s"

lemmas mem_defs = mem_ping_def mem_grant_mediation_def mem_touch_mediation_def
  mem_remove_idle_mediations_def mem_has_mediation_def mem_add_recipient_def mem_remove_recipient_def
  mem_recipients_def mem_mediation_of_def mem_enqueue_def mem_summary_def mem_peek_def mem_remove_def
  mem_hit_def mem_schedule_relay_def mem_due_relays_def mem_finish_relay_def mem_set_device_def
  mem_devices_def mem_remove_device_def mem_claim_push_def mem_release_push_def

lemma memory_store_simps [simp]:
  "ping memory_store = mem_ping"
  "grant_mediation memory_store = mem_grant_mediation"
  "touch_mediation memory_store = mem_touch_mediation"
  "remove_idle_mediations memory_store = mem_remove_idle_mediations"
  "has_mediation memory_store = mem_has_mediation"
  "add_recipient memory_store = mem_add_recipient"
  "remove_recipient memory_store = mem_remove_recipient"
  "recipients memory_store = mem_recipients"
  "mediation_of memory_store = mem_mediation_of"
  "enqueue memory_store = mem_enqueue"
  "summary memory_store = mem_summary"
  "peek memory_store = mem_peek"
  "remove memory_store = mem_remove"
  "hit memory_store = mem_hit"
  "schedule_relay memory_store = mem_schedule_relay"
  "due_relays memory_store = mem_due_relays"
  "finish_relay memory_store = mem_finish_relay"
  "set_device memory_store = mem_set_device"
  "devices memory_store = mem_devices"
  "remove_device memory_store = mem_remove_device"
  "claim_push memory_store = mem_claim_push"
  "release_push memory_store = mem_release_push"
  by (simp_all add: memory_store_def)

lemma inner_queue_live: "inner_queue m now ttl s = (live_part now ttl (queue_of s m),
    s\<lparr>queues := (queues s)(m \<mapsto> live_part now ttl (queue_of s m))\<rparr>)"
  by (simp add: inner_queue_def live_part_def Let_def)

lemma queue_of_upd [simp]:
  "queue_of (s\<lparr>queues := (queues s)(m \<mapsto> q)\<rparr>) m' = (if m' = m then q else queue_of s m')"
  by (simp add: queue_of_def)

lemma queue_of_cong: "queues s' = queues s \<Longrightarrow> queue_of s' = queue_of s"
  by (rule ext) (simp add: queue_of_def)

text \<open>Every other operation leaves the fields behind the three observations alone.\<close>

definition same_view :: "inner \<Rightarrow> inner \<Rightarrow> bool" where
  "same_view s s' \<longleftrightarrow> mediations s' = mediations s \<and> owners s' = owners s \<and> queues s' = queues s"

lemma same_view_silent:
  "same_view s (snd (mem_touch_mediation m now s))" "same_view s (snd (mem_has_mediation m s))"
  "same_view s (snd (mem_recipients m s))" "same_view s (snd (mem_mediation_of r s))"
  "same_view s (snd (mem_hit k w now s))" "same_view s (snd (mem_schedule_relay rel due mx s))"
  "same_view s (snd (mem_due_relays now w lim s))" "same_view s (snd (mem_finish_relay i s))"
  "same_view s (snd (mem_set_device m sv dev s))" "same_view s (snd (mem_devices m s))"
  "same_view s (snd (mem_remove_device m sv tok s))" "same_view s (snd (mem_claim_push m now w s))"
  "same_view s (snd (mem_release_push m now w s))"
  by (auto simp: same_view_def mem_defs snd_locked Let_def split: option.splits prod.splits)

lemma mem_enqueue_cases:
  fixes s :: inner and lims :: queue_limits
  assumes "\<not> poisoned s"
  defines "q \<equiv> (\<lambda>m now. live_part now (ql_ttl_secs lims) (queue_of s m))"
    and "i \<equiv> (\<lambda>now :: u64. show_u64 (now * 1000) @ ''-'' @ show_u64 (seq s + 1))"
  shows "mem_enqueue m r t now lims s =
    (if ql_max_messages lims \<le> length (q m now) \<or> ql_max_bytes lims < message_bytes (q m now) + of_nat (length t)
     then (Inr None, s\<lparr>seq := seq s + 1, queues := (queues s)(m \<mapsto> q m now)\<rparr>)
     else (Inr (Some (i now)), s\<lparr>seq := seq s + 1, queues := (queues s)(m \<mapsto> q m now @ [\<lparr>q_id = i now, q_recipient = r,
        q_received = id_millis (i now) div 1000, q_message = t\<rparr>])\<rparr>))"
proof -
  have [simp]: "queue_of (s\<lparr>seq := seq s + 1\<rparr>) m = queue_of s m" by (simp add: queue_of_def)
  show ?thesis
    using assms(1) by (simp add: mem_enqueue_def locked_def inner_queue_live q_def i_def Let_def)
qed

lemma fold_summary_count: "qs_count (fold add_to_summary qs sm) = qs_count sm + length qs"
  by (induction qs arbitrary: sm) (auto simp: add_to_summary_def)

interpretation mem: store memory_store mem_inv mem_granted owners queue_of
proof
  fix s s' :: inner and m now r k w rel due mx lim i sv dev tok
  assume inv: "mem_inv s" and
    s': "s' \<in> {snd (touch_mediation memory_store m now s), snd (has_mediation memory_store m s),
       snd (recipients memory_store m s), snd (mediation_of memory_store r s), snd (hit memory_store k w now s),
       snd (schedule_relay memory_store rel due mx s), snd (due_relays memory_store now w lim s),
       snd (finish_relay memory_store i s), snd (set_device memory_store m sv dev s), snd (devices memory_store m s),
       snd (remove_device memory_store m sv tok s), snd (claim_push memory_store m now w s),
       snd (release_push memory_store m now w s)}"
  from s' have "mem_inv s'"
    by (elim insertE emptyE) (simp_all add: mem_inv_ops inv)
  moreover from s' have "same_view s s'"
    by (elim insertE emptyE) (simp_all add: same_view_silent)
  ultimately show "mem_inv s' \<and> mem_granted s' = mem_granted s \<and> owners s' = owners s \<and> queue_of s' = queue_of s"
    using queue_of_cong [of s' s] by (simp add: same_view_def)
next
  fix s s' :: inner and m now
  assume "mem_inv s" "s' = snd (grant_mediation memory_store m now s)"
  then show "mem_inv s' \<and> owners s' = owners s \<and> queue_of s' = queue_of s
      \<and> (\<forall>m'. m' \<noteq> m \<longrightarrow> mem_granted s' m' = mem_granted s m')"
    by (auto simp: mem_inv_grant) (auto simp: mem_defs snd_locked queue_of_def split: if_splits)
next
  fix s s' :: inner and m now
  assume "grant_mediation memory_store m now s = (Inr (), s')"
  then show "mem_granted s' m" by (auto simp: mem_defs)
next
  fix s s' :: inner and m r mx
  assume "mem_inv s" "s' = snd (add_recipient memory_store m r mx s)"
  then show "mem_inv s' \<and> mem_granted s' = mem_granted s \<and> queue_of s' = queue_of s
       \<and> (owners s' = owners s \<or> owners s r = None \<and> owners s' = (owners s)(r \<mapsto> m))"
    by (auto simp: mem_inv_add)
      (auto simp: mem_defs snd_locked Let_def queue_of_def split: option.splits if_splits)
next
  fix s s' :: inner and m r mx a
  assume "mem_inv s" "add_recipient memory_store m r mx s = (Inr a, s')"
  then show "(a = Added \<longleftrightarrow> owners s r = None \<and> owners s' r = Some m)
       \<and> (a = AlreadyYours \<longleftrightarrow> owners s r = Some m)
       \<and> (a = TakenByOther \<longleftrightarrow> owners s r \<noteq> None \<and> owners s r \<noteq> Some m)"
    by (auto simp: mem_defs Let_def split: option.splits if_splits)
next
  fix s s' :: inner and m r
  assume "mem_inv s" "s' = snd (remove_recipient memory_store m r s)"
  then show "mem_inv s' \<and> mem_granted s' = mem_granted s \<and> queue_of s' = queue_of s
       \<and> (owners s' = owners s \<or> owners s r = Some m \<and> owners s' = (owners s)(r := None))"
    by (auto simp: mem_inv_remove_recipient)
      (auto simp: mem_defs snd_locked Let_def queue_of_def split: option.splits if_splits)
next
  fix s s' :: inner and m b
  assume "has_mediation memory_store m s = (Inr b, s')"
  then show "b = mem_granted s m" by (auto simp: mem_defs)
next
  fix s s' :: inner and m rs
  assume "mem_inv s" "recipients memory_store m s = (Inr rs, s')"
  then show "sorted rs \<and> distinct rs \<and> set rs = {r. owners s r = Some m}"
    by (auto simp: mem_defs mem_inv_def own_inv_def)
next
  fix s s' :: inner and r o'
  assume "mediation_of memory_store r s = (Inr o', s')"
  then show "o' = owners s r" by (auto simp: mem_defs)
next
  fix s s' :: inner and m r t now and lims :: queue_limits
  assume inv: "mem_inv s" and "s' = snd (enqueue memory_store m r t now lims s)"
  then have s': "s' = snd (mem_enqueue m r t now lims s)" by (simp)
  then have "mem_inv s'" using inv by (simp add: mem_inv_enqueue)
  then show "mem_inv s' \<and> mem_granted s' = mem_granted s \<and> owners s' = owners s
       \<and> (\<forall>m'. m' \<noteq> m \<longrightarrow> queue_of s' m' = queue_of s m')
       \<and> set (live_part now (ql_ttl_secs lims) (queue_of s m)) \<subseteq> set (queue_of s' m)"
  proof (cases "poisoned s")
    case True
    then have "s' = s" by (simp add: s' mem_enqueue_def snd_locked)
    then show ?thesis using inv by (auto simp: live_part_def)
  qed (auto simp: s' mem_enqueue_cases queue_of_def)
next
  fix s s' :: inner and m r t now i and lims :: queue_limits
  assume "enqueue memory_store m r t now lims s = (Inr (Some i), s')"
  then have e: "mem_enqueue m r t now lims s = (Inr (Some i), s')" by (simp)
  then have "\<not> poisoned s" by (auto simp: mem_enqueue_def)
  with e show "\<exists>q. queue_of s' m = live_part now (ql_ttl_secs lims) (queue_of s m) @ [q]
         \<and> q_id q = i \<and> q_recipient q = r \<and> q_message q = t"
    by (auto simp: mem_enqueue_cases queue_of_def split: if_splits)
next
  fix s s' :: inner and m ro now ttl lim
  assume "mem_inv s" and "s' \<in> {snd (summary memory_store m ro now ttl s), snd (peek memory_store m ro lim now ttl s)}"
  then show "mem_inv s' \<and> mem_granted s' = mem_granted s \<and> owners s' = owners s
       \<and> (\<forall>m'. m' \<noteq> m \<longrightarrow> queue_of s' m' = queue_of s m')
       \<and> (queue_of s' m = queue_of s m \<or> queue_of s' m = live_part now ttl (queue_of s m))"
    by (auto simp: mem_summary_def mem_peek_def snd_locked inner_queue_live)
next
  fix s s' :: inner and m ro lim now ttl qs
  assume "peek memory_store m ro lim now ttl s = (Inr qs, s')"
  then show "qs = take lim (matching ro (live_part now ttl (queue_of s m)))"
    by (auto simp: mem_peek_def inner_queue_live)
next
  fix s s' :: inner and m ro now ttl sm
  assume "summary memory_store m ro now ttl s = (Inr sm, s')"
  then show "qs_count sm = length (matching ro (live_part now ttl (queue_of s m)))"
    by (auto simp: mem_summary_def inner_queue_live fold_summary_count default_summary_def)
next
  fix s s' :: inner and m ids
  assume "mem_inv s" and "s' = snd (remove memory_store m ids s)"
  then show "mem_inv s' \<and> mem_granted s' = mem_granted s \<and> owners s' = owners s
       \<and> (\<forall>m'. m' \<noteq> m \<longrightarrow> queue_of s' m' = queue_of s m')
       \<and> (\<forall>q\<in>set (queue_of s m). q_id q \<notin> set ids \<longrightarrow> q \<in> set (queue_of s' m))"
    by (auto simp: mem_inv_remove)
      (auto simp: mem_defs snd_locked queue_of_def Let_def split: option.splits if_splits)
next
  fix s s' :: inner and m ids n
  assume "remove memory_store m ids s = (Inr n, s')"
  then show "queue_of s' m = filter (\<lambda>q. q_id q \<notin> set ids) (queue_of s m)"
    by (auto simp: mem_defs queue_of_def Let_def split: option.splits)
qed

section \<open>Reachable states\<close>

inductive mem_step :: "inner \<Rightarrow> inner \<Rightarrow> bool" where
  "mem_step s (snd (mem_grant_mediation m now s))"
| "mem_step s (snd (mem_touch_mediation m now s))"
| "mem_step s (snd (mem_remove_idle_mediations cutoff limit s))"
| "mem_step s (snd (mem_add_recipient m r mx s))"
| "mem_step s (snd (mem_remove_recipient m r s))"
| "mem_step s (snd (mem_enqueue m r t now lims s))"
| "mem_step s (snd (mem_summary m ro now ttl s))"
| "mem_step s (snd (mem_peek m ro limit now ttl s))"
| "mem_step s (snd (mem_remove m ids s))"
| "mem_step s (snd (mem_hit k w now s))"
| "mem_step s (snd (mem_schedule_relay rel due mx s))"
| "mem_step s (snd (mem_due_relays now lease limit s))"
| "mem_step s (snd (mem_finish_relay i s))"
| "mem_step s (snd (mem_set_device m sv dev s))"
| "mem_step s (snd (mem_remove_device m sv tok s))"
| "mem_step s (snd (mem_claim_push m now hold s))"
| "mem_step s (snd (mem_release_push m now interval s))"

lemma mem_step_inv: "mem_step s s' \<Longrightarrow> mem_inv s \<Longrightarrow> mem_inv s'"
  by (induction rule: mem_step.induct) (simp_all add: mem_inv_ops)

lemma mem_reachable_inv: "mem_step\<^sup>*\<^sup>* s s' \<Longrightarrow> mem_inv s \<Longrightarrow> mem_inv s'"
  by (induction rule: rtranclp_induct) (auto intro: mem_step_inv)

text \<open>Steps of a store that is always given the same two limits, as the mediator does: how many recipient
  DIDs a mediation may register, and how many relays may wait.\<close>

inductive limited_step :: "nat \<Rightarrow> nat \<Rightarrow> inner \<Rightarrow> inner \<Rightarrow> bool" for max_dids max_pending :: nat where
  "limited_step max_dids max_pending s (snd (mem_grant_mediation m now s))"
| "limited_step max_dids max_pending s (snd (mem_touch_mediation m now s))"
| "limited_step max_dids max_pending s (snd (mem_remove_idle_mediations cutoff limit s))"
| "limited_step max_dids max_pending s (snd (mem_add_recipient m r max_dids s))"
| "limited_step max_dids max_pending s (snd (mem_remove_recipient m r s))"
| "limited_step max_dids max_pending s (snd (mem_enqueue m r t now lims s))"
| "limited_step max_dids max_pending s (snd (mem_summary m ro now ttl s))"
| "limited_step max_dids max_pending s (snd (mem_peek m ro limit now ttl s))"
| "limited_step max_dids max_pending s (snd (mem_remove m ids s))"
| "limited_step max_dids max_pending s (snd (mem_hit k w now s))"
| "limited_step max_dids max_pending s (snd (mem_schedule_relay rel due max_pending s))"
| "limited_step max_dids max_pending s (snd (mem_due_relays now lease limit s))"
| "limited_step max_dids max_pending s (snd (mem_finish_relay i s))"
| "limited_step max_dids max_pending s (snd (mem_set_device m sv dev s))"
| "limited_step max_dids max_pending s (snd (mem_remove_device m sv tok s))"
| "limited_step max_dids max_pending s (snd (mem_claim_push m now hold s))"
| "limited_step max_dids max_pending s (snd (mem_release_push m now interval s))"

text \<open>No lock was poisoned, so that no operation fails, and both limits are kept.\<close>

definition within :: "nat \<Rightarrow> nat \<Rightarrow> inner \<Rightarrow> bool" where
  "within max_dids max_pending s \<longleftrightarrow>
     \<not> poisoned s \<and> (\<forall>m. length (recips_of s m) \<le> max_dids) \<and> length (relays s) \<le> max_pending"

lemma limited_is_step: "limited_step md mp s s' \<Longrightarrow> mem_step s s'"
  by (induction rule: limited_step.induct) (rule mem_step.intros)+

lemma within_simps [simp]:
  "within md mp (s\<lparr>mediations := x\<rparr>) = within md mp s" "within md mp (s\<lparr>owners := w\<rparr>) = within md mp s"
  "within md mp (s\<lparr>queues := q\<rparr>) = within md mp s" "within md mp (s\<lparr>hits := h\<rparr>) = within md mp s"
  "within md mp (s\<lparr>seq := n\<rparr>) = within md mp s" "within md mp (s\<lparr>in_devices := d\<rparr>) = within md mp s"
  "within md mp (s\<lparr>push_sent := p\<rparr>) = within md mp s" "within md mp (s\<lparr>seen := e\<rparr>) = within md mp s"
  by (simp_all add: within_def recips_of_def)

lemma within_recipients:
  "within md mp s \<Longrightarrow> length rs \<le> md \<Longrightarrow> within md mp (s\<lparr>in_recipients := (in_recipients s)(m \<mapsto> rs)\<rparr>)"
  by (simp add: within_def)

lemma within_relays: "within md mp s \<Longrightarrow> length rs \<le> mp \<Longrightarrow> within md mp (s\<lparr>relays := rs\<rparr>)"
  by (simp add: within_def recips_of_def)

lemma length_bt_insert: "bt_wf m \<Longrightarrow> length (bt_insert k v m) = length m + (if map_of m k = None then 1 else 0)"
  by (induction m rule: bt_insert.induct) (auto simp: bt_wf_def dest: map_of_SomeD)

lemma length_bt_remove: "length (bt_remove k m) \<le> length m"
  by (simp add: bt_remove_def)

lemma within_forget: "within md mp s \<Longrightarrow> within md mp (forget_mediation m s)"
  by (auto simp: within_def forget_mediation_def recips_of_def Let_def)

lemma within_fold_forget: "within md mp s \<Longrightarrow> within md mp (fold forget_mediation ms s)"
  by (induction ms arbitrary: s) (auto simp: within_forget)

lemma within_recips: "within md mp s \<Longrightarrow> length (recips_of s m) \<le> md"
  by (simp add: within_def)

lemma within_removed:
  assumes "within md mp s"
  shows "within md mp (s\<lparr>owners := w, in_recipients := (case in_recipients s m of Some rs \<Rightarrow> (in_recipients s)(m \<mapsto> removeAll r rs)
      | None \<Rightarrow> in_recipients s)\<rparr>)"
proof (cases "in_recipients s m")
  case (Some rs)
  have "length rs \<le> md" using within_recips [OF assms, of m] by (simp add: recips_of_def Some)
  then have "length (removeAll r rs) \<le> md" using length_removeAll_less_eq [of r rs] by linarith
  then show ?thesis using within_recipients [OF assms] by (simp add: Some within_def recips_of_def)
qed (use assms in \<open>simp add: within_def recips_of_def\<close>)

lemma within_step: "limited_step md mp s s' \<Longrightarrow> mem_inv s \<Longrightarrow> within md mp s \<Longrightarrow> within md mp s'"
proof (induction rule: limited_step.induct)
  case (4 s m r)
  then show ?case using within_recips [OF 4(2), of m]
    by (auto simp: mem_add_recipient_def snd_locked Let_def insort_insert_key_def length_insort intro!: within_recipients split: option.split)
next
  case (5 s m r)
  then show ?case using within_removed [OF 5(2)]
    by (auto simp: mem_remove_recipient_def snd_locked simp del: fun_upd_apply split: option.split)
next
  case (11 s rel due)
  then have "length (relays s) \<le> mp" "bt_wf (relays s)" by (simp_all add: within_def mem_invD)
  then show ?case using 11 length_bt_insert [of "relays s" "pr_id rel" "(due, rel)"]
    by (auto simp: mem_schedule_relay_def snd_locked intro!: within_relays)
next
  case (12 s now lease limit)
  then show ?case by (auto simp: mem_due_relays_def snd_locked Let_def within_def recips_of_def)
next
  case (13 s i)
  then show ?case using length_bt_remove [of i "relays s"] by (auto simp: mem_finish_relay_def snd_locked within_def recips_of_def)
qed (auto simp: mem_defs snd_locked Let_def inner_queue_def within_fold_forget split: option.split)

lemma within_reachable:
  "(limited_step md mp)\<^sup>*\<^sup>* s s' \<Longrightarrow> mem_inv s \<Longrightarrow> within md mp s \<Longrightarrow> mem_inv s' \<and> within md mp s'"
  by (induction rule: rtranclp_induct) (auto intro: within_step mem_step_inv [OF limited_is_step])

section \<open>Queues\<close>

lemma id_millis_id [simp]: "id_millis (show_u64 t @ CHR ''-'' # show_u64 n) = t"
proof -
  have "split_once (CHR ''-'') (show_u64 t @ CHR ''-'' # show_u64 n) = Some (show_u64 t, show_u64 n)"
    by (rule split_once_append) (simp add: show_u64_def)
  then show ?thesis by (simp add: id_millis_def)
qed

lemma is_queue_id_id: "is_queue_id (show_u64 t @ CHR ''-'' # show_u64 n)"
proof -
  have "split_once (CHR ''-'') (show_u64 t @ CHR ''-'' # show_u64 n) = Some (show_u64 t, show_u64 n)"
    by (rule split_once_append) (simp add: show_u64_def)
  then show ?thesis using show_nat_digits by (simp add: is_queue_id_def show_u64_def)
qed

lemma queue_id_inj:
  "show_u64 t @ CHR ''-'' # show_u64 n = show_u64 t' @ CHR ''-'' # show_u64 n' \<longleftrightarrow> t = t' \<and> n = n'"
proof
  assume eq: "show_u64 t @ CHR ''-'' # show_u64 n = show_u64 t' @ CHR ''-'' # show_u64 n'"
  have s: "split_once (CHR ''-'') (show_u64 a @ CHR ''-'' # show_u64 b) = Some (show_u64 a, show_u64 b)" for a b
    by (rule split_once_append) (simp add: show_u64_def)
  have "Some (show_u64 t, show_u64 n) = Some (show_u64 t', show_u64 n')"
    using s [of t n] s [of t' n'] unfolding eq by (rule trans [OF sym])
  then have "show_u64 t = show_u64 t'" "show_u64 n = show_u64 n'" by simp_all
  then have "parse_u64 (show_u64 t) = parse_u64 (show_u64 t')" "parse_u64 (show_u64 n) = parse_u64 (show_u64 n')"
    by simp_all
  then show "t = t' \<and> n = n'" by simp
qed simp

lemma millis_to_secs:
  assumes "unat (now :: u64) * 1000 < 2 ^ 64"
  shows "now * 1000 div 1000 = now"
proof -
  have "unat (now * 1000) = unat now * 1000" using assms by (simp add: unat_word_ariths)
  then have "unat (now * 1000 div 1000) = unat now" by (simp add: unat_div)
  then show ?thesis by (simp add: word_unat_eq_iff)
qed

definition queue_bytes :: "queued list \<Rightarrow> nat" where
  "queue_bytes qs = sum_list (map (\<lambda>q. length (q_message q)) qs)"

lemma unat_message_bytes: "queue_bytes qs < 2 ^ 64 \<Longrightarrow> unat (message_bytes qs) = queue_bytes qs"
proof (induction qs)
  case (Cons q qs)
  let ?n = "length (q_message q)"
  have lt: "?n + queue_bytes qs < 2 ^ 64" using Cons.prems by (simp add: queue_bytes_def)
  then have IH: "unat (message_bytes qs) = queue_bytes qs" using Cons.IH by simp
  have "message_bytes (q # qs) = of_nat ?n + message_bytes qs" by (simp add: message_bytes_def)
  moreover have "unat (of_nat ?n :: u64) = ?n" using lt by (simp add: unat_of_nat)
  ultimately have "unat (message_bytes (q # qs)) = (?n + queue_bytes qs) mod 2 ^ 64"
    using IH by (simp add: unat_word_ariths)
  then show ?case using lt by (simp add: queue_bytes_def)
qed (simp add: message_bytes_def queue_bytes_def)

lemma enqueue_within_limits:
  assumes e: "mem_enqueue m r t now lims s = (Inr (Some i), s')"
    and nat: "queue_bytes (live_part now (ql_ttl_secs lims) (queue_of s m)) + length t < 2 ^ 64"
  shows "length (queue_of s' m) \<le> ql_max_messages lims \<and> queue_bytes (queue_of s' m) \<le> unat (ql_max_bytes lims)"
proof -
  let ?q = "live_part now (ql_ttl_secs lims) (queue_of s m)"
  have np: "\<not> poisoned s" using e by (auto simp: mem_enqueue_def)
  have len: "length ?q < ql_max_messages lims" and bb: "message_bytes ?q + of_nat (length t) \<le> ql_max_bytes lims"
    and q: "queue_of s' m = ?q @ [\<lparr>q_id = i, q_recipient = r, q_received = id_millis i div 1000, q_message = t\<rparr>]"
    using e by (auto simp: mem_enqueue_cases [OF np] queue_of_def split: if_splits)
  have "unat (message_bytes ?q + of_nat (length t)) = (queue_bytes ?q + length t) mod 2 ^ 64"
    using nat unat_message_bytes [of ?q] by (simp add: unat_word_ariths unat_of_nat)
  then have "queue_bytes ?q + length t \<le> unat (ql_max_bytes lims)"
    using bb nat by (simp add: word_le_nat_alt)
  then show ?thesis using len q by (simp add: queue_bytes_def)
qed

text \<open>Message ids: what an id of a queued message looks like, and that ids do not repeat.\<close>

definition ids_inv :: "inner \<Rightarrow> bool" where
  "ids_inv s \<longleftrightarrow> (\<forall>m. distinct (map q_id (queue_of s m))
     \<and> (\<forall>q\<in>set (queue_of s m). \<exists>t n. q_id q = show_u64 t @ ''-'' @ show_u64 n \<and> n \<le> seq s))"

lemma distinct_map_live: "distinct (map f qs) \<Longrightarrow> distinct (map f (live_part now ttl qs))"
  by (simp add: live_part_def distinct_map_filter)

lemma ids_inv_enqueue:
  assumes inv: "ids_inv s" and room: "unat (seq s) + 1 < 2 ^ 64"
  shows "ids_inv (snd (mem_enqueue m r t now lims s))"
proof (cases "poisoned s")
  case True
  then show ?thesis using inv by (simp add: mem_enqueue_def snd_locked)
next
  case False
  have u: "unat (seq s + 1) = unat (seq s) + 1" using room by (simp add: unat_word_ariths)
  let ?q = "live_part now (ql_ttl_secs lims) (queue_of s m)"
  let ?i = "show_u64 (now * 1000) @ CHR ''-'' # show_u64 (seq s + 1)"
  have old: "\<exists>t n. q_id q = show_u64 t @ ''-'' @ show_u64 n \<and> n \<le> seq s" if "q \<in> set (queue_of s m')" for q m'
    using inv that by (simp add: ids_inv_def)
  have new: "?i \<notin> q_id ` set (queue_of s m)"
  proof
    assume "?i \<in> q_id ` set (queue_of s m)"
    then obtain t n where "?i = show_u64 t @ CHR ''-'' # show_u64 n" "n \<le> seq s" using old by fastforce
    then show False using u by (simp add: queue_id_inj word_le_nat_alt)
  qed
  have grow: "n \<le> seq s \<Longrightarrow> n \<le> seq s + 1" for n using u by (simp add: word_le_nat_alt)
  have "set ?q \<subseteq> set (queue_of s m)" by (auto simp: live_part_def)
  with False new old inv grow show ?thesis
    by (auto simp: ids_inv_def mem_enqueue_cases queue_of_def distinct_map_live split: if_splits)
      (blast | fastforce)+
qed

lemma ids_inv_cong: "ids_inv s \<Longrightarrow> queues s' = queues s \<Longrightarrow> seq s' = seq s \<Longrightarrow> ids_inv s'"
  by (simp add: ids_inv_def queue_of_def)

lemma ids_inv_subqueue:
  assumes "ids_inv s" and "seq s' = seq s"
    and "\<And>m. \<exists>P. queue_of s' m = filter P (queue_of s m)"
  shows "ids_inv s'"
  unfolding ids_inv_def
proof (intro allI conjI)
  fix m
  obtain P where P: "queue_of s' m = filter P (queue_of s m)" using assms(3) by blast
  show "distinct (map q_id (queue_of s' m))"
    using assms(1) by (simp add: P ids_inv_def distinct_map_filter)
  show "\<forall>q\<in>set (queue_of s' m). \<exists>t n. q_id q = show_u64 t @ ''-'' @ show_u64 n \<and> n \<le> seq s'"
    using assms(1,2) by (auto simp: P ids_inv_def)
qed

lemma queue_of_forget: "queue_of (forget_mediation k s) m = (if m = k then [] else queue_of s m)"
  by (simp add: forget_mediation_def queue_of_def Let_def)

lemma seq_forget [simp]: "seq (forget_mediation k s) = seq s"
  by (simp add: forget_mediation_def Let_def)

lemma ids_inv_forget: "ids_inv s \<Longrightarrow> ids_inv (forget_mediation k s)"
proof (rule ids_inv_subqueue)
  fix m
  show "\<exists>P. queue_of (forget_mediation k s) m = filter P (queue_of s m)"
    by (rule exI [of _ "\<lambda>_. m \<noteq> k"]) (auto simp: queue_of_forget)
qed simp_all

lemma ids_inv_fold_forget: "ids_inv s \<Longrightarrow> ids_inv (fold forget_mediation ms s)"
  by (induction ms arbitrary: s) (auto simp: ids_inv_forget)

lemma ids_inv_expire:
  "ids_inv s \<Longrightarrow> ids_inv (s\<lparr>queues := (queues s)(m \<mapsto> filter P (queue_of s m))\<rparr>)"
proof (rule ids_inv_subqueue)
  fix m'
  show "\<exists>Q. queue_of (s\<lparr>queues := (queues s)(m \<mapsto> filter P (queue_of s m))\<rparr>) m' = filter Q (queue_of s m')"
    by (rule exI [of _ "\<lambda>q. m' = m \<longrightarrow> P q"]) auto
qed simp_all

lemma ids_inv_step: "mem_step s s' \<Longrightarrow> ids_inv s \<Longrightarrow> unat (seq s) + 1 < 2 ^ 64 \<Longrightarrow> ids_inv s'"
proof (induction rule: mem_step.induct)
  case (6 s m r t now lims)
  then show ?case by (simp add: ids_inv_enqueue)
next
  case (9 s m ids)
  have "queues s m = Some q \<Longrightarrow> ids_inv (s\<lparr>queues := (queues s)(m \<mapsto> filter (\<lambda>e. q_id e \<notin> set ids) q)\<rparr>)" for q
    using ids_inv_expire [OF 9(1), of m "\<lambda>e. q_id e \<notin> set ids"] by (simp add: queue_of_def)
  then show ?case using 9 by (auto simp: mem_remove_def snd_locked Let_def split: option.splits)
qed (auto simp: mem_defs snd_locked Let_def inner_queue_def ids_inv_expire ids_inv_fold_forget
    elim: ids_inv_cong split: option.splits prod.splits)

section \<open>Pushes, hits and relays\<close>

text \<open>The wallet picks up at each of the times \<open>ts\<close>.\<close>

definition release_all :: "string \<Rightarrow> u64 \<Rightarrow> u64 list \<Rightarrow> inner \<Rightarrow> inner" where
  "release_all m interval ts s = fold (\<lambda>t s. snd (mem_release_push m t interval s)) ts s"

text \<open>The marker of a push sent at \<open>sent\<close> is there until \<open>sent + interval\<close> at least.\<close>

definition marked :: "string \<Rightarrow> u64 \<Rightarrow> u64 \<Rightarrow> u64 \<Rightarrow> inner \<Rightarrow> bool" where
  "marked m sent interval t2 s \<longleftrightarrow>
     (\<exists>til. push_sent s m = Some (sent, til) \<and> saturating_add sent interval \<le> til)
     \<or> saturating_add sent interval \<le> t2"

lemma marked_release:
  "marked m sent interval t2 s \<Longrightarrow> t \<le> t2 \<Longrightarrow> marked m sent interval t2 (snd (mem_release_push m t interval s))"
  by (cases "poisoned s")
    (auto simp: marked_def mem_release_push_def snd_locked Let_def min_def split: option.splits)

lemma marked_release_all:
  "marked m sent interval t2 s \<Longrightarrow> \<forall>t\<in>set ts. t \<le> t2 \<Longrightarrow> marked m sent interval t2 (release_all m interval ts s)"
  by (induction ts arbitrary: s) (auto simp: release_all_def marked_release)

lemma marked_claim: "marked m sent interval t2 s \<Longrightarrow> mem_claim_push m t2 hold s = (Inr True, s') \<Longrightarrow>
    saturating_add sent interval \<le> t2"
  by (auto simp: marked_def mem_claim_push_def split: if_splits)

lemma saturating_add_mono: "a \<le> b \<Longrightarrow> saturating_add t a \<le> saturating_add t b"
  by (simp add: word_le_nat_alt unat_saturating_add)

lemma claim_marked:
  "mem_claim_push m t1 hold s = (Inr True, s') \<Longrightarrow> interval \<le> hold \<Longrightarrow> marked m t1 interval t2 s'"
  by (auto simp: marked_def mem_claim_push_def saturating_add_mono split: if_splits)

text \<open>The count of a key in the current window; pruning never forgets a window's count.\<close>

definition window_count :: "inner \<Rightarrow> u64 \<Rightarrow> string \<Rightarrow> u64" where
  "window_count s window key =
     (case map_of (hits s) key of Some (w, n) \<Rightarrow> if w = window then n else 0 | None \<Rightarrow> 0)"

lemma map_of_filter_window:
  "distinct (map fst h) \<Longrightarrow>
     map_of (filter (\<lambda>e. fst (snd e) = window) h) k =
       (case map_of h k of Some (w, n) \<Rightarrow> if w = window then Some (w, n) else None | None \<Rightarrow> None)"
proof (induction h)
  case (Cons e h)
  obtain k' w n where e: "e = (k', w, n)" by (cases e) auto
  have "k' \<notin> fst ` set h \<Longrightarrow> map_of h k' = None" by (simp add: map_of_eq_None_iff)
  then show ?case using Cons e by (auto split: option.splits)
qed simp

lemma hit_counts:
  assumes "mem_inv s" "mem_hit key w now s = (Inr n, s')"
  defines "window \<equiv> now div max w 1"
  shows "n = window_count s window key + 1 \<and> window_count s' window key = n
    \<and> (\<forall>k. k \<noteq> key \<longrightarrow> window_count s' window k = window_count s window k)"
proof -
  let ?h = "if 100000 < length (hits s) then filter (\<lambda>e. fst (snd e) = window) (hits s) else hits s"
  have d: "distinct (map fst (hits s))" using assms(1) by (rule mem_invD)
  have h: "(case map_of ?h k of Some (w, n) \<Rightarrow> if w = window then n else 0 | None \<Rightarrow> 0) = window_count s window k" for k
    by (auto simp: window_count_def map_of_filter_window [OF d] split: option.splits)
  have "n = (case map_of ?h key of Some (w, n) \<Rightarrow> if w = window then n else 0 | None \<Rightarrow> 0) + 1"
    and s': "hits s' = AList.update key (window, n) ?h"
    using assms(2) unfolding mem_hit_def Let_def window_def [symmetric] locked_Inr by auto
  then have n: "n = window_count s window key + 1" by (simp only: h)
  have "window_count s' window k = (if k = key then n else window_count s window k)" for k
    using h [of k] by (simp add: window_count_def s' update_conv)
  then show ?thesis using n by simp
qed

text \<open>Relays handed out are leased: they are not due again before the lease ends.\<close>

lemma due_relays_spec:
  assumes "mem_inv s" "mem_due_relays now lease limit s = (Inr rs, s')"
  shows "length rs \<le> limit"
    and "\<forall>r\<in>set rs. \<exists>t. map_of (relays s) (pr_id r) = Some (t, r) \<and> t \<le> now
      \<and> map_of (relays s') (pr_id r) = Some (now + lease, r)"
proof -
  let ?due = "filter (\<lambda>e. fst (snd e) \<le> now) (relays s)"
  let ?taken = "take limit (sort_key (\<lambda>e. fst (snd e)) ?due)"
  have rs: "rs = map (\<lambda>e. snd (snd e)) ?taken"
    and s': "relays s' = map (\<lambda>(k, v). (k, if k \<in> fst ` set ?taken then (now + lease, snd v) else v)) (relays s)"
    using assms(2) by (auto simp: mem_due_relays_def Let_def)
  then show "length rs \<le> limit" by simp
  have d: "distinct (map fst (relays s))" using assms(1) by (auto simp: inv_defs bt_wf_def)
  show "\<forall>r\<in>set rs. \<exists>t. map_of (relays s) (pr_id r) = Some (t, r) \<and> t \<le> now
      \<and> map_of (relays s') (pr_id r) = Some (now + lease, r)"
  proof
    fix r assume "r \<in> set rs"
    then obtain k t where e: "(k, t, r) \<in> set ?taken" using rs by auto
    then have due: "(k, t, r) \<in> set (relays s)" "t \<le> now" by (auto dest: in_set_takeD)
    then have "pr_id r = k" using mem_invD(3) [OF assms(1)] by blast
    moreover have "map_of (relays s) k = Some (t, r)" using due d by simp
    moreover have "k \<in> fst ` set ?taken" using e by force
    then have "map_of (relays s') k = Some (now + lease, r)"
      using \<open>map_of (relays s) k = Some (t, r)\<close> unfolding s' by (simp add: map_of_map_key)
    ultimately show "\<exists>t. map_of (relays s) (pr_id r) = Some (t, r) \<and> t \<le> now
        \<and> map_of (relays s') (pr_id r) = Some (now + lease, r)" using due by auto
  qed
qed

lemma unat_inc_le: "unat (a + 1 :: u64) \<le> unat a + 1"
  by (simp add: unat_word_ariths)

lemma seq_fold_forget [simp]: "seq (fold forget_mediation ms s) = seq s"
  by (induction ms arbitrary: s) auto

lemma seq_enqueue: "seq (snd (mem_enqueue m r t now lims s)) = (if poisoned s then seq s else seq s + 1)"
  by (cases "poisoned s") (simp_all add: mem_enqueue_cases, simp add: mem_enqueue_def snd_locked)

lemma mem_step_seq: "mem_step s s' \<Longrightarrow> unat (seq s') \<le> unat (seq s) + 1"
proof (induction rule: mem_step.induct)
  case (6 s m r t now lims)
  then show ?case using unat_inc_le [of "seq s"] by (simp add: seq_enqueue)
qed (auto simp: mem_defs snd_locked Let_def inner_queue_def split: option.splits prod.splits)

lemma ids_inv_new: "ids_inv mem_new"
  by (simp add: ids_inv_def mem_new_def queue_of_def)

lemma ids_inv_steps:
  "(mem_step ^^ n) mem_new s \<Longrightarrow> n < 2 ^ 64 - 1 \<Longrightarrow> ids_inv s \<and> unat (seq s) \<le> n"
proof (induction n arbitrary: s)
  case 0
  then show ?case using ids_inv_new by (auto simp: mem_new_def)
next
  case (Suc n)
  then obtain t where t: "(mem_step ^^ n) mem_new t" "mem_step t s" by auto
  with Suc have "ids_inv t" "unat (seq t) \<le> n" by auto
  then show ?case using t(2) Suc.prems(2) ids_inv_step [of t s] mem_step_seq [of t s] by simp
qed

lemma summary_fold:
  fixes sm :: queue_summary
  assumes "queue_bytes qs + unat (qs_total_bytes sm) < 2 ^ 64"
    and "qs_oldest sm = None \<longleftrightarrow> qs_newest sm = None"
  shows "unat (qs_total_bytes (fold add_to_summary qs sm)) = queue_bytes qs + unat (qs_total_bytes sm)"
  using assms
proof (induction qs arbitrary: sm)
  case (Cons q qs)
  let ?sm = "add_to_summary q sm"
  have "unat (qs_total_bytes ?sm) = length (q_message q) + unat (qs_total_bytes sm)"
    using Cons.prems(1) by (simp add: add_to_summary_def unat_word_ariths unat_of_nat queue_bytes_def)
  then have "unat (qs_total_bytes (fold add_to_summary qs ?sm)) = queue_bytes qs + unat (qs_total_bytes ?sm)"
    using Cons.prems(1) by (intro Cons.IH) (simp_all add: queue_bytes_def add_to_summary_def)
  then show ?case
    using \<open>unat (qs_total_bytes ?sm) = _\<close> by (simp add: queue_bytes_def)
qed (simp add: queue_bytes_def)

lemma summary_oldest:
  "qs_oldest (fold add_to_summary qs sm) =
     (if qs = [] then qs_oldest sm
      else Some (Min (q_received ` set qs \<union> set_option (qs_oldest sm))))"
proof (induction qs arbitrary: sm)
  case (Cons q qs)
  have "set_option (qs_oldest (add_to_summary q sm)) = {Min (insert (q_received q) (set_option (qs_oldest sm)))}"
    by (cases "qs_oldest sm") (auto simp: add_to_summary_def min.commute)
  then show ?case using Cons
    by (cases "qs_oldest sm"; cases "qs = []")
      (auto simp: add_to_summary_def min.commute min.left_commute min.assoc Min_insert2 Un_commute)
qed simp

lemma summary_newest:
  "qs_newest (fold add_to_summary qs sm) =
     (if qs = [] then qs_newest sm
      else Some (Max (q_received ` set qs \<union> set_option (qs_newest sm))))"
proof (induction qs arbitrary: sm)
  case (Cons q qs)
  have "set_option (qs_newest (add_to_summary q sm)) = {Max (insert (q_received q) (set_option (qs_newest sm)))}"
    by (cases "qs_newest sm") (auto simp: add_to_summary_def max.commute)
  then show ?case using Cons
    by (cases "qs_newest sm"; cases "qs = []")
      (auto simp: add_to_summary_def max.commute max.left_commute max.assoc Max_insert2 Un_commute)
qed simp

section \<open>Properties of the in-process store\<close>

text \<open>C6: In every state that the store can reach when it is given the limits \<open>max_dids\<close> and \<open>max_pending\<close>,
  its indexes agree (\<open>mem_inv\<close>), no recipient DID is registered by two mediations, no mediation has more
  than \<open>max_dids\<close> recipient DIDs, no more than \<open>max_pending\<close> relays wait, and the lock is not
  poisoned, so that no operation fails.\<close>

theorem memory_store_invariant:
  assumes "(limited_step max_dids max_pending)\<^sup>*\<^sup>* mem_new s"
  shows "mem_inv s \<and> (\<forall>r m m'. r \<in> set (recips_of s m) \<and> r \<in> set (recips_of s m') \<longrightarrow> m = m')
    \<and> (\<forall>m. length (recips_of s m) \<le> max_dids) \<and> length (relays s) \<le> max_pending \<and> \<not> poisoned s"
proof -
  have "within max_dids max_pending mem_new" by (simp add: within_def mem_new_def recips_of_def)
  then have inv: "mem_inv s" "within max_dids max_pending s" using within_reachable [OF assms mem_inv_new] by simp_all
  then show ?thesis using recips_disjoint [OF mem_invD(1) [OF inv(1)]] unfolding within_def by blast
qed

theorem memory_store_invariant_witness:
  "mem_inv (snd (mem_add_recipient ''did:a'' ''did:b'' 1 mem_new))
    \<and> (\<forall>m. length (recips_of (snd (mem_add_recipient ''did:a'' ''did:b'' 1 mem_new)) m) \<le> 1)"
proof -
  have "(limited_step 1 0)\<^sup>*\<^sup>* mem_new (snd (mem_add_recipient ''did:a'' ''did:b'' 1 mem_new))"
    by (rule r_into_rtranclp, rule limited_step.intros)
  then show ?thesis using memory_store_invariant by blast
qed



definition within_limits :: "queue_limits \<Rightarrow> queued list \<Rightarrow> bool" where
  "within_limits lims qs \<longleftrightarrow> length qs \<le> ql_max_messages lims \<and> queue_bytes qs \<le> unat (ql_max_bytes lims)"

text \<open>C17: a queue never grows beyond its limits: whatever is enqueued and whatever the answer, a
  queue within the limits on messages and on bytes stays within them (as long as the byte
  arithmetic does not wrap).\<close>

theorem queue_within_limits:
  assumes "within_limits lims (queue_of s m)" and "unat (ql_max_bytes lims) + length t < 2 ^ 64"
  shows "within_limits lims (queue_of (snd (mem_enqueue m' r t now lims s)) m)"
proof (cases "poisoned s \<or> m' \<noteq> m")
  case True
  then have "queue_of (snd (mem_enqueue m' r t now lims s)) m = queue_of s m"
    by (cases "poisoned s") (simp add: mem_enqueue_def snd_locked, auto simp: mem_enqueue_cases queue_of_def)
  then show ?thesis using assms(1) by simp
next
  case False
  let ?q = "live_part now (ql_ttl_secs lims) (queue_of s m)"
  have q: "length ?q \<le> length (queue_of s m)" "queue_bytes ?q \<le> queue_bytes (queue_of s m)"
    using sum_list_filter_le_nat [of "\<lambda>q. length (q_message q)"] by (simp_all add: live_part_def queue_bytes_def)
  have "\<exists>x s'. mem_enqueue m' r t now lims s = (Inr x, s')"
    using False by (simp add: mem_enqueue_cases)
  then obtain x s' where e: "mem_enqueue m' r t now lims s = (Inr x, s')" by blast
  show ?thesis
  proof (cases x)
    case None
    with e False have "queue_of s' m = ?q" by (auto simp: mem_enqueue_cases queue_of_def split: if_splits)
    then show ?thesis using e q assms(1) by (simp add: within_limits_def)
  next
    case (Some i)
    with e False enqueue_within_limits [of m r t now lims s i s'] q assms show ?thesis
      by (simp add: within_limits_def)
  qed
qed

theorem queue_within_limits_witness:
  "within_limits \<lparr>ql_ttl_secs = 60, ql_max_messages = 1, ql_max_bytes = 10\<rparr>
     (queue_of (snd (mem_enqueue ''did:a'' ''did:r'' ''payload'' 100
       \<lparr>ql_ttl_secs = 60, ql_max_messages = 1, ql_max_bytes = 10\<rparr> mem_new)) ''did:a'')"
  by (rule queue_within_limits) (simp_all add: within_limits_def queue_of_def mem_new_def queue_bytes_def)

text \<open>C18: an accepted message is at the end of the queue, behind the unexpired messages in their
  order, under a well-formed id and with the time it was received, and a pickup at that time
  returns it: nothing unexpired is lost or reordered.\<close>

theorem enqueue_then_peek:
  assumes "mem_enqueue m r t now lims s = (Inr (Some i), s')" and "unat now * 1000 < 2 ^ 64"
  shows "is_queue_id i \<and>
    fst (mem_peek m None (length (queue_of s' m)) now (ql_ttl_secs lims) s')
      = Inr (live_part now (ql_ttl_secs lims) (queue_of s m)
          @ [\<lparr>q_id = i, q_recipient = r, q_received = now, q_message = t\<rparr>])"
proof -
  let ?q = "live_part now (ql_ttl_secs lims) (queue_of s m)"
  let ?new = "\<lparr>q_id = i, q_recipient = r, q_received = now, q_message = t\<rparr>"
  have np: "\<not> poisoned s" using assms(1) by (auto simp: mem_enqueue_def)
  have i: "i = show_u64 (now * 1000) @ CHR ''-'' # show_u64 (seq s + 1)"
    and s': "s' = s\<lparr>seq := seq s + 1, queues := (queues s)(m \<mapsto> ?q @
      [\<lparr>q_id = i, q_recipient = r, q_received = id_millis i div 1000, q_message = t\<rparr>])\<rparr>"
    using assms(1) by (auto simp: mem_enqueue_cases [OF np] split: if_splits)
  have "id_millis i div 1000 = now" using i millis_to_secs [OF assms(2)] by simp
  then have q: "queue_of s' m = ?q @ [?new]" using s' by (simp add: queue_of_def)
  have "live_part now (ql_ttl_secs lims) (?q @ [?new]) = ?q @ [?new]"
    using saturating_sub_le [of now "ql_ttl_secs lims"] by (simp add: live_part_def)
  moreover have "\<not> poisoned s'" using np s' by simp
  moreover have "is_queue_id i" using i is_queue_id_id by simp
  ultimately show ?thesis by (simp add: mem_peek_def locked_def inner_queue_live q matching_def)
qed

theorem enqueue_then_peek_witness:
  "\<exists>i s'. mem_enqueue ''did:a'' ''did:r'' ''payload'' 100
        \<lparr>ql_ttl_secs = 60, ql_max_messages = 1, ql_max_bytes = 10\<rparr> mem_new = (Inr (Some i), s')
     \<and> fst (mem_peek ''did:a'' None (length (queue_of s' ''did:a'')) 100 60 s')
        = Inr [\<lparr>q_id = i, q_recipient = ''did:r'', q_received = 100, q_message = ''payload''\<rparr>]"
proof -
  let ?l = "\<lparr>ql_ttl_secs = 60, ql_max_messages = 1, ql_max_bytes = 10\<rparr>"
  obtain i s' where e: "mem_enqueue ''did:a'' ''did:r'' ''payload'' 100 ?l mem_new = (Inr (Some i), s')"
    by (simp add: mem_enqueue_def locked_def mem_new_def inner_queue_def queue_of_def message_bytes_def Let_def)
  from enqueue_then_peek [OF this] show ?thesis
    using e by (auto simp: live_part_def queue_of_def mem_new_def)
qed

text \<open>C19: message ids do not repeat. Until the store has done 2^64 - 1 operations, the messages of a
  mediation have distinct ids of the form \<open><ms>-<seq>\<close>.\<close>

theorem queue_ids_distinct:
  assumes "(mem_step ^^ n) mem_new s" and "n < 2 ^ 64 - 1"
  shows "distinct (map q_id (queue_of s m)) \<and> (\<forall>q\<in>set (queue_of s m). is_queue_id (q_id q))"
proof -
  have ids: "ids_inv s" using ids_inv_steps [OF assms] by simp
  have "is_queue_id (q_id q)" if q: "q \<in> set (queue_of s m)" for q
  proof -
    from ids q obtain t k where "q_id q = show_u64 t @ CHR ''-'' # show_u64 k"
      unfolding ids_inv_def by fastforce
    then show ?thesis using is_queue_id_id by simp
  qed
  then show ?thesis using ids by (auto simp: ids_inv_def)
qed

theorem queue_ids_distinct_witness:
  "distinct (map q_id (queue_of (snd (mem_enqueue ''did:a'' ''did:r'' ''x'' 100
     \<lparr>ql_ttl_secs = 60, ql_max_messages = 1, ql_max_bytes = 10\<rparr> mem_new)) ''did:a''))"
proof -
  let ?s = "snd (mem_enqueue ''did:a'' ''did:r'' ''x'' 100
     \<lparr>ql_ttl_secs = 60, ql_max_messages = 1, ql_max_bytes = 10\<rparr> mem_new)"
  have "(mem_step ^^ 1) mem_new ?s" by (simp add: eq_OO mem_step.intros)
  then show ?thesis using queue_ids_distinct [of 1 ?s] by simp
qed

text \<open>C20: acknowledging messages removes exactly the acknowledged ones of the mediation that
  acknowledges, and reports how many went; the queues of other mediations are untouched.\<close>

theorem remove_exact:
  assumes "ids_inv s" and "mem_remove m ids s = (Inr n, s')"
  shows "queue_of s' m = filter (\<lambda>q. q_id q \<notin> set ids) (queue_of s m)
    \<and> n = card {q \<in> set (queue_of s m). q_id q \<in> set ids}
    \<and> (\<forall>m'. m' \<noteq> m \<longrightarrow> queue_of s' m' = queue_of s m')"
proof -
  let ?in = "\<lambda>q. q_id q \<in> set ids"
  have q': "queue_of s' m = filter (\<lambda>q. \<not> ?in q) (queue_of s m)"
    and n: "n = length (queue_of s m) - length (queue_of s' m)"
    and frame: "\<forall>m'. m' \<noteq> m \<longrightarrow> queue_of s' m' = queue_of s m'"
    using assms(2) by (auto simp: mem_remove_def queue_of_def Let_def split: option.splits)
  have "distinct (queue_of s m)" using assms(1) by (simp add: ids_inv_def distinct_map)
  then have "card {q \<in> set (queue_of s m). ?in q} = length (filter ?in (queue_of s m))"
    by (metis distinct_card distinct_filter set_filter)
  moreover have "n = length (filter ?in (queue_of s m))"
    using sum_length_filter_compl [of ?in "queue_of s m"] by (simp add: n q')
  ultimately show ?thesis using q' frame by simp
qed

theorem remove_exact_witness:
  "\<exists>n s'. mem_remove ''did:a'' [''7-1''] (mem_new\<lparr>seq := 1, queues := [''did:a'' \<mapsto>
       [\<lparr>q_id = ''7-1'', q_recipient = ''did:r'', q_received = 0, q_message = ''x''\<rparr>]]\<rparr>) = (Inr n, s')
     \<and> n = 1 \<and> queue_of s' ''did:a'' = []"
proof -
  let ?q = "\<lparr>q_id = ''7-1'', q_recipient = ''did:r'', q_received = 0, q_message = ''x''\<rparr>"
  let ?s = "mem_new\<lparr>seq := 1, queues := [''did:a'' \<mapsto> [?q]]\<rparr>"
  have "''7-1'' = show_u64 7 @ ''-'' @ show_u64 1" by code_simp
  then have "\<exists>t n. ''7-1'' = show_u64 t @ ''-'' @ show_u64 n \<and> n \<le> (1 :: u64)"
    by (intro exI conjI) (assumption, simp)
  then have "ids_inv ?s" by (simp add: ids_inv_def queue_of_def)
  moreover obtain n s' where e: "mem_remove ''did:a'' [''7-1''] ?s = (Inr n, s')"
    by (simp add: mem_remove_def locked_def mem_new_def Let_def)
  moreover have "{q \<in> set (queue_of ?s ''did:a''). q_id q \<in> set [''7-1'']} = {?q}"
    by (auto simp: queue_of_def)
  ultimately have "n = 1" "queue_of s' ''did:a'' = []"
    using remove_exact [of ?s "''did:a''" "[''7-1'']" n s'] by (simp_all add: queue_of_def)
  then show ?thesis using e by blast
qed



text \<open>the hit counter counts exactly the hits of a key in the current window: the answer is one
  more than the window's count so far, and neither other keys nor the pruning of old windows
  change a count of the window.\<close>

theorem hit_counts_window:
  assumes "mem_inv s" and "mem_hit key w now s = (Inr n, s')"
  shows "n = window_count s (now div max w 1) key + 1
    \<and> window_count s' (now div max w 1) key = n
    \<and> (\<forall>k. k \<noteq> key \<longrightarrow> window_count s' (now div max w 1) k = window_count s (now div max w 1) k)"
  using hit_counts [OF assms] .

theorem hit_counts_window_witness:
  "\<exists>n s'. mem_hit ''ip'' 60 120 mem_new = (Inr n, s') \<and> n = 1"
proof -
  obtain n s' where e: "mem_hit ''ip'' 60 120 mem_new = (Inr n, s')"
    by (simp add: mem_hit_def locked_def mem_new_def Let_def)
  with hit_counts_window [OF mem_inv_new e] show ?thesis
    by (auto simp: window_count_def mem_new_def)
qed



text \<open>C27: a queue summary counts what a pickup would return: the number of unexpired messages for
  the recipient asked about, their bytes, and the oldest and newest time of receipt.\<close>

theorem summary_correct:
  assumes "mem_summary m ro now ttl s = (Inr sm, s')"
    and "queue_bytes (matching ro (live_part now ttl (queue_of s m))) < 2 ^ 64"
  defines "qs \<equiv> matching ro (live_part now ttl (queue_of s m))"
  shows "qs_count sm = length qs \<and> unat (qs_total_bytes sm) = queue_bytes qs
    \<and> (qs \<noteq> [] \<longrightarrow> qs_oldest sm = Some (Min (q_received ` set qs)) \<and> qs_newest sm = Some (Max (q_received ` set qs)))
    \<and> (qs = [] \<longrightarrow> qs_oldest sm = None \<and> qs_newest sm = None)"
proof -
  have sm: "sm = fold add_to_summary qs default_summary"
    using assms(1) by (auto simp: mem_summary_def inner_queue_live qs_def)
  have "unat (qs_total_bytes sm) = queue_bytes qs"
    unfolding sm using summary_fold [of qs default_summary] assms(2) by (simp add: qs_def default_summary_def)
  then show ?thesis
    by (simp add: sm fold_summary_count summary_oldest summary_newest) (simp add: default_summary_def)
qed

theorem summary_correct_witness:
  "\<exists>sm s'. mem_summary ''did:a'' None 100 60 mem_new = (Inr sm, s') \<and> qs_count sm = 0 \<and> qs_oldest sm = None"
proof -
  obtain sm s' where e: "mem_summary ''did:a'' None 100 60 mem_new = (Inr sm, s')"
    by (simp add: mem_summary_def locked_def mem_new_def inner_queue_live)
  with summary_correct [OF e] show ?thesis
    by (auto simp: live_part_def matching_def queue_of_def mem_new_def queue_bytes_def)
qed

end
