(* ===== verification/Isolation.thy ===== *)
theory Isolation
  imports Frames Memory_Store
begin

text \<open>
  Accounts are isolated: handling a message on behalf of one DID can only change the
  registrations of that DID's mediation and take messages out of its queue. The client lemmas
  are proved from the store's contract (the locale \<open>store\<close>), so they hold for every store that
  keeps it.
\<close>

section \<open>Guarantees about the store\<close>

definition store_same :: "('n, 's) world \<Rightarrow> ('n, 's) world \<Rightarrow> bool" where
  "store_same w w' \<longleftrightarrow> w_store w' = w_store w"

text \<open>
  \<open>isolated\<close>: registrations only change between free and held by \<open>req\<close>, and the mediations
  of others keep every message that has not expired.
\<close>

definition isolated ::
  "('s \<Rightarrow> bool) \<Rightarrow> ('s \<Rightarrow> string \<Rightarrow> string option) \<Rightarrow> ('s \<Rightarrow> string \<Rightarrow> queued list) \<Rightarrow> u64 \<Rightarrow> u64
     \<Rightarrow> string option \<Rightarrow> ('n, 's) world \<Rightarrow> ('n, 's) world \<Rightarrow> bool" where
  "isolated sinv owner queue now ttl req w w' \<longleftrightarrow>
     (sinv (w_store w) \<longrightarrow> sinv (w_store w')
      \<and> (\<forall>r. owner (w_store w') r = owner (w_store w) r
            \<or> owner (w_store w) r \<in> {None, req} \<and> owner (w_store w') r \<in> {None, req})
      \<and> (\<forall>a. Some a \<noteq> req \<longrightarrow>
            set (live_part now ttl (queue (w_store w) a)) \<subseteq> set (queue (w_store w') a)))"

lemma set_live_part: "set (live_part now ttl qs) = {q \<in> set qs. saturating_sub now ttl \<le> q_received q}"
  by (auto simp: live_part_def)

interpretation sameG: guarantee store_same
  by unfold_locales (auto simp: store_same_def)

interpretation isoG: guarantee "isolated sinv owner queue now ttl req :: ('n, 's) world \<Rightarrow> _"
  for sinv :: "'s \<Rightarrow> bool" and owner queue now ttl req
proof
  fix w :: "('n, 's) world"
  show "isolated sinv owner queue now ttl req w w" by (auto simp: isolated_def set_live_part)
next
  fix a b c :: "('n, 's) world"
  assume 1: "isolated sinv owner queue now ttl req a b" and 2: "isolated sinv owner queue now ttl req b c"
  show "isolated sinv owner queue now ttl req a c"
    unfolding isolated_def
  proof (intro impI conjI allI)
    assume inv: "sinv (w_store a)"
    then have b: "sinv (w_store b)" using 1 by (simp add: isolated_def)
    then show "sinv (w_store c)" using 2 by (simp add: isolated_def)
    fix r
    show "owner (w_store c) r = owner (w_store a) r
       \<or> owner (w_store a) r \<in> {None, req} \<and> owner (w_store c) r \<in> {None, req}"
      using 1 2 inv b unfolding isolated_def by metis
  next
    fix m
    assume inv: "sinv (w_store a)" and m: "Some m \<noteq> req"
    then have b: "sinv (w_store b)" using 1 by (simp add: isolated_def)
    show "set (live_part now ttl (queue (w_store a) m)) \<subseteq> set (queue (w_store c) m)"
      using 1 2 inv b m unfolding isolated_def set_live_part by blast
  qed
qed

lemma steps_weaken: "steps \<rho> m \<Longrightarrow> (\<And>s s'. \<rho> s s' \<Longrightarrow> \<sigma> s s') \<Longrightarrow> steps \<sigma> m"
  by (simp add: steps_def)

lemma more_eq_store:
  fixes w w' :: "('n, 's) world"
  shows "node.more w' = node.more w \<Longrightarrow> w_store w' = w_store w \<and> w_hub w' = w_hub w
    \<and> w_session w' = w_session w \<and> w_tasks w' = w_tasks w \<and> w_metrics w' = w_metrics w"
  by (cases w; cases w') simp

lemma node_only_same:
  fixes m :: "(('n, 's) world, 'e, 'a) act"
  shows "steps node_only m \<Longrightarrow> steps store_same m"
  by (erule steps_weaken) (auto simp: node_only_def store_same_def dest: more_eq_store)

lemma same_isolated:
  fixes m :: "(('n, 's) world, 'e, 'a) act"
  shows "steps store_same m \<Longrightarrow> steps (isolated sinv owner queue now ttl req) m"
  by (erule steps_weaken) (auto simp: store_same_def isolated_def set_live_part)

lemma same_basic:
  "steps store_same (on_net f)" "steps store_same (count g)" "steps store_same (spawn t)"
  "steps store_same (hub_notify m q)" "steps store_same (session_enable s m)"
  "steps store_same (session_disable s)" "steps store_same session_get"
  "steps store_same is_websocket" "steps store_same (md_wake md mediation)"
  by (auto simp: steps_def store_same_def on_net_def count_def spawn_def hub_notify_def
      session_enable_def session_disable_def session_get_def is_websocket_def md_wake_def
      split: prod.splits option.splits)

lemmas same_actions = same_basic node_only_actions [THEN node_only_same]

lemmas iso_base = isoG.rules same_actions [THEN same_isolated]

section \<open>Operations of a store that keeps its contract\<close>

context store
begin

lemma iso_silent:
  fixes req :: "string option"
  shows
  "steps (isolated sinv owner queue now ttl req) (on_store (touch_mediation ops m t))"
  "steps (isolated sinv owner queue now ttl req) (on_store (has_mediation ops m))"
  "steps (isolated sinv owner queue now ttl req) (on_store (recipients ops m))"
  "steps (isolated sinv owner queue now ttl req) (on_store (mediation_of ops r))"
  "steps (isolated sinv owner queue now ttl req) (on_store (schedule_relay ops rel due mx))"
  "steps (isolated sinv owner queue now ttl req) (on_store (set_device ops m sv dev))"
  "steps (isolated sinv owner queue now ttl req) (on_store (devices ops m))"
  "steps (isolated sinv owner queue now ttl req) (on_store (release_push ops m t u))"
  unfolding steps_def isolated_def on_store_def split_beta set_live_part
  by (use keep_silent in \<open>fastforce simp: set_live_part\<close>)+

lemma iso_on_store:
  assumes "\<And>s. sinv s \<Longrightarrow> sinv (snd (f s))
      \<and> (\<forall>r. owner (snd (f s)) r = owner s r \<or> owner s r \<in> {None, req} \<and> owner (snd (f s)) r \<in> {None, req})
      \<and> (\<forall>a. Some a \<noteq> req \<longrightarrow> set (live_part now ttl (queue s a)) \<subseteq> set (queue (snd (f s)) a))"
  shows "steps (isolated sinv owner queue now ttl req) (on_store f)"
  unfolding steps_def isolated_def on_store_def split_beta using assms by simp

lemma iso_grant: "steps (isolated sinv owner queue now ttl req) (on_store (grant_mediation ops m t))"
  by (rule iso_on_store) (use keep_grant in \<open>auto simp: set_live_part\<close>)

lemma iso_add: "steps (isolated sinv owner queue now ttl (Some m)) (on_store (store_ops.add_recipient ops m r mx))"
proof (rule iso_on_store)
  fix s
  assume "sinv s"
  from keep_add [OF this refl, of m r mx]
  show "sinv (snd (store_ops.add_recipient ops m r mx s)) \<and>
      (\<forall>ra. owner (snd (store_ops.add_recipient ops m r mx s)) ra = owner s ra \<or>
        owner s ra \<in> {None, Some m} \<and> owner (snd (store_ops.add_recipient ops m r mx s)) ra \<in> {None, Some m}) \<and>
      (\<forall>a. Some a \<noteq> Some m \<longrightarrow>
        set (live_part now ttl (queue s a)) \<subseteq> set (queue (snd (store_ops.add_recipient ops m r mx s)) a))"
    by (auto simp: set_live_part split: if_splits)
qed

lemma iso_remove_recipient:
  "steps (isolated sinv owner queue now ttl (Some m)) (on_store (store_ops.remove_recipient ops m r))"
proof (rule iso_on_store)
  fix s
  assume "sinv s"
  from keep_remove_recipient [OF this refl, of m r]
  show "sinv (snd (store_ops.remove_recipient ops m r s)) \<and>
      (\<forall>ra. owner (snd (store_ops.remove_recipient ops m r s)) ra = owner s ra \<or>
        owner s ra \<in> {None, Some m} \<and> owner (snd (store_ops.remove_recipient ops m r s)) ra \<in> {None, Some m}) \<and>
      (\<forall>a. Some a \<noteq> Some m \<longrightarrow>
        set (live_part now ttl (queue s a)) \<subseteq> set (queue (snd (store_ops.remove_recipient ops m r s)) a))"
    by (auto simp: set_live_part split: if_splits)
qed

lemma iso_kept:
  assumes "\<And>s. sinv s \<Longrightarrow> sinv (snd (f s)) \<and> owner (snd (f s)) = owner s
      \<and> (\<forall>a. set (live_part now ttl (queue s a)) \<subseteq> set (queue (snd (f s)) a))"
  shows "steps (isolated sinv owner queue now ttl req) (on_store f)"
  by (rule iso_on_store) (simp add: assms)

lemma iso_enqueue:
  "ql_ttl_secs lims = ttl \<Longrightarrow> steps (isolated sinv owner queue now ttl req) (on_store (enqueue ops m r t now lims))"
proof (rule iso_kept)
  fix s
  assume ttl: "ql_ttl_secs lims = ttl" and "sinv s"
  from keep_enqueue [OF this(2) refl, of m r t now lims]
  have k: "sinv (snd (enqueue ops m r t now lims s))" "owner (snd (enqueue ops m r t now lims s)) = owner s"
    "\<And>a. a \<noteq> m \<Longrightarrow> queue (snd (enqueue ops m r t now lims s)) a = queue s a"
    "set (live_part now ttl (queue s m)) \<subseteq> set (queue (snd (enqueue ops m r t now lims s)) m)"
    by (auto simp: ttl)
  have "set (live_part now ttl (queue s a)) \<subseteq> set (queue (snd (enqueue ops m r t now lims s)) a)" for a
    using k(3) [of a] k(4) by (cases "a = m") (auto simp: set_live_part)
  with k show "sinv (snd (enqueue ops m r t now lims s)) \<and> owner (snd (enqueue ops m r t now lims s)) = owner s
      \<and> (\<forall>a. set (live_part now ttl (queue s a)) \<subseteq> set (queue (snd (enqueue ops m r t now lims s)) a))"
    by simp
qed

lemma read_isolated:
  assumes "sinv s" "s' \<in> {snd (summary ops m ro now ttl s), snd (peek ops m ro lim now ttl s)}"
  shows "sinv s' \<and> owner s' = owner s \<and> (\<forall>a. set (live_part now ttl (queue s a)) \<subseteq> set (queue s' a))"
proof -
  have k: "sinv s'" "owner s' = owner s" "\<And>a. a \<noteq> m \<Longrightarrow> queue s' a = queue s a"
    "queue s' m = queue s m \<or> queue s' m = live_part now ttl (queue s m)"
    using keep_read [OF assms] by auto
  have "set (live_part now ttl (queue s a)) \<subseteq> set (queue s' a)" for a
    using k(3) [of a] k(4) by (cases "a = m") (auto simp: set_live_part)
  with k show ?thesis by simp
qed

lemma iso_read:
  "steps (isolated sinv owner queue now ttl req) (on_store (summary ops m ro now ttl))"
  "steps (isolated sinv owner queue now ttl req) (on_store (peek ops m ro lim now ttl))"
  by (rule iso_kept, erule read_isolated, rule insertI1)
    (rule iso_kept, erule read_isolated, rule insertI2, rule insertI1)

lemma iso_remove: "steps (isolated sinv owner queue now ttl (Some m)) (on_store (remove ops m ids))"
proof (rule iso_on_store)
  fix s
  assume "sinv s"
  from keep_remove [OF this refl, of m ids]
  show "sinv (snd (remove ops m ids s)) \<and>
      (\<forall>ra. owner (snd (remove ops m ids s)) ra = owner s ra \<or>
        owner s ra \<in> {None, Some m} \<and> owner (snd (remove ops m ids s)) ra \<in> {None, Some m}) \<and>
      (\<forall>a. Some a \<noteq> Some m \<longrightarrow> set (live_part now ttl (queue s a)) \<subseteq> set (queue (snd (remove ops m ids s)) a))"
    by (auto simp: set_live_part)
qed

lemmas iso_ops = iso_silent iso_grant iso_add iso_remove_recipient iso_enqueue iso_read iso_remove

section \<open>Handlers\<close>

lemma iso_check_proof: "steps (isolated sinv owner queue now ttl req) (check_proof md t requester did update)"
  unfolding check_proof_def by (intro iso_base)

lemma iso_recipient_update:
  assumes "md_store md = ops"
  shows "steps (isolated sinv owner queue now ttl (Some requester)) (recipient_update md t requester update)"
  unfolding recipient_update_def update_result_def Let_def assms
  by (intro iso_base iso_ops iso_check_proof)

lemma iso_mediation:
  assumes "md_store md = ops"
  shows "steps (isolated sinv owner queue now ttl (Some requester)) (mediation_handle md t requester m)"
  unfolding mediation_handle_def Let_def assms
  by (intro iso_base iso_ops iso_recipient_update assms)

lemma iso_status:
  assumes "md_store md = ops" "ql_ttl_secs (lm_queue (md_limits md)) = ttl"
  shows "steps (isolated sinv owner queue now ttl req) (status md now mediation r request live)"
  unfolding status_def assms by (intro iso_base iso_ops)

lemma iso_picked_up:
  assumes "md_store md = ops"
  shows "steps (isolated sinv owner queue now ttl req) (picked_up md t mediation)"
  unfolding picked_up_def assms by (intro iso_base iso_ops)

lemma iso_pickup_recipient:
  assumes "md_store md = ops"
  shows "steps (isolated sinv owner queue now ttl req) (pickup_recipient md requester m)"
proof -
  have member: "steps (isolated sinv owner queue now ttl req)
      (case v of JNull \<Rightarrow> return_act a | JStr did \<Rightarrow> f did | JBool b \<Rightarrow> return_act c | JNum i \<Rightarrow> return_act c
        | JArr l \<Rightarrow> return_act c | JObj l \<Rightarrow> return_act c)"
    if "\<And>did. steps (isolated sinv owner queue now ttl req) (f did)"
    for v a c and f :: "string \<Rightarrow> (('b, 's) world, string, problem + string option) act"
    using that by (cases v) (auto simp del: return_act_apply intro: isoG.pure)
  show ?thesis unfolding pickup_recipient_def assms by (intro iso_base member iso_ops)
qed

lemma iso_pickup_type:
  assumes "md_store md = ops" "ql_ttl_secs (lm_queue (md_limits md)) = ttl"
  shows "steps (isolated sinv owner queue now ttl (Some requester)) (pickup_type md now requester m r session)"
  unfolding pickup_type_def Let_def assms
  by (intro iso_base iso_ops iso_status assms)

lemma iso_pickup:
  assumes "md_store md = ops" "ql_ttl_secs (lm_queue (md_limits md)) = ttl"
  shows "steps (isolated sinv owner queue now ttl (Some requester)) (pickup_handle md now requester m)"
  unfolding pickup_handle_def assms(1)
  by (intro iso_base iso_ops iso_picked_up iso_pickup_recipient iso_pickup_type assms)

lemma iso_devices:
  assumes "md_store md = ops"
  shows "steps (isolated sinv owner queue now ttl req) (devices_handle md t requester m)"
  unfolding devices_handle_def Let_def assms by (intro iso_base iso_ops)

lemma iso_queue_message:
  assumes "md_store md = ops" "ql_ttl_secs (lm_queue (md_limits md)) = ttl"
  shows "steps (isolated sinv owner queue now ttl req) (queue_message md now mediation r payload)"
  unfolding queue_message_def assms(1) by (intro iso_base iso_ops assms)

lemma iso_deliver:
  assumes "md_store md = ops"
  shows "steps (isolated sinv owner queue now ttl req) (deliver md tp t uri message)"
  unfolding deliver_def assms by (intro iso_base iso_ops)

lemma iso_relay:
  assumes "md_store md = ops"
  shows "steps (isolated sinv owner queue now ttl req) (relay md t nxt payloads)"
  unfolding relay_def relay_one_def by (intro iso_base iso_deliver assms)

lemma iso_forward:
  assumes "md_store md = ops" "ql_ttl_secs (lm_queue (md_limits md)) = ttl"
  shows "steps (isolated sinv owner queue now ttl req) (forward md now m)"
  unfolding forward_def Let_def assms(1)
  by (intro iso_base iso_ops iso_relay iso_queue_message assms)

lemma iso_pack_reply: "steps (isolated sinv owner queue now ttl req) (pack_reply md t reply recipient fwd)"
  unfolding pack_reply_def Let_def by (intro iso_base)

lemma iso_send_reply:
  assumes "md_store md = ops" "ql_ttl_secs (lm_queue (md_limits md)) = ttl"
  shows "steps (isolated sinv owner queue now ttl req) (send_reply md now reply sender)"
  unfolding send_reply_def Let_def assms(1)
  by (intro iso_base iso_ops iso_pack_reply iso_queue_message assms)

lemma iso_route_back:
  assumes "md_store md = ops" "ql_ttl_secs (lm_queue (md_limits md)) = ttl"
  shows "steps (isolated sinv owner queue now ttl req) (route_back md now request reply ws auth)"
  unfolding route_back_def by (intro iso_base iso_pack_reply iso_send_reply assms)

lemma iso_wallet:
  assumes "md_store md = ops" "ql_ttl_secs (lm_queue (md_limits md)) = ttl"
  shows "steps (isolated sinv owner queue now ttl req) (wallet_handle md now req m)"
proof (cases req)
  case None
  show ?thesis unfolding wallet_handle_def None option.case by (intro iso_base)
next
  case (Some r)
  show ?thesis unfolding wallet_handle_def Some option.case assms(1)
    by (intro iso_base iso_ops iso_pickup iso_mediation iso_devices assms)
qed

lemma iso_dispatch:
  assumes "md_store md = ops" "ql_ttl_secs (lm_queue (md_limits md)) = ttl"
  shows "steps (isolated sinv owner queue now ttl req) (dispatch md now req m)"
  unfolding dispatch_def Let_def
  by (intro iso_base iso_forward iso_wallet assms)

text \<open>What \<open>handle\<close> does after unpacking.\<close>

lemma iso_handle:
  assumes md: "md_store md = ops" "ql_ttl_secs (lm_queue (md_limits md)) = ttl"
    and un: "unpack (md_ext md) packed (md_resolver md) (id_secrets (md_identity md)) w = (Inr (m, meta), w1)"
  shows "isolated sinv owner queue now ttl (requester_of m meta) w (snd (handle md now packed w))"
proof -
  let ?k = "\<lambda>m meta. if \<not> um_encrypted meta
     then throw_act (UnpackError (Malformed ''the mediator accepts encrypted messages only''))
     else
       bind_act (dispatch md now (requester_of m meta) m) (\<lambda>handled.
       case handled of
         HNothing \<Rightarrow> return_act Accepted
       | HReply reply \<Rightarrow>
           bind_act is_websocket (\<lambda>ws. route_back md now m reply ws (um_authenticated meta))
       | HProblem p \<Rightarrow>
           bind_act (report (md_ext md) now p m) (\<lambda>reply.
           bind_act is_websocket (\<lambda>ws. route_back md now m reply ws (um_authenticated meta))))"
  have rep: "steps (isolated sinv owner queue now ttl (requester_of m meta))
      (case h of HNothing \<Rightarrow> return_act Accepted | HReply r \<Rightarrow> f r | HProblem p \<Rightarrow> g p)"
    if "\<And>r. steps (isolated sinv owner queue now ttl (requester_of m meta)) (f r)"
      "\<And>p. steps (isolated sinv owner queue now ttl (requester_of m meta)) (g p)"
    for h and f :: "message \<Rightarrow> (('b, 's) world, receive_error, outcome) act" and g
    using that by (cases h) (auto simp del: return_act_apply intro: isoG.pure)
  have k: "steps (isolated sinv owner queue now ttl (requester_of m meta)) (?k m meta)"
    by (intro iso_base iso_dispatch rep iso_route_back md)
  have "steps (isolated sinv owner queue now ttl (requester_of m meta))
      (unpack (md_ext md) packed (md_resolver md) (id_secrets (md_identity md)))"
    by (rule iso_base)
  then have "isolated sinv owner queue now ttl (requester_of m meta) w w1" using un by (rule stepsD)
  moreover have "snd (handle md now packed w) = snd (?k m meta w1)"
    by (simp add: handle_def bind_act_def map_err_act_def un)
  moreover have "isolated sinv owner queue now ttl (requester_of m meta) w1 (snd (?k m meta w1))"
    using k unfolding steps_def by blast
  ultimately show ?thesis using isoG.trans by metis
qed

end

end
