(* ===== verification/Sample_Mediator.thy ===== *)
theory Sample_Mediator
  imports Anonymous Isolation
begin

text \<open>
  The mediator's own identity, and a concrete mediator with a wallet for the witnesses: the
  wallet is a \<open>did:key\<close>, the mediator the \<open>did:web\<close> of \<open>https://m\<close> with a memory store.
\<close>

section \<open>The identity publishes the keys it holds\<close>

lemma did_of_plain: "did_of d = d \<longleftrightarrow> set d \<inter> {CHR ''#'', CHR ''?'', CHR ''/''} = {}"
  by (auto simp: did_of_def takeWhile_eq_all_conv)

lemma set_replace_skip: "set (replace_skip n p r t) \<subseteq> set r \<union> set t"
  by (induction n p r t rule: replace_skip.induct) auto

lemma set_lowercase: "x \<in> set (to_ascii_lowercase t) \<Longrightarrow> x \<in> set t \<or> 97 \<le> (of_char x :: nat)"
  by (auto simp: to_ascii_lowercase_def of_char_of split: if_splits)

lemma own_did:
  assumes "did_from_origin url = Inr did"
  shows "did_of did = did"
proof -
  obtain host where h: "set host \<inter> set ''/?#@'' = {}" "did = ''did:web:'' @ replace '':'' ''%3A'' (to_ascii_lowercase host)"
    using assms by (auto simp: did_from_origin_def Let_def split: option.splits)
  have "x \<notin> {CHR ''#'', CHR ''?'', CHR ''/''}" if "x \<in> set (replace '':'' ''%3A'' (to_ascii_lowercase host))" for x
  proof -
    have "x \<in> set ''%3A'' \<or> x \<in> set (to_ascii_lowercase host)"
      using that set_replace_skip unfolding replace_def by blast
    then show ?thesis using set_lowercase [of x host] h(1) by auto
  qed
  then show ?thesis unfolding did_of_plain h(2) by auto
qed

lemma identity_new_ok:
  assumes "identity_new X keys url = Inr i"
  obtains did where "did_from_origin url = Inr did" "did_of did = did" "id_did i = did" "d_id (id_document i) = did"
    "d_authentication (id_document i) = [did @ ''#key-ed25519'']"
    "d_key_agreement (id_document i) = [did @ ''#key-x25519'', did @ ''#key-p384'']"
    "d_verification_method (id_document i) = [own_method X did ''key-ed25519'' (mk_ed25519 keys),
           own_method X did ''key-x25519'' (mk_x25519 keys), own_method X did ''key-p384'' (mk_p384 keys)]"
    "id_secrets i = in_memory_secrets [did @ ''#key-ed25519'' \<mapsto> mk_ed25519 keys,
         did @ ''#key-x25519'' \<mapsto> mk_x25519 keys, did @ ''#key-p384'' \<mapsto> mk_p384 keys]"
  using assms own_did by (auto simp: identity_new_def Let_def)

text \<open>C25: The identity the mediator builds from its keys publishes what it holds: its DID has no
  fragment, path or query, every authentication key and every key agreement key of its
  document belongs to the DID and is the public half of the secret held under that key id,
  and both key agreement keys can be used by a sender.\<close>

theorem identity_publishes_its_keys:
  assumes "identity_new X keys url = Inr i" "sk_curve (mk_x25519 keys) = X25519" "sk_curve (mk_p384 keys) = P384"
  shows "did_of (id_did i) = id_did i \<and> d_id (id_document i) = id_did i
    \<and> holds_authentication X (id_secrets i) (id_document i)
    \<and> (\<exists>ks. key_agreement_keys (id_document i) (id_did i) = Inr ks \<and> length ks = 2
        \<and> holds_keys X (id_secrets i) (id_did i) ks)"
  using assms(1)
proof (rule identity_new_ok)
  fix did
  assume d: "did_of did = did" "id_did i = did" "d_id (id_document i) = did"
    and doc: "d_authentication (id_document i) = [did @ ''#key-ed25519'']"
    "d_key_agreement (id_document i) = [did @ ''#key-x25519'', did @ ''#key-p384'']"
    "d_verification_method (id_document i) = [own_method X did ''key-ed25519'' (mk_ed25519 keys),
           own_method X did ''key-x25519'' (mk_x25519 keys), own_method X did ''key-p384'' (mk_p384 keys)]"
    and sec: "id_secrets i = in_memory_secrets [did @ ''#key-ed25519'' \<mapsto> mk_ed25519 keys,
         did @ ''#key-x25519'' \<mapsto> mk_x25519 keys, did @ ''#key-p384'' \<mapsto> mk_p384 keys]"
  have k: "did_of (did @ CHR ''#'' # f) = did" for f using did_of_fragment [OF d(1)] .
  have nohash: "CHR ''#'' \<notin> set did" using d(1) by (auto simp: did_of_plain)
  have m: "doc_method (id_document i) (did @ ''#key-x25519'') = Some (own_method X did ''key-x25519'' (mk_x25519 keys))"
    "doc_method (id_document i) (did @ ''#key-p384'') = Some (own_method X did ''key-p384'' (mk_p384 keys))"
    "doc_method (id_document i) (did @ ''#key-ed25519'') = Some (own_method X did ''key-ed25519'' (mk_ed25519 keys))"
    by (simp_all add: doc_method_def doc own_method_def)
  have "holds_authentication X (id_secrets i) (id_document i)"
    by (auto simp: holds_authentication_def doc d k sec in_memory_secrets_def authentication_key_Inr m own_method_def)
  moreover have "key_agreement_keys (id_document i) did
      = Inr [(did @ ''#key-x25519'', public_key_of X (mk_x25519 keys)), (did @ ''#key-p384'', public_key_of X (mk_p384 keys))]"
    using assms(2,3) nohash
    by (simp add: key_agreement_keys_def key_agreement_methods_def doc m own_method_def is_key_agreement_def)
  moreover have "holds_keys X (id_secrets i) did
      [(did @ ''#key-x25519'', public_key_of X (mk_x25519 keys)), (did @ ''#key-p384'', public_key_of X (mk_p384 keys))]"
    by (simp add: holds_keys_def k sec in_memory_secrets_def)
  ultimately show ?thesis using d by simp
qed


definition sample_keys :: mediator_keys where
  "sample_keys = \<lparr>mk_ed25519 = SkEd25519 (fit ''ed''), mk_x25519 = SkX25519 (fit ''x''), mk_p384 = SkP384 (fit ''p'')\<rparr>"

definition sample_identity :: identity where
  "sample_identity = projr (identity_new sample_ext sample_keys ''https://m'')"

lemma sample_did: "did_from_origin ''https://m'' = Inr ''did:web:m''"
  by (simp add: did_from_origin_def strip_prefix_def strip_suffix_def ends_with_def starts_with_def to_ascii_lowercase_def replace_def)

lemma sample_identity: "identity_new sample_ext sample_keys ''https://m'' = Inr sample_identity"
  by (simp add: sample_identity_def identity_new_def sample_did Let_def)

theorem identity_publishes_its_keys_witness:
  "identity_new sample_ext sample_keys ''https://m'' = Inr sample_identity
    \<and> holds_authentication sample_ext (id_secrets sample_identity) (id_document sample_identity)"
  using sample_identity identity_publishes_its_keys [OF sample_identity] by (simp add: sample_keys_def)

section \<open>A wallet and a mediator\<close>

definition wallet_key :: secret_key where
  "wallet_key = SkX25519 (fit ''w'')"

definition wallet_did :: string where
  "wallet_did = did_key sample_ext (public_key_of sample_ext wallet_key)"

definition wallet_kid :: string where
  "wallet_kid = wallet_did @ ''#'' @ multikey_encode sample_ext (public_key_of sample_ext wallet_key)"

definition wallet_doc :: did_document where
  "wallet_doc = default_document\<lparr>d_id := wallet_did,
     d_verification_method := [\<lparr>vm_id = wallet_kid, vm_controller = wallet_did, vm_key = PkX25519 (fit ''w'')\<rparr>],
     d_key_agreement := [wallet_kid]\<rparr>"

definition wallet_secrets :: secrets where
  "wallet_secrets = in_memory_secrets [wallet_kid \<mapsto> wallet_key]"

lemma multikey_X25519 [simp]:
  "length bs = 32 \<Longrightarrow> multikey_decode sample_ext (multikey_encode sample_ext (PkX25519 bs)) = Inr (PkX25519 bs)"
  by (simp add: multikey_decode_def multikey_encode_def decode_base58btc_def encode_base58btc_def public_from_bytes_def
      strip_prefix_def starts_with_def del: codec.simps)

lemma resolve_wallet: "resolve_key sample_ext wallet_did = Inr wallet_doc"
  by (simp add: resolve_key_def wallet_did_def did_key_def strip_prefix_append [of "''did:key:''", simplified]
     wallet_doc_def wallet_kid_def key_method_def Let_def wallet_key_def)

lemma multikey_plain: "x \<in> set (multikey_encode sample_ext k) \<Longrightarrow> x = CHR ''z'' \<or> 65 \<le> (of_char x :: nat) \<and> (of_char x :: nat) < 81"
  by (auto simp: multikey_encode_def encode_base58btc_def dest: nibbles_plain)

lemma wallet_did_of: "did_of wallet_did = wallet_did" "did_of wallet_kid = wallet_did"
proof -
  show d: "did_of wallet_did = wallet_did"
    by (auto simp: did_of_plain wallet_did_def did_key_def dest: multikey_plain)
  show "did_of wallet_kid = wallet_did" using did_of_fragment [OF d] by (simp add: wallet_kid_def)
qed

lemma wallet_ascii: "x \<in> set wallet_did \<union> set wallet_kid \<Longrightarrow> (of_char x :: nat) < 128"
  by (auto simp: wallet_did_def wallet_kid_def did_key_def dest: multikey_plain)

lemma wallet_keys: "holds_key_agreement sample_ext wallet_secrets wallet_doc"
  using wallet_ascii
  by (auto simp: holds_key_agreement_def wallet_secrets_def wallet_doc_def in_memory_secrets_def wallet_did_of
      key_agreement_key_Inr doc_method_def wallet_key_def intro!: from_utf8_ascii split: if_splits)

text \<open>Encrypting to one X25519 key works with the sample functions.\<close>

lemma sample_generate: "generate sample_ext X25519 s = (Inr (SkX25519 (replicate 32 (byte (draws s)))), s\<lparr>draws := Suc (draws s)\<rparr>)"
proof -
  obtain n where n: "GENERATE_FUEL = Suc n" by (auto simp: GENERATE_FUEL_def intro: that [of 63])
  have "mask_p521 X25519 bs = bs" for bs by (simp add: mask_p521_def split: list.splits)
  then show ?thesis unfolding generate_def n
    by (simp add: bind_act_def random_fill_def secret_from_bytes_def)
qed

lemma sample_seal:
  assumes "length cek = 64" "length iv = 16" "length kid < 1000" "length (fst sk) < 1000"
  shows "\<exists>j. jwe_seal sample_ext p (Some (fst sk, SkX25519 (snd sk))) [(kid, PkX25519 k)] (SkX25519 e)
      (jwe_header sample_ext (SkX25519 e) (Some (fst sk, SkX25519 (snd sk))) [(kid, PkX25519 k)] A256CbcHs512) cek iv = Inr j"
  using assms
  by (simp add: jwe_seal_def jwe_header_def content_encrypt_def check_lengths_def cbc_hs512_tag_def Let_def
      decode_opt_def b64_decode_def b64_encode_def apv_of_def wrap_for_def diffie_hellman_def concat_kdf_def wrap_key_def
      se_header_def se_jwk_def opt_member_def public_to_jwk_def ENCRYPTED_TYP_def)

lemma sample_encrypt:
  assumes "length kid < 1000" "length skid < 1000"
  obtains j s' where "jwe_encrypt sample_ext p (Some (skid, SkX25519 b)) [(kid, PkX25519 k)] A256CbcHs512 s = (Inr j, s')"
proof -
  obtain j where "jwe_seal sample_ext p (Some (skid, SkX25519 b)) [(kid, PkX25519 k)] (SkX25519 (replicate 32 (byte (draws s))))
      (jwe_header sample_ext (SkX25519 (replicate 32 (byte (draws s)))) (Some (skid, SkX25519 b)) [(kid, PkX25519 k)] A256CbcHs512)
      (replicate 64 (byte (Suc (draws s)))) (replicate 16 (byte (Suc (Suc (draws s))))) = Inr j"
    using sample_seal [of "replicate 64 (byte (Suc (draws s)))" "replicate 16 (byte (Suc (Suc (draws s))))" kid "(skid, b)"]
      assms unfolding fst_conv snd_conv length_replicate by blast
  then show ?thesis
    by (intro that) (simp add: jwe_encrypt_def is_key_agreement_def bind_act_def sample_generate random_fill_def)
qed

abbreviation sender_resolver :: "unit resolver" where
  "sender_resolver \<equiv> static_resolve [id_document sample_identity, wallet_doc]"

lemma sample_document:
  "id_did sample_identity = ''did:web:m''" "d_id (id_document sample_identity) = ''did:web:m''"
  "key_agreement_keys (id_document sample_identity) ''did:web:m''
    = Inr [(''did:web:m#key-x25519'', PkX25519 (fit ''x'')), (''did:web:m#key-p384'', PkP384 (fit ''p''))]"
  by (simp_all add: sample_identity_def identity_new_def sample_did Let_def sample_keys_def default_document_def
      key_agreement_keys_def key_agreement_methods_def doc_method_def own_method_def is_key_agreement_def)

lemma wallet_not_own: "wallet_did \<noteq> ''did:web:m''"
  by (simp add: wallet_did_def did_key_def)

lemma length_wallet: "length wallet_kid < 1000"
  by (simp add: wallet_kid_def wallet_did_def did_key_def multikey_encode_def encode_base58btc_def wallet_key_def
      encode_varint.simps)

text \<open>Every valid message from the wallet to the mediator can be sent.\<close>

lemma sample_pack:
  assumes "validate m = Inr ()" "m_from m = Some wallet_did" "m_to m = Some [''did:web:m'']"
  obtains pm s' where "pack_encrypted sample_ext now m ''did:web:m'' (Some wallet_did) None sender_resolver
      wallet_secrets (default_options\<lparr>po_forward := False\<rparr>) sample_node = (Inr pm, s')"
proof -
  obtain j s' where e: "jwe_encrypt sample_ext (to_plaintext_json sample_ext m) (Some (wallet_kid, SkX25519 (fit ''w'')))
      [(''did:web:m#key-x25519'', PkX25519 (fit ''x''))] A256CbcHs512 sample_node = (Inr j, s')"
    by (rule sample_encrypt [of "''did:web:m#key-x25519''" wallet_kid]) (simp_all add: length_wallet)
  have f: "find_authcrypt_keys wallet_doc wallet_did [(''did:web:m#key-x25519'', PkX25519 (fit ''x'')),
      (''did:web:m#key-p384'', PkP384 (fit ''p''))] wallet_secrets
    = Inr (wallet_kid, SkX25519 (fit ''w''), [(''did:web:m#key-x25519'', PkX25519 (fit ''x''))])"
    using wallet_did_of(1)
    by (simp add: find_authcrypt_keys_def did_of_plain wallet_doc_def wallet_secrets_def in_memory_secrets_def wallet_key_def Let_def)
  have "d_id wallet_doc = wallet_did" by (simp add: wallet_doc_def default_document_def)
  then show ?thesis using assms e f wallet_not_own wallet_did_of
    by (intro that) (simp add: pack_encrypted_def bind_act_def resolve_in_def static_resolve_def sample_document
      did_of_plain [THEN iffD2] default_options_def authcrypt_def sample_node_def)
qed

definition sample_limits :: limits where
  "sample_limits = \<lparr>lm_max_message_bytes = 1000000,
     lm_queue = \<lparr>ql_ttl_secs = 1000, ql_max_messages = 10, ql_max_bytes = 100000\<rparr>,
     lm_max_recipient_dids = 5, lm_push_min_interval_secs = 60, lm_recipient_proof = True,
     lm_mediation_ttl_secs = 0\<rparr>"

definition sample_mediator :: "(unit, inner) mediator" where
  "sample_mediator = \<lparr>md_ext = sample_ext, md_identity = sample_identity, md_store = memory_store,
     md_limits = sample_limits, md_transport = None, md_pusher = None\<rparr>"

definition sample_world :: "(unit, inner) world" where
  "sample_world = \<lparr>resolver_state = \<lparr>rs_local = \<lparr>lr_poisoned = False, peer4_long_forms = []\<rparr>,
       rs_web = \<lparr>wr_poisoned = False, wr_cache = [], wr_instant = 0, wr_net = ()\<rparr>\<rparr>, draws = 0,
     w_store = mem_new, w_hub = hub_new, w_session = None, w_tasks = [], w_metrics = metrics_new\<rparr>"

lemma sample_mediator_fields [simp]:
  "md_ext sample_mediator = sample_ext" "md_identity sample_mediator = sample_identity"
  "md_store sample_mediator = memory_store" "md_limits sample_mediator = sample_limits"
  "md_transport sample_mediator = None" "md_pusher sample_mediator = None"
  by (simp_all add: sample_mediator_def)

lemma sample_world_fields [simp]:
  "w_store sample_world = mem_new" "w_hub sample_world = hub_new" "w_session sample_world = None"
  "w_tasks sample_world = []" "w_metrics sample_world = metrics_new"
  by (simp_all add: sample_world_def)

lemma mediator_answers:
  "answers (md_resolver sample_mediator) wallet_did wallet_doc"
  "answers (md_resolver sample_mediator) ''did:web:m'' (id_document sample_identity)"
proof -
  have "starts_with wallet_did ''did:key:''" by (simp add: wallet_did_def did_key_def starts_with_def)
  then show "answers (md_resolver sample_mediator) wallet_did wallet_doc"
    using wallet_not_own
    by (simp add: answers_def md_resolver_def mediator_resolver_def static_resolve_def sample_document on_local_def
        local_resolve_def resolve_wallet)
  show "answers (md_resolver sample_mediator) ''did:web:m'' (id_document sample_identity)"
    by (simp add: answers_def md_resolver_def mediator_resolver_def static_resolve_def sample_document)
qed

lemma sender_answers:
  "answers sender_resolver wallet_did wallet_doc" "answers sender_resolver ''did:web:m'' (id_document sample_identity)"
proof -
  have "d_id wallet_doc = wallet_did" by (simp add: wallet_doc_def default_document_def)
  then show "answers sender_resolver wallet_did wallet_doc"
    "answers sender_resolver ''did:web:m'' (id_document sample_identity)"
    using wallet_not_own by (simp_all add: answers_def static_resolve_def sample_document)
qed

lemma own_did_of: "did_of ''did:web:m'' = ''did:web:m''" "did_of (''did:web:m#'' @ f) = ''did:web:m''"
  by (simp_all add: did_of_def)

lemma sample_identity_holds:
  "key_agreement_keys (id_document sample_identity) ''did:web:m'' = Inr keys \<Longrightarrow>
    holds_keys sample_ext (id_secrets sample_identity) ''did:web:m'' keys"
  using own_did_of(2) [of "''key-x25519''"] own_did_of(2) [of "''key-p384''"]
  by (auto simp: sample_document holds_keys_def)
    (simp_all add: sample_identity_def identity_new_def sample_did Let_def in_memory_secrets_def sample_keys_def)

text \<open>
  What the wallet sends to the mediator arrives there, authenticated. The sample messages below
  are ASCII text.
\<close>

lemma sample_sent:
  assumes m: "sendable m" "validate m = Inr ()" "m_from m = Some wallet_did" "m_to m = Some [''did:web:m'']"
    and utf: "from_utf8 (to_plaintext_json sample_ext m) = Some (to_plaintext_json sample_ext m)"
  shows "\<exists>packed. \<forall>w :: (unit, inner) world. \<exists>meta w'.
    unpack sample_ext packed (md_resolver sample_mediator) (id_secrets sample_identity) w
      = (Inr (m\<lparr>m_typ := Some PLAINTEXT_TYP\<rparr>, meta), w') \<and> um_encrypted meta \<and> um_authenticated meta"
proof -
  obtain pm s' where p: "pack_encrypted sample_ext 0 m ''did:web:m'' (Some wallet_did) None sender_resolver
      wallet_secrets (default_options\<lparr>po_forward := False\<rparr>) sample_node = (Inr pm, s')"
    by (rule sample_pack [OF m(2-4)])
  have d: "d_id wallet_doc = wallet_did" by (simp add: wallet_doc_def default_document_def)
  show ?thesis
    by (intro exI [of _ "pm_message pm"] allI)
      (use authcrypt_unpacks [OF sample_text_laws sample_key_laws sample_ciphers_ok m(1) utf _ _ _ _ wallet_keys _ p,
        unfolded own_did_of wallet_did_of, OF sender_answers(2,1) mediator_answers(1) d sample_identity_holds]
       in blast)
qed

section \<open>Messages of the wallet\<close>

lemma ascii_wallet [simp]: "ascii wallet_did"
  using wallet_ascii by (auto simp: ascii_def)

definition wallet_message :: "string \<Rightarrow> json \<Rightarrow> message" where
  "wallet_message ty body = set_from wallet_did (set_to [''did:web:m''] (message_new ''1'' 7 ty body))"

lemma wallet_message_fields [simp]:
  "m_from (wallet_message ty body) = Some wallet_did" "m_to (wallet_message ty body) = Some [''did:web:m'']"
  "m_type (wallet_message ty body) = ty" "m_body (wallet_message ty body) = body"
  "m_expires_time (wallet_message ty body) = None" "m_attachments (wallet_message ty body) = None"
  "m_extra_headers (wallet_message ty body) = []" "m_id (wallet_message ty body) = ''1''"
  by (simp_all add: wallet_message_def set_from_def set_to_def message_new_def)

lemma wallet_message_ok:
  assumes "value_ok body" "is_object body" "ascii ty" "ascii (sample_print body)" "ty \<noteq> []"
  shows "sendable (wallet_message ty body)" "validate (wallet_message ty body) = Inr ()"
    "from_utf8 (to_plaintext_json sample_ext (wallet_message ty body)) = Some (to_plaintext_json sample_ext (wallet_message ty body))"
proof -
  show "sendable (wallet_message ty body)" using assms
    by (simp add: sendable_def message_ok_def value_ok_def wallet_message_def message_new_def set_to_def set_from_def)
  have w: "starts_with wallet_did ''did:''" by (simp add: wallet_did_def did_key_def starts_with_def)
  have n: "CHR ''#'' \<notin> set wallet_did" using wallet_did_of(1) by (auto simp: did_of_plain)
  show "validate (wallet_message ty body) = Inr ()" using assms w n
    by (simp add: validate_def check_did_def wallet_did_of own_did_of wallet_message_def message_new_def set_to_def set_from_def starts_with_def)
  show "from_utf8 (to_plaintext_json sample_ext (wallet_message ty body)) = Some (to_plaintext_json sample_ext (wallet_message ty body))"
    using assms by (intro utf8_of_ascii) (simp add: to_plaintext_json_def se_message_def opt_member_def wallet_message_def
      message_new_def set_to_def set_from_def PLAINTEXT_TYP_def se_strings_def)
qed

text \<open>A ping from the wallet.\<close>

definition wallet_ping :: message where
  "wallet_ping = wallet_message ''ping'' (JObj [])"

lemma wallet_ping_fields: "m_from wallet_ping = Some wallet_did" "m_to wallet_ping = Some [''did:web:m'']"
  by (simp_all add: wallet_ping_def)

lemma wallet_ping_ok:
  "sendable wallet_ping" "validate wallet_ping = Inr ()"
  "from_utf8 (to_plaintext_json sample_ext wallet_ping) = Some (to_plaintext_json sample_ext wallet_ping)"
  unfolding wallet_ping_def by (rule wallet_message_ok; simp add: value_ok_def)+

theorem authcrypt_end_to_end_witness:
  "\<exists>pm s' meta s2'. pack_encrypted sample_ext 0 wallet_ping ''did:web:m'' (Some wallet_did) None sender_resolver
      wallet_secrets (default_options\<lparr>po_forward := False\<rparr>) sample_node = (Inr pm, s')
    \<and> unpack sample_ext (pm_message pm) (md_resolver sample_mediator) (id_secrets sample_identity) sample_world
      = (Inr (wallet_ping\<lparr>m_typ := Some PLAINTEXT_TYP\<rparr>, meta), s2') \<and> um_authenticated meta"
proof -
  obtain pm s' where p: "pack_encrypted sample_ext 0 wallet_ping ''did:web:m'' (Some wallet_did) None sender_resolver
      wallet_secrets (default_options\<lparr>po_forward := False\<rparr>) sample_node = (Inr pm, s')"
    by (rule sample_pack [OF wallet_ping_ok(2) wallet_ping_fields])
  have d: "d_id wallet_doc = wallet_did" by (simp add: wallet_doc_def default_document_def)
  from authcrypt_end_to_end [OF sample_text_laws sample_key_laws sample_ciphers_ok wallet_ping_ok(1,3) _ _ _ _ wallet_keys _ p,
      unfolded own_did_of wallet_did_of, OF sender_answers(2,1) mediator_answers(1) d sample_identity_holds] p
  show ?thesis by blast
qed

lemma wallet_ping_arrives:
  obtains packed meta w' where
    "unpack sample_ext packed (md_resolver sample_mediator) (id_secrets sample_identity) sample_world
      = (Inr (wallet_ping\<lparr>m_typ := Some PLAINTEXT_TYP\<rparr>, meta), w')" "um_encrypted meta" "um_authenticated meta"
proof -
  from sample_sent [OF wallet_ping_ok(1,2) wallet_ping_fields wallet_ping_ok(3)] show thesis using that by blast
qed

theorem unpack_authenticated_sender_witness:
  "\<exists>packed meta w' skid. unpack sample_ext packed (md_resolver sample_mediator) (id_secrets sample_identity) sample_world
      = (Inr (wallet_ping\<lparr>m_typ := Some PLAINTEXT_TYP\<rparr>, meta), w') \<and> um_authenticated meta
    \<and> um_encrypted_from_kid meta = Some skid \<and> did_of skid = wallet_did"
proof (rule wallet_ping_arrives)
  fix packed meta w'
  assume u: "unpack sample_ext packed (md_resolver sample_mediator) (id_secrets sample_identity) sample_world
      = (Inr (wallet_ping\<lparr>m_typ := Some PLAINTEXT_TYP\<rparr>, meta), w')" and a: "um_authenticated meta"
  from unpack_authenticated_sender [OF this] obtain skid where
    "um_encrypted_from_kid meta = Some skid" "did_of skid = wallet_did"
    by (auto simp: wallet_ping_fields)
  with u a show ?thesis by blast
qed

theorem unpack_recipient_witness:
  "\<exists>packed meta w' kid. unpack sample_ext packed (md_resolver sample_mediator) (id_secrets sample_identity) sample_world
      = (Inr (wallet_ping\<lparr>m_typ := Some PLAINTEXT_TYP\<rparr>, meta), w') \<and> um_encrypted meta
    \<and> um_decrypted_by_kid meta = Some kid \<and> did_of kid = ''did:web:m''"
proof (rule wallet_ping_arrives)
  fix packed meta w'
  assume u: "unpack sample_ext packed (md_resolver sample_mediator) (id_secrets sample_identity) sample_world
      = (Inr (wallet_ping\<lparr>m_typ := Some PLAINTEXT_TYP\<rparr>, meta), w')" and a: "um_encrypted meta"
  from unpack_recipient [OF this] obtain kid where "um_decrypted_by_kid meta = Some kid" "did_of kid = ''did:web:m''"
    by (auto simp: wallet_ping_fields)
  with u a show ?thesis by blast
qed

section \<open>Anonymous messages\<close>

lemma sample_encrypt_anon:
  assumes "length kid < 1000"
  obtains j s' where "jwe_encrypt sample_ext p None [(kid, PkX25519 k)] A256CbcHs512 s = (Inr j, s')"
proof -
  let ?e = "SkX25519 (replicate 32 (byte (draws s)))"
  obtain j where "jwe_seal sample_ext p None [(kid, PkX25519 k)] ?e
      (jwe_header sample_ext ?e None [(kid, PkX25519 k)] A256CbcHs512)
      (replicate 64 (byte (Suc (draws s)))) (replicate 16 (byte (Suc (Suc (draws s))))) = Inr j"
    by (simp add: jwe_seal_def jwe_header_def content_encrypt_def check_lengths_def cbc_hs512_tag_def Let_def
      decode_opt_def b64_decode_def b64_encode_def apv_of_def wrap_for_def diffie_hellman_def concat_kdf_def wrap_key_def
      se_header_def se_jwk_def opt_member_def public_to_jwk_def ENCRYPTED_TYP_def)
  then show ?thesis
    by (intro that) (simp add: jwe_encrypt_def is_key_agreement_def bind_act_def sample_generate random_fill_def)
qed

lemma sample_same_curve:
  "same_curve [(''did:web:m#key-x25519'', PkX25519 (fit ''x'')), (''did:web:m#key-p384'', PkP384 (fit ''p''))]
    = [(''did:web:m#key-x25519'', PkX25519 (fit ''x''))]"
  by (simp add: same_curve_def)

lemma sample_recipient_jwk:
  "key_agreement_keys (id_document sample_identity) ''did:web:m'' = Inr keys \<Longrightarrow>
    pk \<in> snd ` set (same_curve keys) \<Longrightarrow> jwk_law sample_ext (pk_curve pk)"
  by (auto simp: sample_document sample_same_curve)

lemma sample_pack_anon:
  assumes "validate m = Inr ()" "m_to m \<in> {None, Some [''did:web:m'']}"
  obtains pm s' where "pack_encrypted sample_ext 0 m ''did:web:m'' None None sender_resolver
      wallet_secrets (default_options\<lparr>po_forward := False\<rparr>) sample_node = (Inr pm, s')"
proof -
  obtain j s' where e: "jwe_encrypt sample_ext (to_plaintext_json sample_ext m) None
      [(''did:web:m#key-x25519'', PkX25519 (fit ''x''))] A256CbcHs512 sample_node = (Inr j, s')"
    by (rule sample_encrypt_anon [of "''did:web:m#key-x25519''"]) simp
  have "d_id wallet_doc = wallet_did" by (simp add: wallet_doc_def default_document_def)
  then show ?thesis using assms e wallet_not_own
    by (intro that) (auto simp: pack_encrypted_def bind_act_def resolve_in_def static_resolve_def sample_document own_did_of
      default_options_def anoncrypt_def sample_node_def sample_same_curve Let_def)
qed

text \<open>What anybody sends to the mediator anonymously arrives there.\<close>

lemma sample_anon_sent:
  assumes m: "sendable m" "validate m = Inr ()" "m_to m \<in> {None, Some [''did:web:m'']}"
    and utf: "from_utf8 (to_plaintext_json sample_ext m) = Some (to_plaintext_json sample_ext m)"
  shows "\<exists>packed. \<forall>w :: (unit, inner) world. \<exists>meta.
    unpack sample_ext packed (md_resolver sample_mediator) (id_secrets sample_identity) w
      = (Inr (m\<lparr>m_typ := Some PLAINTEXT_TYP\<rparr>, meta), w) \<and> um_encrypted meta \<and> \<not> um_authenticated meta"
proof (rule sample_pack_anon [OF m(2,3)])
  fix pm s'
  assume p: "pack_encrypted sample_ext 0 m ''did:web:m'' None None sender_resolver
      wallet_secrets (default_options\<lparr>po_forward := False\<rparr>) sample_node = (Inr pm, s')"
  have "\<exists>meta. unpack sample_ext (pm_message pm) (md_resolver sample_mediator) (id_secrets sample_identity) w
      = (Inr (m\<lparr>m_typ := Some PLAINTEXT_TYP\<rparr>, meta), w) \<and> um_encrypted meta \<and> \<not> um_authenticated meta
      \<and> um_anonymous_sender meta" for w :: "(unit, inner) world"
    by (rule anoncrypt_unpacks [where rdoc = "id_document sample_identity", OF sample_text_laws sample_key_laws sample_ciphers_ok _ m(1) utf _ _ p])
      (auto simp: own_did_of sender_answers intro: sample_recipient_jwk sample_identity_holds)
  then show ?thesis by blast
qed

theorem anoncrypt_end_to_end_witness:
  "\<exists>pm s' meta. pack_encrypted sample_ext 0 wallet_ping ''did:web:m'' None None sender_resolver
      wallet_secrets (default_options\<lparr>po_forward := False\<rparr>) sample_node = (Inr pm, s')
    \<and> unpack sample_ext (pm_message pm) (md_resolver sample_mediator) (id_secrets sample_identity) sample_world
      = (Inr (wallet_ping\<lparr>m_typ := Some PLAINTEXT_TYP\<rparr>, meta), sample_world) \<and> \<not> um_authenticated meta"
proof -
  obtain pm s' where p: "pack_encrypted sample_ext 0 wallet_ping ''did:web:m'' None None sender_resolver
      wallet_secrets (default_options\<lparr>po_forward := False\<rparr>) sample_node = (Inr pm, s')"
    by (rule sample_pack_anon [OF wallet_ping_ok(2)]) (simp_all add: wallet_ping_fields)
  have "\<exists>meta. unpack sample_ext (pm_message pm) (md_resolver sample_mediator) (id_secrets sample_identity) sample_world
      = (Inr (wallet_ping\<lparr>m_typ := Some PLAINTEXT_TYP\<rparr>, meta), sample_world) \<and> um_encrypted meta
      \<and> \<not> um_authenticated meta \<and> um_anonymous_sender meta"
    by (rule anoncrypt_end_to_end [where rdoc = "id_document sample_identity", OF sample_text_laws sample_key_laws sample_ciphers_ok _ wallet_ping_ok(1,3) _ _ p])
      (auto simp: own_did_of sender_answers intro: sample_recipient_jwk sample_identity_holds)
  with p show ?thesis by blast
qed

end
