(* ===== verification/Mediator_Properties.thy ===== *)
theory Mediator_Properties
  imports Sample_Mediator
begin

text \<open>What the mediator guarantees to its wallets, over a memory store.\<close>

section \<open>Accounts\<close>

lemma receive_handle:
  "receive md now packed w = (res, w') \<Longrightarrow> \<exists>ms. w' = (snd (handle md now packed w))\<lparr>w_metrics := ms\<rparr>"
  by (auto simp: receive_def Let_def split: prod.splits)

text \<open>C1: Accounts are isolated. Whatever message is received, and whether it is handled or
  refused, registrations only change between free and held by the authenticated sender, and
  the queue of every other mediation keeps all its messages that have not expired.\<close>

theorem accounts_isolated:
  fixes w :: "('n, inner) world"
  assumes "md_store md = memory_store" "mem_inv (w_store w)"
    and "unpack (md_ext md) packed (md_resolver md) (id_secrets (md_identity md)) w = (Inr (m, meta), w1)"
    and "receive md now packed w = (res, w')"
  shows "(\<forall>r. owners (w_store w') r = owners (w_store w) r
      \<or> owners (w_store w) r \<in> {None, requester_of m meta} \<and> owners (w_store w') r \<in> {None, requester_of m meta})
    \<and> (\<forall>a q. Some a \<noteq> requester_of m meta \<longrightarrow> q \<in> set (queue_of (w_store w) a)
        \<longrightarrow> saturating_sub now (ql_ttl_secs (lm_queue (md_limits md))) \<le> q_received q
        \<longrightarrow> q \<in> set (queue_of (w_store w') a))"
proof -
  have "w_store w' = w_store (snd (handle md now packed w))" using receive_handle [OF assms(4)] by auto
  moreover have "isolated mem_inv owners queue_of now (ql_ttl_secs (lm_queue (md_limits md))) (requester_of m meta)
      w (snd (handle md now packed w))"
    by (rule mem.iso_handle [OF assms(1) refl assms(3)])
  ultimately show ?thesis using assms(2) unfolding isolated_def set_live_part by (simp add: subset_iff)
qed

theorem accounts_isolated_witness:
  "\<exists>packed m meta w1. unpack sample_ext packed (md_resolver sample_mediator) (id_secrets sample_identity) sample_world
      = (Inr (m, meta), w1) \<and> requester_of m meta = Some wallet_did
    \<and> (\<forall>r. owners (w_store (snd (receive sample_mediator 7 packed sample_world))) r \<in> {None, Some wallet_did})"
proof (rule wallet_ping_arrives)
  fix packed meta w1
  assume u: "unpack sample_ext packed (md_resolver sample_mediator) (id_secrets sample_identity) sample_world
      = (Inr (wallet_ping\<lparr>m_typ := Some PLAINTEXT_TYP\<rparr>, meta), w1)" and a: "um_authenticated meta"
  obtain res w' where r: "receive sample_mediator 7 packed sample_world = (res, w')"
    by (cases "receive sample_mediator 7 packed sample_world")
  have q: "requester_of (wallet_ping\<lparr>m_typ := Some PLAINTEXT_TYP\<rparr>) meta = Some wallet_did"
    using a by (simp add: requester_of_def wallet_ping_fields)
  have "\<forall>r. owners (w_store w') r \<in> {None, Some wallet_did}"
    using accounts_isolated [OF _ _ _ r, of "wallet_ping\<lparr>m_typ := Some PLAINTEXT_TYP\<rparr>" meta w1] u q
    by (simp add: mem_inv_new) (auto simp: mem_new_def)
  then show ?thesis using u q r by (metis snd_conv)
qed

section \<open>What an anonymous sender can do\<close>

definition quiet :: "('n, 's) world \<Rightarrow> ('n, 's) world \<Rightarrow> bool" where
  "quiet w w' \<longleftrightarrow> w_store w' = w_store w \<and> w_hub w' = w_hub w \<and> w_session w' = w_session w \<and> w_tasks w' = w_tasks w"

interpretation quietG: guarantee "quiet :: ('n, 's) world \<Rightarrow> _"
  by unfold_locales (auto simp: quiet_def)

lemma node_only_quiet:
  fixes m :: "(('n, 's) world, 'e, 'a) act"
  shows "steps node_only m \<Longrightarrow> steps quiet m"
  by (erule steps_weaken) (auto simp: node_only_def quiet_def dest: more_eq_store)

lemma quiet_basic: "steps quiet is_websocket" "steps quiet session_get" "steps quiet (count f)"
  by (auto simp: steps_def quiet_def is_websocket_def session_get_def count_def)

lemmas quiet_base = quietG.rules quiet_basic node_only_actions [THEN node_only_quiet]

lemma quiet_pack_reply: "steps quiet (pack_reply md now reply recipient fwd)"
  unfolding pack_reply_def Let_def by (intro quiet_base)

lemma quiet_route_back: "steps quiet (route_back md now request reply ws False)"
  unfolding route_back_def if_False by (intro quiet_base quiet_pack_reply)

lemma quiet_dispatch: "m_type m \<noteq> FORWARD \<Longrightarrow> steps quiet (dispatch md now None m)"
  unfolding dispatch_def Let_def wallet_handle_def option.case
  by (simp only: if_False) (intro quiet_base)

text \<open>What \<open>handle\<close> does with an unpacked message.\<close>

definition answer ::
  "('n, 's) mediator \<Rightarrow> u64 \<Rightarrow> message \<Rightarrow> unpack_metadata \<Rightarrow> (('n, 's) world, receive_error, outcome) act" where
  "answer md now m meta =
     (if \<not> um_encrypted meta
      then throw_act (UnpackError (Malformed ''the mediator accepts encrypted messages only''))
      else
        bind_act (dispatch md now (requester_of m meta) m) (\<lambda>handled.
        case handled of
          HNothing \<Rightarrow> return_act Accepted
        | HReply reply \<Rightarrow>
            bind_act is_websocket (\<lambda>ws. route_back md now m reply ws (um_authenticated meta))
        | HProblem p \<Rightarrow>
            bind_act (report (md_ext md) now p m) (\<lambda>reply.
            bind_act is_websocket (\<lambda>ws. route_back md now m reply ws (um_authenticated meta)))))"

lemma handle_answer:
  "handle md now packed w =
     (case unpack (md_ext md) packed (md_resolver md) (id_secrets (md_identity md)) w of
        (Inl e, w1) \<Rightarrow> (Inl (UnpackError e), w1)
      | (Inr (m, meta), w1) \<Rightarrow> answer md now m meta w1)"
  by (simp add: handle_def answer_def bind_act_def map_err_act_def map_err_def split: sum.splits prod.splits)

lemma quiet_unpack:
  fixes w :: "('n, 's) world"
  shows "unpack X packed R S w = (r, w1) \<Longrightarrow> quiet w w1"
  by (rule stepsD [OF node_only_quiet [OF node_only_unpack]])

lemma quiet_receive:
  fixes w :: "('n, 's) world"
  assumes "receive md now packed w = (res, w')" "quiet w (snd (handle md now packed w))"
  shows "quiet w w'"
  using receive_handle [OF assms(1)] assms(2) by (auto simp: quiet_def)

lemma quiet_answer:
  fixes md :: "('n, 's) mediator"
  assumes "m_type m \<noteq> FORWARD" "\<not> um_authenticated meta"
  shows "steps quiet (answer md now m meta)"
proof -
  have h: "steps quiet (case h of HNothing \<Rightarrow> return_act Accepted | HReply r \<Rightarrow> f r | HProblem p \<Rightarrow> g p)"
    if "\<And>r. steps quiet (f r)" "\<And>p. steps quiet (g p)"
    for h and f :: "message \<Rightarrow> (('n, 's) world, receive_error, outcome) act" and g
    using that by (cases h) (auto simp del: return_act_apply intro: quietG.pure)
  have r: "requester_of m meta = None" "um_authenticated meta = False" using assms(2) by (simp_all add: requester_of_def)
  show ?thesis unfolding answer_def r
    by (intro quiet_base h quiet_dispatch quiet_route_back assms(1))
qed

text \<open>C5: A sender that did not authenticate can only forward: any other message it sends leaves the
  store, the live sessions and the background tasks as they were, whatever it asks for and
  whether or not it is answered on its own connection.\<close>

theorem anonymous_only_forwards:
  fixes w :: "('n, 's) world"
  assumes "unpack (md_ext md) packed (md_resolver md) (id_secrets (md_identity md)) w = (Inr (m, meta), w1)"
    and "\<not> um_authenticated meta" "m_type m \<noteq> FORWARD" "receive md now packed w = (res, w')"
  shows "w_store w' = w_store w \<and> w_hub w' = w_hub w \<and> w_session w' = w_session w \<and> w_tasks w' = w_tasks w"
proof -
  have "quiet w1 (snd (answer md now m meta w1))" 
    by (rule stepsD [OF quiet_answer [OF assms(3,2)] surjective_pairing])
  then have "quiet w (snd (handle md now packed w))"
    using quiet_unpack [OF assms(1)] quietG.trans by (auto simp: handle_answer assms(1))
  from quiet_receive [OF assms(4) this] show ?thesis by (simp add: quiet_def)
qed

theorem anonymous_only_forwards_witness:
  "\<exists>packed meta. unpack sample_ext packed (md_resolver sample_mediator) (id_secrets sample_identity) sample_world
      = (Inr (wallet_ping\<lparr>m_typ := Some PLAINTEXT_TYP\<rparr>, meta), sample_world) \<and> um_encrypted meta
    \<and> w_store (snd (receive sample_mediator 7 packed sample_world)) = mem_new
    \<and> w_tasks (snd (receive sample_mediator 7 packed sample_world)) = []"
proof -
  obtain packed meta where u: "unpack sample_ext packed (md_resolver sample_mediator) (id_secrets sample_identity) sample_world
      = (Inr (wallet_ping\<lparr>m_typ := Some PLAINTEXT_TYP\<rparr>, meta), sample_world)" "um_encrypted meta" "\<not> um_authenticated meta"
  proof -
    obtain packed where "\<forall>w :: (unit, inner) world. \<exists>meta. unpack sample_ext packed (md_resolver sample_mediator)
        (id_secrets sample_identity) w = (Inr (wallet_ping\<lparr>m_typ := Some PLAINTEXT_TYP\<rparr>, meta), w)
        \<and> um_encrypted meta \<and> \<not> um_authenticated meta"
      using sample_anon_sent [OF wallet_ping_ok(1,2) _ wallet_ping_ok(3)] wallet_ping_fields by auto
    from this [rule_format, of sample_world] show ?thesis using that by blast
  qed
  obtain res w' where r: "receive sample_mediator 7 packed sample_world = (res, w')"
    by (cases "receive sample_mediator 7 packed sample_world")
  have t: "m_type (wallet_ping\<lparr>m_typ := Some PLAINTEXT_TYP\<rparr>) \<noteq> FORWARD"
    by (simp add: wallet_ping_def FORWARD_def)
  from anonymous_only_forwards [OF _ u(3) t r] u(1) have "w_store w' = mem_new" "w_tasks w' = []" by auto
  with u(1,2) r show ?thesis by (intro exI [of _ packed] exI [of _ meta]) simp
qed

text \<open>Errors of a forward and of a wallet protocol are never envelope errors.\<close>

lemma mapM_res_Inl: "mapM_res f xs = Inl e \<Longrightarrow> \<exists>x\<in>set xs. f x = Inl e"
  by (induction xs) (auto simp: bind_res_def split: sum.splits)

lemma for_act_Inl:
  "for_act xs f s = (Inl e, s') \<Longrightarrow> \<exists>x\<in>set xs. \<exists>t t'. f x t = (Inl e, t')"
  by (induction xs arbitrary: s) (auto simp: bind_act_Inl)

lemma map_err_act_Inl: "map_err_act f m s = (Inl e, s') \<longleftrightarrow> (\<exists>d. m s = (Inl d, s') \<and> e = f d)"
  by (auto simp: map_err_act_def map_err_def split: prod.splits sum.splits)

lemma map_err_act_Inr [simp]: "map_err_act f m s = (Inr a, s') \<longleftrightarrow> m s = (Inr a, s')"
  by (auto simp: map_err_act_def map_err_def split: prod.splits sum.splits)

lemma deliver_ok: "\<exists>w'. deliver md tp now uri t w = (Inr (), w')"
  by (auto simp: deliver_def bind_act_def catch_act_def count_def split: sum.splits prod.splits bool.splits)

lemma relay_error: "relay md now nxt payloads w = (Inl e, w') \<Longrightarrow> e = UnknownRecipient"
  unfolding relay_def
  by (auto dest!: for_act_Inl simp: relay_one_def bind_act_Inl map_err_act_Inl split: option.splits if_splits)
    (metis deliver_ok Inl_Inr_False prod.inject)+

lemma queue_message_error: "queue_message md now med r p w = (Inl e, w') \<Longrightarrow> e = QueueFull \<or> (\<exists>s. e = StoreError s)"
  by (auto simp: queue_message_def bind_act_Inl map_err_act_Inl hub_notify_def ok_or_def split: option.splits)

lemma md_wake_ok: "\<exists>w'. md_wake md m w = (Inr (), w')"
  by (auto simp: md_wake_def spawn_def split: option.splits)

text \<open>C8: A forward that is refused because of its content changes nothing at all: every
  attachment is checked before the first one is queued or relayed.\<close>

theorem bad_forward_changes_nothing:
  assumes "forward md now m w = (Inl (BadForward e), w')"
  shows "w' = w"
proof -
  have q: "for_act payloads (queue_message md now med r) t \<noteq> (Inl (BadForward e), t')" for payloads med r t t'
    by (auto dest!: for_act_Inl queue_message_error)
  have r: "relay md now nxt payloads t \<noteq> (Inl (BadForward e), t')" for nxt payloads t t'
    by (auto dest: relay_error)
  have k: "md_wake md med t \<noteq> (Inl (BadForward e), t')" for med t t'
    using md_wake_ok by (metis Inl_Inr_False prod.inject)
  show ?thesis
    using assms unfolding forward_def Let_def bind_act_Inl lift_act_apply map_err_act_Inl
    by (auto simp: q r k count_def bind_act_Inl map_err_act_Inl split: option.splits)
qed

theorem bad_forward_changes_nothing_witness:
  "\<exists>w'. forward sample_mediator 7 (wallet_message FORWARD (JObj [(''next'', JStr ''did:a'')])) sample_world
      = (Inl (BadForward ''forward without attachments''), w') \<and> w' = sample_world"
proof -
  obtain w' where f: "forward sample_mediator 7 (wallet_message FORWARD (JObj [(''next'', JStr ''did:a'')])) sample_world
      = (Inl (BadForward ''forward without attachments''), w')"
    by (simp add: forward_def bind_act_def jget_str_def)
  from bad_forward_changes_nothing [OF this] f show ?thesis by blast
qed

lemma forward_error_not_unpack: "forward md now m w = (Inl e, w') \<Longrightarrow> e \<noteq> UnpackError x"
  unfolding forward_def Let_def bind_act_Inl lift_act_apply map_err_act_Inl
  by (auto simp: count_def bind_act_Inl map_err_act_Inl ok_or_def payload_of_def map_err_def
      dest!: for_act_Inl queue_message_error relay_error mapM_res_Inl
      split: option.splits sum.splits) (metis md_wake_ok Inl_Inr_False prod.inject)+

text \<open>Actions that always return a value.\<close>

definition returns :: "('s, 'e, 'a) act \<Rightarrow> bool" where
  "returns m \<longleftrightarrow> (\<forall>w. \<exists>a w'. m w = (Inr a, w'))"

lemma returns_bind [intro]:
  assumes "returns m" "\<And>a. returns (f a)"
  shows "returns (bind_act m f)"
  unfolding returns_def
proof
  fix w
  obtain a w1 where "m w = (Inr a, w1)" using assms(1) unfolding returns_def by blast
  moreover obtain b w2 where "f a w1 = (Inr b, w2)" using assms(2) unfolding returns_def by blast
  ultimately show "\<exists>a w'. bind_act m f w = (Inr a, w')" by (simp add: bind_act_def)
qed

lemma returns_rules [intro]:
  "returns (return_act a)" "returns (catch_act m)" "returns (spawn t)" "returns (md_wake md x)" "returns is_websocket"
  using md_wake_ok
  by (auto simp: returns_def catch_act_def spawn_def is_websocket_def split: prod.splits sum.splits)

lemma returns_cases [intro]:
  "returns m \<Longrightarrow> (\<And>a. returns (f a)) \<Longrightarrow> returns (case_option m f x)"
  "(\<And>a. returns (g a)) \<Longrightarrow> (\<And>a. returns (f a)) \<Longrightarrow> returns (case_sum g f y)"
  "returns m \<Longrightarrow> returns n \<Longrightarrow> returns (if b then m else n)"
  by (simp_all split: option.split sum.split)

lemma returns_not_Inl: "returns m \<Longrightarrow> m w \<noteq> (Inl e, w')"
  by (metis Inl_Inr_False prod.inject returns_def)

lemma returns_new_message: "returns (new_message X now ty body)" "returns (report X now p m)" "returns (trust_ping X now m)"
  by (auto simp: returns_def new_message_def report_def trust_ping_def draw_uuid_def bind_act_def Let_def)

lemma returns_pack_reply: "returns (pack_reply md now reply recipient fwd)"
  unfolding pack_reply_def Let_def by blast

lemma returns_send_reply: "returns (send_reply md now reply sender)"
  unfolding send_reply_def Let_def
  by (intro returns_bind returns_rules returns_cases returns_pack_reply)

lemma returns_route_back: "returns (route_back md now request reply ws auth)"
  unfolding route_back_def
  by (intro returns_bind returns_rules returns_cases returns_pack_reply returns_send_reply)

lemma dispatch_error_not_unpack: "dispatch md now requester m w = (Inl e, w') \<Longrightarrow> e \<noteq> UnpackError x"
  unfolding dispatch_def Let_def
  by (auto simp: bind_act_Inl map_err_act_Inl returns_not_Inl [OF returns_new_message(3)] catch_act_def
      dest: forward_error_not_unpack split: if_splits sum.splits prod.splits)

lemma answer_error:
  assumes "answer md now m meta w = (Inl (UnpackError e), w')"
  shows "\<not> um_encrypted meta \<and> w' = w"
  using assms unfolding answer_def
  by (auto simp: bind_act_Inl dispatch_error_not_unpack returns_not_Inl [OF returns_route_back]
      returns_not_Inl [OF returns_new_message(2)] returns_not_Inl [OF returns_rules(5)]
      dest: dispatch_error_not_unpack split: if_splits handled.splits)
    (metis handled.exhaust)

text \<open>C15: An envelope that cannot be opened, or is not encrypted, leaves the store, the live sessions
  and the background tasks as they were, and is counted as one rejected message.\<close>

theorem refused_envelope_changes_nothing:
  fixes w :: "('n, 's) world"
  assumes "receive md now packed w = (Inl (UnpackError e), w')"
  shows "w_store w' = w_store w \<and> w_hub w' = w_hub w \<and> w_session w' = w_session w \<and> w_tasks w' = w_tasks w
    \<and> w_metrics w' = count_message (if w_session w \<noteq> None then WebSocket else Http) MoRejected (w_metrics w)"
proof -
  obtain w2 where h: "handle md now packed w = (Inl (UnpackError e), w2)"
    and m: "w' = w2\<lparr>w_metrics := count_message (if w_session w \<noteq> None then WebSocket else Http) MoRejected (w_metrics w2)\<rparr>"
    using assms by (auto simp: receive_def Let_def split: prod.splits)
  obtain r w1 where u: "unpack (md_ext md) packed (md_resolver md) (id_secrets (md_identity md)) w = (r, w1)"
    by (cases "unpack (md_ext md) packed (md_resolver md) (id_secrets (md_identity md)) w")
  have "w2 = w1" using h u by (auto simp: handle_answer dest: answer_error split: sum.splits prod.splits)
  moreover have "node.more w1 = node.more w" using stepsD [OF node_only_unpack u] by (simp add: node_only_def)
  ultimately show ?thesis using m by (auto dest: more_eq_store)
qed

theorem refused_envelope_changes_nothing_witness:
  "\<exists>e w'. receive sample_mediator 7 [] sample_world = (Inl (UnpackError e), w') \<and> w_store w' = mem_new
    \<and> mt_messages (w_metrics w') Http MoRejected = 1"
proof -
  have "sample_parse [] = Inl ''expected value''" by (simp add: sample_parse_def numeral_2_eq_2)
  then have "unpack_loop sample_ext (md_resolver sample_mediator) (id_secrets sample_identity)
      \<lparr>us_meta = default_metadata, us_layers = [], us_current = [], us_recipient_dids = []\<rparr> sample_world
    = (Inl (json_error ''expected value''), sample_world)"
    by (subst unpack_loop.simps) (simp add: unpack_step_def bind_act_def from_str_value_def)
  then obtain e where u: "unpack sample_ext [] (md_resolver sample_mediator) (id_secrets sample_identity) sample_world
      = (Inl e, sample_world)"
    by (simp add: unpack_def bind_act_def)
  then obtain w' where r: "receive sample_mediator 7 [] sample_world = (Inl (UnpackError e), w')"
    by (simp add: receive_def handle_answer)
  from refused_envelope_changes_nothing [OF r] r show ?thesis
    by (intro exI [of _ e] exI [of _ w']) (simp add: metrics_new_def count_message_def)
qed

end
