(* ===== verification/Mediation_Properties.thy ===== *)
theory Mediation_Properties
  imports Mediator_Properties
begin

text \<open>
  What the coordination, routing and pickup protocols guarantee over a memory store: who may
  register a recipient DID, what a forward queues, what a pickup delivers.
\<close>

section \<open>Registering a recipient\<close>

lemma check_proof_Inr:
  assumes "check_proof md now requester did update w = (Inr (), w')"
    and "lm_recipient_proof (md_limits md)" "did \<noteq> requester" "unat now + 360 < 2 ^ 64"
  obtains token pv where "jget_str ''proof'' update = Some token"
    "possession_unpack (md_ext md) token (md_resolver md) w = (Inr pv, w')"
    "pp_iss pv = did" "pp_aud pv = id_did (md_identity md)" "pp_sub pv = requester"
    "unat now \<le> unat (pp_iat pv) + 300" "unat (pp_iat pv) \<le> unat now + 60"
proof -
  have n60: "unat (now + 60) = unat now + 60" using assms(4) by (simp add: unat_word_ariths)
  have i300: "unat (i + 300) = unat i + 300" if "unat i \<le> unat now + 60" for i :: u64
    using that assms(4) by (simp add: unat_word_ariths)
  obtain token pv where p: "jget_str ''proof'' update = Some token"
    "possession_unpack (md_ext md) token (md_resolver md) w = (Inr pv, w')"
    "pp_iss pv = did" "pp_aud pv = id_did (md_identity md)" "pp_sub pv = requester"
    and rec: "\<not> pp_iat pv + 300 < now" "\<not> now + 60 < pp_iat pv"
    using assms(1-3)
    by (auto simp: check_proof_def bind_act_Inr PROOF_MAX_AGE_SECS_def PROOF_MAX_SKEW_SECS_def split: if_splits)
  have le: "unat (pp_iat pv) \<le> unat now + 60"
    using rec(2) n60 by (simp add: word_less_nat_alt)
  moreover have "unat now \<le> unat (pp_iat pv) + 300"
    using rec(1) i300 [OF le] by (simp add: word_less_nat_alt)
  ultimately show thesis using that p by blast
qed

text \<open>A proof that unpacks was signed with an authentication key of its issuer.\<close>

lemma possession_signed:
  fixes s :: "('r, 'z) node_scheme"
  assumes "possession_unpack X token R s = (Inr pv, s')"
  shows "\<exists>doc jwt kid key r r'. R (pp_iss pv) r = (Inr doc, r') \<and> compact_parse X token = Inr jwt
    \<and> jh_kid (cp_header jwt) = Some kid \<and> did_of kid = pp_iss pv
    \<and> authentication_key doc kid = Inr key \<and> compact_verify X jwt key = Inr ()"
  using assms resolve_in_ok by (auto simp: possession_unpack_def bind_act_Inr) blast

definition update_did :: "json \<Rightarrow> string" where
  "update_did update = or_default (jget_str ''recipient_did'' update)"

text \<open>C2: Nobody can register a DID it does not control. When the mediator asks for proofs, an
  \<open>add\<close> of a DID other than the requester's own succeeds only with a proof signed by an
  authentication key of that DID's resolved document, issued for this mediator and on behalf
  of this requester, at most five minutes old and at most one minute ahead of the clock; no
  far-future timestamp gets around the 64-bit arithmetic of the check.\<close>

theorem registration_needs_proof:
  fixes w :: "('n, 's) world"
  assumes "recipient_update md now requester update w = (Inr r, w')"
    and "jget_str ''result'' r = Some ''success''" "jget_str ''action'' update = Some ''add''"
    and "lm_recipient_proof (md_limits md)" "update_did update \<noteq> requester" "unat now + 360 < 2 ^ 64"
  shows "\<exists>token jwt kid doc key pv w0 w1 q q'. jget_str ''proof'' update = Some token
    \<and> possession_unpack (md_ext md) token (md_resolver md) (w0 :: ('n, 's) world) = (Inr pv, w1)
    \<and> pp_iss pv = update_did update \<and> pp_aud pv = id_did (md_identity md) \<and> pp_sub pv = requester
    \<and> unat now \<le> unat (pp_iat pv) + 300 \<and> unat (pp_iat pv) \<le> unat now + 60
    \<and> md_resolver md (update_did update) q = (Inr doc, q') \<and> compact_parse (md_ext md) token = Inr jwt
    \<and> jh_kid (cp_header jwt) = Some kid \<and> did_of kid = update_did update
    \<and> authentication_key doc kid = Inr key \<and> compact_verify (md_ext md) jwt key = Inr ()"
proof -
  obtain res w2 where u: "update_result md now requester update (update_did update) ''add'' w = (Inr res, w2)"
    "r = JObj [(''recipient_did'', JStr (update_did update)), (''action'', JStr ''add''), (''result'', JStr res)]"
    using assms(1,3) by (auto simp: recipient_update_def bind_act_Inr Let_def update_did_def or_default_def)
  have "res = ''success''" using assms(2) u(2) by (simp add: jget_str_def)
  then obtain w0 where "check_proof md now requester (update_did update) update w = (Inr (), w0)"
    using u(1) by (auto simp: update_result_def bind_act_Inr catch_act_def split: if_splits sum.splits prod.splits)
      (metis old.sum.exhaust old.unit.exhaust)
  then obtain token pv where p: "jget_str ''proof'' update = Some token"
    "possession_unpack (md_ext md) token (md_resolver md) w = (Inr pv, w0)"
    "pp_iss pv = update_did update" "pp_aud pv = id_did (md_identity md)" "pp_sub pv = requester"
    "unat now \<le> unat (pp_iat pv) + 300" "unat (pp_iat pv) \<le> unat now + 60"
    using assms(4-6) by (rule check_proof_Inr)
  from possession_signed [OF p(2)] p show ?thesis by metis
qed

text \<open>A \<open>did:key\<close> that proves its possession to the sample mediator for the sample wallet.\<close>

definition holder_did :: string where
  "holder_did = did_key sample_ext (PkEd25519 (fit ''h''))"

definition holder_kid :: string where
  "holder_kid = holder_did @ ''#'' @ multikey_encode sample_ext (PkEd25519 (fit ''h''))"

definition holder_doc :: did_document where
  "holder_doc = projr (resolve_key sample_ext holder_did)"

definition holder_secrets :: secrets where
  "holder_secrets = in_memory_secrets [holder_kid \<mapsto> SkEd25519 (fit ''h'')]"

lemma multikey_Ed25519 [simp]:
  "length bs = 32 \<Longrightarrow> multikey_decode sample_ext (multikey_encode sample_ext (PkEd25519 bs)) = Inr (PkEd25519 bs)"
  by (simp add: multikey_decode_def multikey_encode_def decode_base58btc_def encode_base58btc_def public_from_bytes_def
      strip_prefix_def starts_with_def del: codec.simps)

lemma holder_doc:
  "resolve_key sample_ext holder_did = Inr holder_doc" "d_id holder_doc = holder_did"
  "d_authentication holder_doc = [holder_kid]" "authentication_key holder_doc holder_kid = Inr (PkEd25519 (fit ''h''))"
  by (simp_all add: holder_doc_def resolve_key_def holder_did_def did_key_def strip_prefix_append [of "''did:key:''", simplified]
     holder_kid_def key_method_def Let_def authentication_key_Inr doc_method_def)

lemma holder_did_of: "did_of holder_did = holder_did" "did_of holder_kid = holder_did"
proof -
  show d: "did_of holder_did = holder_did"
    by (auto simp: did_of_plain holder_did_def did_key_def dest: multikey_plain)
  show "did_of holder_kid = holder_did" using did_of_fragment [OF d] by (simp add: holder_kid_def)
qed

lemma holder_answers: "answers (md_resolver sample_mediator) holder_did holder_doc"
proof -
  have "starts_with holder_did ''did:key:''" "holder_did \<noteq> ''did:web:m''"
    by (simp_all add: holder_did_def did_key_def starts_with_def)
  then show ?thesis
    by (simp add: answers_def md_resolver_def mediator_resolver_def static_resolve_def sample_document on_local_def
        local_resolve_def holder_doc)
qed

lemma holder_holds: "holds_authentication sample_ext holder_secrets holder_doc"
  by (auto simp: holds_authentication_def holder_doc holder_secrets_def in_memory_secrets_def holder_did_of split: if_splits)

lemma holder_token:
  obtains token s' where "possession_pack sample_ext (possession_new 1000 holder_did ''did:web:m'' wallet_did) None
     (md_resolver sample_mediator) holder_secrets (node.truncate sample_world) = (Inr token, s')"
proof -
  obtain r where r: "resolve_in (md_resolver sample_mediator) holder_did (node.truncate sample_world) = (Inr holder_doc, (node.truncate sample_world)\<lparr>resolver_state := r\<rparr>)"
    using answers_resolve [OF holder_answers] by blast
  have n: "CHR ''#'' \<notin> set holder_did" using holder_did_of(1) by (simp add: did_of_plain)
  have f: "find_signing_key holder_did (md_resolver sample_mediator) holder_secrets (node.truncate sample_world)
      = (Inr (holder_kid, SkEd25519 (fit ''h'')), (node.truncate sample_world)\<lparr>resolver_state := r\<rparr>)"
    using r holder_did_of n by (simp add: find_signing_key_def bind_act_def holder_doc holder_secrets_def in_memory_secrets_def)
  show thesis
    by (rule that) (use f wallet_did_of holder_did_of own_did_of in \<open>simp add: possession_pack_def possession_new_def possession_check_def bind_act_def
      sign_compact_def signature_alg_res_def secret_sign_def Let_def\<close>)
qed

definition holder_update :: "string \<Rightarrow> json" where
  "holder_update token = JObj [(''recipient_did'', JStr holder_did), (''action'', JStr ''add''), (''proof'', JStr token)]"

theorem registration_needs_proof_witness:
  "\<exists>token w'. recipient_update sample_mediator 1000 wallet_did (holder_update token) sample_world
      = (Inr (JObj [(''recipient_did'', JStr holder_did), (''action'', JStr ''add''), (''result'', JStr ''success'')]), w')
    \<and> (\<exists>kid. did_of kid = holder_did)"
proof (rule holder_token)
  fix token s'
  assume "possession_pack sample_ext (possession_new 1000 holder_did ''did:web:m'' wallet_did) None
     (md_resolver sample_mediator) holder_secrets (node.truncate sample_world) = (Inr token, s')"
  then have "fst (possession_unpack sample_ext token (md_resolver sample_mediator) sample_world)
      = Inr (possession_new 1000 holder_did ''did:web:m'' wallet_did)"
    by (rule possession_unpacks [OF sample_text_laws sample_sig_laws, rotated 4, where doc = holder_doc])
      (simp_all add: possession_new_def holder_answers holder_doc holder_holds)
  then obtain w1 where p: "possession_unpack sample_ext token (md_resolver sample_mediator) sample_world
      = (Inr (possession_new 1000 holder_did ''did:web:m'' wallet_did), w1)" by (metis prod.collapse)
  have s: "w_store w1 = mem_new" using stepsD [OF node_only_possession p] more_eq_store by (fastforce simp: node_only_def)
  have d: "holder_did \<noteq> wallet_did" "is_did holder_did" "length holder_did > 4"
    using holder_did_of(1)
    by (simp_all add: holder_did_def wallet_did_def did_key_def multikey_encode_def encode_base58btc_def is_did_def
        wallet_key_def starts_with_def encode_varint.simps)
  have c: "check_proof sample_mediator 1000 wallet_did holder_did (holder_update token) sample_world = (Inr (), w1)"
    using p d by (simp add: check_proof_def holder_update_def jget_str_def sample_limits_def bind_act_def map_err_act_def
        possession_new_def sample_document PROOF_MAX_AGE_SECS_def PROOF_MAX_SKEW_SECS_def)
  obtain w2 where a: "on_store (store_ops.add_recipient memory_store wallet_did holder_did 5) w1 = (Inr Added, w2)"
    using s by (simp add: on_store_def mem_add_recipient_def locked_def mem_new_def recips_of_def)
  have u: "update_result sample_mediator 1000 wallet_did (holder_update token) holder_did ''add'' sample_world
      = (Inr ''success'', w2)"
    using c a d by (simp add: update_result_def bind_act_def catch_act_def sample_limits_def)
  have h: "or_default (jget_str ''recipient_did'' (holder_update token)) = holder_did"
    "jget_str ''action'' (holder_update token) = Some ''add''"
    by (simp_all add: holder_update_def jget_str_def or_default_def)
  have u: "recipient_update sample_mediator 1000 wallet_did (holder_update token) sample_world
      = (Inr (JObj [(''recipient_did'', JStr holder_did), (''action'', JStr ''add''), (''result'', JStr ''success'')]), w2)"
    using u h by (simp add: recipient_update_def bind_act_def Let_def or_default_def [of "Some _"])
  from registration_needs_proof [OF this] d show ?thesis
    using u h holder_did_of by (simp add: jget_str_def update_did_def sample_limits_def) blast
qed

section \<open>The recipient list\<close>

text \<open>A page of the recipient list is exactly the requested slice, and the reply's numbers
  add up: what is before the page, in it and after it is the whole list, for any limit and
  offset a client sends.\<close>

theorem pagination_exact:
  assumes "page_of allr limit offset = (off, page)" "length allr < 2 ^ 64"
  shows "page = take (unat limit) (drop (unat offset) allr)
    \<and> off + length page + (length allr - off - length page) = length allr"
  using assms by (auto simp: page_of_def Let_def usize_MAX_def min_def)

theorem pagination_exact_witness:
  "\<exists>off page. page_of [''did:a'', ''did:b'', ''did:c''] 1 1 = (off, page) \<and> page = [''did:b''] \<and> off = 1"
proof -
  obtain off page where p: "page_of [''did:a'', ''did:b'', ''did:c''] 1 1 = (off, page)"
    by (cases "page_of [''did:a'', ''did:b'', ''did:c''] 1 1")
  moreover have "off = 1" using p by (simp add: page_of_def Let_def usize_MAX_def)
  ultimately show ?thesis using pagination_exact [OF p] by simp
qed

end
