(* ===== verification/Delivery.thy ===== *)
theory Delivery
  imports Mediation_Properties
begin

text \<open>
  The mediator's main service, over the memory store: what is forwarded to a registered recipient
  is queued for its mediation, and the wallet gets it with its next pickups, each message once.
\<close>

section \<open>Forwarding\<close>

text \<open>The queue of a mediation in the world of a handler, without what has expired.\<close>

definition waiting :: "('n, inner) mediator \<Rightarrow> u64 \<Rightarrow> string \<Rightarrow> ('n, inner) world \<Rightarrow> queued list" where
  "waiting md now a w = live_part now (ql_ttl_secs (lm_queue (md_limits md))) (queue_of (w_store w) a)"

lemma live_part_idem [simp]: "live_part now ttl (live_part now ttl qs) = live_part now ttl qs"
  by (simp add: live_part_def)

lemma live_part_append [simp]: "live_part now ttl (ps @ qs) = live_part now ttl ps @ live_part now ttl qs"
  by (simp add: live_part_def)

lemma live_part_now: "\<forall>q\<in>set qs. q_received q = now \<Longrightarrow> live_part now ttl qs = qs"
  using saturating_sub_le by (simp add: live_part_def)

lemma on_store_Inr: "on_store f w = (Inr a, w') \<longleftrightarrow> (\<exists>s. f (w_store w) = (Inr a, s) \<and> w' = w\<lparr>w_store := s\<rparr>)"
  by (auto simp: on_store_def split: prod.splits)

lemma queue_message_Inr:
  assumes m: "md_store md = memory_store" and now: "unat now * 1000 < 2 ^ 64"
    and q: "queue_message md now a r p w = (Inr (), w')"
  shows "\<exists>i. queue_of (w_store w') a = waiting md now a w @ [\<lparr>q_id = i, q_recipient = r, q_received = now, q_message = p\<rparr>]"
proof -
  let ?lims = "lm_queue (md_limits md)"
  obtain i s where e: "mem_enqueue a r p now ?lims (w_store w) = (Inr (Some i), s)" and w': "w_store w' = s"
    using q m by (auto simp: queue_message_def bind_act_Inr on_store_Inr hub_notify_def ok_or_def memory_store_def split: option.splits)
  have np: "\<not> poisoned (w_store w)" using e by (auto simp: mem_enqueue_def)
  show ?thesis
    using e by (auto simp: mem_enqueue_cases [OF np] w' waiting_def queue_of_def millis_to_secs [OF now] split: if_splits)
qed

lemma queue_messages_Inr:
  assumes "md_store md = memory_store" "unat now * 1000 < 2 ^ 64"
    and "for_act ps (queue_message md now a r) w = (Inr (), w')"
  shows "\<exists>new. waiting md now a w' = waiting md now a w @ new \<and> map q_message new = ps
    \<and> (\<forall>q\<in>set new. q_recipient q = r \<and> q_received q = now)"
  using assms(3)
proof (induction ps arbitrary: w)
  case Nil
  then show ?case by simp
next
  case (Cons p ps)
  obtain w1 where 1: "queue_message md now a r p w = (Inr (), w1)" and 2: "for_act ps (queue_message md now a r) w1 = (Inr (), w')"
    using Cons.prems by (auto simp: bind_act_Inr)
  obtain i where i: "queue_of (w_store w1) a = waiting md now a w @ [\<lparr>q_id = i, q_recipient = r, q_received = now, q_message = p\<rparr>]"
    (is "_ = _ @ [?q]") using queue_message_Inr [OF assms(1,2) 1] by blast
  have "waiting md now a w1 = waiting md now a w @ [?q]"
    using live_part_now [of "[?q]" now] by (simp add: waiting_def i)
  with Cons.IH [OF 2] obtain new where new: "waiting md now a w' = waiting md now a w @ ?q # new"
    "map q_message new = ps" "\<forall>q\<in>set new. q_recipient q = r \<and> q_received q = now" by auto
  then show ?case by (intro exI [of _ "?q # new"]) simp
qed

lemma md_wake_store: "md_wake md a w = (r, w') \<Longrightarrow> w_store w' = w_store w"
  by (auto simp: md_wake_def spawn_def split: option.splits if_splits)

definition forward_payloads :: "ext \<Rightarrow> message \<Rightarrow> receive_error + string list" where
  "forward_payloads X m = mapM_res (payload_of X) (case m_attachments m of Some as \<Rightarrow> as | None \<Rightarrow> [])"

lemma forward_queues:
  assumes m: "md_store md = memory_store" and now: "unat now * 1000 < 2 ^ 64"
    and f: "forward md now m w = (Inr (), w')" and n: "jget_str ''next'' (m_body m) = Some nxt"
    and o: "owners (w_store w) (did_of nxt) = Some a"
  shows "\<exists>new. waiting md now a w' = waiting md now a w @ new \<and> forward_payloads (md_ext md) m = Inr (map q_message new)
    \<and> (\<forall>q\<in>set new. q_recipient q = did_of nxt \<and> q_received q = now) \<and> new \<noteq> []"
proof -
  obtain x as ps w2 where at: "m_attachments m = Some (x # as)" "mapM_res (payload_of (md_ext md)) (x # as) = Inr ps"
    and w2: "for_act ps (queue_message md now a (did_of nxt)) w = (Inr (), w2)" "w_store w' = w_store w2"
    using f n o m
    by (auto simp: forward_def bind_act_Inr ok_or_def Let_def on_store_Inr memory_store_def mem_mediation_of_def count_def
      split: option.splits list.splits simp del: mapM_res.simps dest!: md_wake_store)
  have "ps \<noteq> []" using at(2) by (auto simp: bind_res_def split: sum.splits)
  with queue_messages_Inr [OF m now w2(1)] show ?thesis
    using at w2(2) by (auto simp: forward_payloads_def waiting_def simp del: mapM_res.simps)
qed

text \<open>What fits into a queue, and a run of messages that is queued until one does not.\<close>

definition fits :: "queue_limits \<Rightarrow> queued list \<Rightarrow> string list \<Rightarrow> bool" where
  "fits lims qs ps \<longleftrightarrow> length qs + length ps \<le> ql_max_messages lims
     \<and> queue_bytes qs + sum_list (map length ps) \<le> unat (ql_max_bytes lims)"

lemma queue_bytes_append: "queue_bytes (qs @ [q]) = queue_bytes qs + length (q_message q)"
  by (simp add: queue_bytes_def)

lemma full_iff:
  assumes "within_limits lims qs" "unat (ql_max_bytes lims) + length t < 2 ^ 64"
  shows "ql_max_messages lims \<le> length qs \<or> ql_max_bytes lims < message_bytes qs + of_nat (length t) \<longleftrightarrow> \<not> fits lims qs [t]"
proof -
  have "queue_bytes qs + length t < 2 ^ 64" using assms by (simp add: within_limits_def)
  then have "unat (message_bytes qs + of_nat (length t)) = queue_bytes qs + length t"
    using unat_message_bytes [of qs] by (simp add: unat_word_ariths unat_of_nat)
  then show ?thesis by (auto simp: fits_def word_less_nat_alt)
qed

lemma queue_messages_run:
  fixes w :: "('n, inner) world"
  assumes md: "md_store md = memory_store" and now: "unat now * 1000 < 2 ^ 64"
    and big: "\<forall>p\<in>set ps. unat (ql_max_bytes (lm_queue (md_limits md))) + length p < 2 ^ 64"
    and "\<not> poisoned (w_store w)" "within_limits (lm_queue (md_limits md)) (waiting md now a w)" "ps \<noteq> []"
  shows "\<exists>w' new n. for_act ps (queue_message md now a r) w
      = (if fits (lm_queue (md_limits md)) (waiting md now a w) ps then Inr () else Inl QueueFull, w')
    \<and> w_store w' = (w_store w)\<lparr>seq := n, queues := (queues (w_store w))(a \<mapsto> waiting md now a w @ new)\<rparr>
    \<and> (\<exists>k. map q_message new = take k ps)
    \<and> (fits (lm_queue (md_limits md)) (waiting md now a w) ps \<longrightarrow> map q_message new = ps)
    \<and> (\<forall>q\<in>set new. q_recipient q = r \<and> q_received q = now)"
  using assms(3-)
proof (induction ps arbitrary: w)
  case (Cons p ps)
  let ?lims = "lm_queue (md_limits md)" and ?q = "waiting md now a w"
  have big: "unat (ql_max_bytes ?lims) + length p < 2 ^ 64" using Cons.prems(1) by simp
  note full = full_iff [OF Cons.prems(3) big]
  show ?case
  proof (cases "fits ?lims ?q [p]")
    case False
    let ?s = "(w_store w)\<lparr>seq := seq (w_store w) + 1, queues := (queues (w_store w))(a \<mapsto> ?q)\<rparr>"
    have "mem_enqueue a r p now ?lims (w_store w) = (Inr None, ?s)"
      using full False unfolding waiting_def by (simp only: mem_enqueue_cases [OF Cons.prems(2)] not_False_eq_True if_True)
    then have "for_act (p # ps) (queue_message md now a r) w = (Inl QueueFull, w\<lparr>w_store := ?s\<rparr>)"
      using md by (simp add: queue_message_def bind_act_def map_err_act_def on_store_def memory_store_def ok_or_def)
    moreover have "\<not> fits ?lims ?q (p # ps)" using False by (auto simp: fits_def)
    moreover have "\<exists>k. map q_message [] = take k (p # ps)" by (rule exI [of _ 0]) simp
    ultimately show ?thesis
      by (intro exI [of _ "w\<lparr>w_store := ?s\<rparr>"] exI [of _ "[]"] exI [of _ "seq (w_store w) + 1"]) (simp del: fun_upd_apply)
  next
    case True
    let ?i = "show_u64 (now * 1000) @ ''-'' @ show_u64 (seq (w_store w) + 1)"
    let ?e = "\<lparr>q_id = ?i, q_recipient = r, q_received = now, q_message = p\<rparr>"
    let ?s = "(w_store w)\<lparr>seq := seq (w_store w) + 1, queues := (queues (w_store w))(a \<mapsto> ?q @ [?e])\<rparr>"
    have ms: "id_millis ?i div 1000 = now" using millis_to_secs [OF now] by simp
    have "mem_enqueue a r p now ?lims (w_store w) = (Inr (Some ?i), ?s)"
      using full True unfolding waiting_def
      by (simp only: mem_enqueue_cases [OF Cons.prems(2)] not_True_eq_False if_False ms)
    then obtain w1 where 1: "queue_message md now a r p w = (Inr (), w1)" "w_store w1 = ?s"
      using md by (simp add: queue_message_def bind_act_def map_err_act_def on_store_def memory_store_def ok_or_def hub_notify_def)
    have w1: "waiting md now a w1 = ?q @ [?e]"
      using live_part_now [of "[?e]" now] by (simp add: waiting_def 1(2) queue_of_def)
    have fits1: "fits ?lims (waiting md now a w1) ps \<longleftrightarrow> fits ?lims ?q (p # ps)"
      by (auto simp: w1 fits_def queue_bytes_append)
    show ?thesis
    proof (cases "ps = []")
      case True
      then show ?thesis using 1 \<open>fits ?lims ?q [p]\<close>
        by (intro exI [of _ w1] exI [of _ "[?e]"] exI [of _ "seq (w_store w) + 1"])
          (simp add: bind_act_def exI [of _ 1] del: fun_upd_apply)
    next
      case False
      have pre: "\<forall>p\<in>set ps. unat (ql_max_bytes ?lims) + length p < 2 ^ 64" "\<not> poisoned (w_store w1)"
        "within_limits ?lims (waiting md now a w1)"
        using Cons.prems(1,2) \<open>fits ?lims ?q [p]\<close> by (simp_all add: 1(2) w1 within_limits_def fits_def queue_bytes_append)
      obtain w' new n k where 2: "for_act ps (queue_message md now a r) w1
          = (if fits ?lims (waiting md now a w1) ps then Inr () else Inl QueueFull, w')"
        "w_store w' = (w_store w1)\<lparr>seq := n, queues := (queues (w_store w1))(a \<mapsto> waiting md now a w1 @ new)\<rparr>"
        "map q_message new = take k ps" "fits ?lims (waiting md now a w1) ps \<longrightarrow> map q_message new = ps"
        "\<forall>q\<in>set new. q_recipient q = r \<and> q_received q = now"
        using Cons.IH [OF pre False] by blast
      have "\<exists>k. map q_message (?e # new) = take k (p # ps)" using 2(3) by (intro exI [of _ "Suc k"]) simp
      moreover have "w_store w' = (w_store w)\<lparr>seq := n, queues := (queues (w_store w))(a \<mapsto> ?q @ ?e # new)\<rparr>"
        using 2(2) by (simp add: 1(2) w1)
      moreover have "for_act (p # ps) (queue_message md now a r) w = (if fits ?lims ?q (p # ps) then Inr () else Inl QueueFull, w')"
        using 1(1) 2(1) fits1 by (simp add: bind_act_def)
      moreover have "fits ?lims ?q (p # ps) \<longrightarrow> map q_message (?e # new) = p # ps" using 2(4) fits1 by simp
      moreover have "\<forall>q\<in>set (?e # new). q_recipient q = r \<and> q_received q = now" using 2(5) by simp
      ultimately show ?thesis by (intro exI [of _ w'] exI [of _ "?e # new"] exI [of _ n] conjI)
    qed
  qed
qed simp

section \<open>Picking up\<close>

text \<open>A delivered message, as an attachment.\<close>

definition delivered :: "ext \<Rightarrow> queued \<Rightarrow> attachment" where
  "delivered X q = with_id (q_id q) (attachment_base64 X (q_message q))"

lemma delivery_of_fields:
  "m_type (delivery_of X p qs m) = m_type m"
  "m_thid (delivery_of X p qs m) = Some (thid p)"
  "m_attachments (delivery_of X p qs m) = (case m_attachments m of
      None \<Rightarrow> if qs = [] then None else Some (map (delivered X) qs)
    | Some as \<Rightarrow> Some (as @ map (delivered X) qs))"
proof -
  have f: "m_type (fold (\<lambda>q d. add_attachment (delivered X q) d) qs d) = m_type d
      \<and> m_thid (fold (\<lambda>q d. add_attachment (delivered X q) d) qs d) = m_thid d
      \<and> m_attachments (fold (\<lambda>q d. add_attachment (delivered X q) d) qs d) = (case m_attachments d of
          None \<Rightarrow> if qs = [] then None else Some (map (delivered X) qs)
        | Some as \<Rightarrow> Some (as @ map (delivered X) qs))" for d
    by (induction qs arbitrary: d) (auto simp: add_attachment_def split: option.split)
  show "m_type (delivery_of X p qs m) = m_type m"
    "m_thid (delivery_of X p qs m) = Some (thid p)"
    "m_attachments (delivery_of X p qs m) = (case m_attachments m of
      None \<Rightarrow> if qs = [] then None else Some (map (delivered X) qs)
    | Some as \<Rightarrow> Some (as @ map (delivered X) qs))"
    using f [of "reply_to p m"] by (simp_all add: delivery_of_def delivered_def [symmetric] reply_to_def)
qed

text \<open>What a pickup leaves alone.\<close>

definition same_account :: "string \<Rightarrow> inner \<Rightarrow> inner \<Rightarrow> bool" where
  "same_account a s s' \<longleftrightarrow> \<not> poisoned s' \<and> (a \<in> mediations s' \<longleftrightarrow> a \<in> mediations s)"

lemma on_store_locked:
  "\<not> poisoned (w_store w) \<Longrightarrow> on_store (locked f) w = (Inr (fst (f (w_store w))), w\<lparr>w_store := snd (f (w_store w))\<rparr>)"
  by (simp add: on_store_def locked_def split_beta)

text \<open>\<open>status\<close> answers with a reply and only drops what has expired.\<close>

lemma status_at:
  fixes w :: "('n, inner) world"
  assumes "md_store md = memory_store" "\<not> poisoned (w_store w)"
  shows "\<exists>r w'. status md now a ro m live w = (Inr (HReply r), w') \<and> m_type r = STATUS \<and> m_attachments r = None
    \<and> queue_of (w_store w') a = waiting md now a w \<and> same_account a (w_store w) (w_store w') \<and> w_session w' = w_session w"
  using assms
  by (simp add: status_def bind_act_def memory_store_def mem_summary_def on_store_locked inner_queue_live
      new_message_def draw_uuid_def message_new_def reply_to_def waiting_def queue_of_def same_account_def)

lemma pickup_handle_at:
  assumes "md_store md = memory_store" "\<not> poisoned (w_store w)" "a \<in> mediations (w_store w)"
    and "jget ''recipient_did'' (m_body m) = None"
  shows "\<exists>s. pickup_handle md now a m w = pickup_type md now a m None (w_session w) (w\<lparr>w_store := s\<rparr>)
    \<and> queue_of s = queue_of (w_store w) \<and> same_account a (w_store w) s"
proof -
  have "\<exists>s. picked_up md now a w = (Inr (), w\<lparr>w_store := s\<rparr>) \<and> queue_of s = queue_of (w_store w) \<and> same_account a (w_store w) s"
  proof (cases "md_pusher md")
    case None
    then show ?thesis using assms(2) by (intro exI [of _ "w_store w"]) (simp add: picked_up_def same_account_def)
  next
    case (Some p)
    let ?s = "snd (mem_release_push a now (lm_push_min_interval_secs (md_limits md)) (w_store w))"
    have "queue_of ?s = queue_of (w_store w)" "same_account a (w_store w) ?s"
      using assms(2) by (auto simp: mem_release_push_def snd_locked queue_of_def same_account_def Let_def fun_eq_iff split: option.split)
    then show ?thesis using Some assms(1,2)
      by (intro exI [of _ ?s]) (simp add: picked_up_def memory_store_def mem_release_push_def on_store_locked snd_locked)
  qed
  moreover have "on_store (has_mediation (md_store md) a) w = (Inr True, w)"
    using assms(1-3) by (simp add: memory_store_def mem_has_mediation_def on_store_locked)
  ultimately show ?thesis using assms(4)
    by (auto simp: pickup_handle_def bind_act_ok pickup_recipient_def session_get_def)
qed

text \<open>A delivery request is answered with the oldest messages that have not expired, and they stay
  queued.\<close>

lemma delivery_at:
  fixes w :: "('n, inner) world"
  assumes s: "md_store md = memory_store" "\<not> poisoned (w_store w)" "a \<in> mediations (w_store w)"
    and m: "m_type m = DELIVERY_REQUEST" "jget ''recipient_did'' (m_body m) = None" "jget ''limit'' (m_body m) = Some (JU64 l)" "l \<noteq> 0"
    and q: "take (unat (min l MAX_BATCH)) (waiting md now a w) = qs" "qs \<noteq> []"
  shows "\<exists>d w'. pickup_handle md now a m w = (Inr (HReply d), w') \<and> m_type d = DELIVERY \<and> m_thid d = Some (thid m)
    \<and> m_attachments d = Some (map (delivered (md_ext md)) qs)
    \<and> queue_of (w_store w') a = waiting md now a w \<and> same_account a (w_store w) (w_store w')"
proof -
  obtain s where s1: "pickup_handle md now a m w = pickup_type md now a m None (w_session w) (w\<lparr>w_store := s\<rparr>)"
    "queue_of s = queue_of (w_store w)" "same_account a (w_store w) s"
    using pickup_handle_at [OF s m(2)] by blast
  let ?w = "w\<lparr>w_store := s\<lparr>queues := (queues s)(a \<mapsto> waiting md now a w)\<rparr>\<rparr>"
  have "\<not> poisoned s" using s1(3) by (simp add: same_account_def)
  moreover have "live_part now (ql_ttl_secs (lm_queue (md_limits md))) (queue_of s a) = waiting md now a w"
    by (simp add: waiting_def s1)
  ultimately have p: "on_store (peek (md_store md) a None (unat (min l MAX_BATCH)) now
      (ql_ttl_secs (lm_queue (md_limits md)))) (w\<lparr>w_store := s\<rparr>) = (Inr qs, ?w)"
    using s(1) q(1) by (simp add: memory_store_def mem_peek_def on_store_locked inner_queue_live matching_def)
  have "pickup_type md now a m None (w_session w) (w\<lparr>w_store := s\<rparr>)
      = bind_act (new_message (md_ext md) now DELIVERY (JObj [])) (\<lambda>d.
          return_act (HReply (delivery_of (md_ext md) m qs d))) ?w"
    using m q(2) by (simp add: pickup_type_def Let_def bind_act_def p DELIVERY_REQUEST_def STATUS_REQUEST_def)
  then show ?thesis using s1 q(2)
    by (simp add: bind_act_def new_message_def draw_uuid_def delivery_of_fields message_new_def same_account_def queue_of_def)
qed

text \<open>An acknowledgement takes exactly the acknowledged messages off the queue.\<close>

lemma received_at:
  fixes w :: "('n, inner) world"
  assumes s: "md_store md = memory_store" "\<not> poisoned (w_store w)" "a \<in> mediations (w_store w)"
    and m: "m_type m = MESSAGES_RECEIVED" "m_body m = JObj [(''message_id_list'', JArr (map JStr ids))]"
  shows "\<exists>r w'. pickup_handle md now a m w = (Inr (HReply r), w') \<and> m_type r = STATUS
    \<and> waiting md now a w' = filter (\<lambda>q. q_id q \<notin> set ids) (waiting md now a w)
    \<and> same_account a (w_store w) (w_store w')"
proof -
  obtain s where s1: "pickup_handle md now a m w = pickup_type md now a m None (w_session w) (w\<lparr>w_store := s\<rparr>)"
    "queue_of s = queue_of (w_store w)" "same_account a (w_store w) s"
    using pickup_handle_at [OF s, of m] m(2) by auto
  let ?t = "snd (mem_remove a ids s)"
  have t: "queue_of ?t a = filter (\<lambda>q. q_id q \<notin> set ids) (queue_of s a)" "same_account a s ?t"
    using s1(3) by (auto simp: mem_remove_def snd_locked queue_of_def same_account_def Let_def split: option.split)
  have np: "\<not> poisoned s" using s1(3) by (simp add: same_account_def)
  then obtain n where p: "on_store (remove (md_store md) a ids) (w\<lparr>w_store := s\<rparr>) = (Inr n, w\<lparr>w_store := ?t\<rparr>)"
  proof -
    obtain n t where "mem_remove a ids s = (Inr n, t)" using np by (simp add: mem_remove_def locked_def split_beta)
    then show ?thesis using that s(1) by (simp add: memory_store_def on_store_def)
  qed
  have "\<not> poisoned ?t" using t(2) by (simp add: same_account_def)
  then obtain r w' where st: "status md now a None m (case w_session w of None \<Rightarrow> False | Some s \<Rightarrow> is_live_for s a) (w\<lparr>w_store := ?t\<rparr>)
      = (Inr (HReply r), w')" "m_type r = STATUS" "queue_of (w_store w') a = waiting md now a (w\<lparr>w_store := ?t\<rparr>)"
      "same_account a ?t (w_store w')"
    using status_at [OF s(1), of "w\<lparr>w_store := ?t\<rparr>" now a None m] by fastforce
  have "mapM_opt as_str (map JStr ids) = Some ids" by (simp add: mapM_opt_map)
  then have "pickup_type md now a m None (w_session w) (w\<lparr>w_store := s\<rparr>) = (Inr (HReply r), w')"
    using m st(1) by (simp add: pickup_type_def Let_def bind_act_def p MESSAGES_RECEIVED_def DELIVERY_REQUEST_def STATUS_REQUEST_def)
  moreover have "waiting md now a w' = filter (\<lambda>q. q_id q \<notin> set ids) (waiting md now a w)"
    by (simp add: waiting_def st(3) t s1(2)) (simp add: live_part_def conj_commute)
  ultimately show ?thesis using s1 st t(2) by (auto simp: same_account_def)
qed

text \<open>A request that finds nothing is answered with the status.\<close>

lemma empty_at:
  fixes w :: "('n, inner) world"
  assumes s: "md_store md = memory_store" "\<not> poisoned (w_store w)" "a \<in> mediations (w_store w)"
    and m: "m_type m = DELIVERY_REQUEST" "jget ''recipient_did'' (m_body m) = None" "jget ''limit'' (m_body m) = Some (JU64 l)" "l \<noteq> 0"
    and q: "waiting md now a w = []"
  shows "\<exists>r w'. pickup_handle md now a m w = (Inr (HReply r), w') \<and> m_attachments r = None \<and> waiting md now a w' = []"
proof -
  obtain s where s1: "pickup_handle md now a m w = pickup_type md now a m None (w_session w) (w\<lparr>w_store := s\<rparr>)"
    "queue_of s = queue_of (w_store w)" "same_account a (w_store w) s"
    using pickup_handle_at [OF s m(2)] by blast
  let ?w = "w\<lparr>w_store := s\<lparr>queues := (queues s)(a \<mapsto> [])\<rparr>\<rparr>"
  have np: "\<not> poisoned s" using s1(3) by (simp add: same_account_def)
  moreover have "live_part now (ql_ttl_secs (lm_queue (md_limits md))) (queue_of s a) = []"
    using q by (simp add: waiting_def s1)
  ultimately have p: "on_store (peek (md_store md) a None (unat (min l MAX_BATCH)) now
      (ql_ttl_secs (lm_queue (md_limits md)))) (w\<lparr>w_store := s\<rparr>) = (Inr [], ?w)"
    using s(1) by (simp add: memory_store_def mem_peek_def on_store_locked inner_queue_live matching_def)
  obtain r w' where "status md now a None m (case w_session w of None \<Rightarrow> False | Some s \<Rightarrow> is_live_for s a) ?w = (Inr (HReply r), w')"
    "m_attachments r = None" "queue_of (w_store w') a = waiting md now a ?w"
    using status_at [OF s(1), of ?w now a None m] np by fastforce
  moreover have "waiting md now a ?w = []" by (simp add: waiting_def queue_of_def live_part_def)
  ultimately show ?thesis
    using m by (simp add: s1(1) pickup_type_def Let_def bind_act_def p DELIVERY_REQUEST_def STATUS_REQUEST_def waiting_def live_part_def)
qed

text \<open>A wallet that asks for deliveries and acknowledges each, \<open>n\<close> times; what it got.\<close>

definition delivery_request :: "u64 \<Rightarrow> message" where
  "delivery_request l = message_new ''r'' 0 DELIVERY_REQUEST (JObj [(''limit'', JU64 l)])"

definition messages_received :: "string list \<Rightarrow> message" where
  "messages_received ids = message_new ''a'' 0 MESSAGES_RECEIVED (JObj [(''message_id_list'', JArr (map JStr ids))])"

fun pickups ::
  "('n, 's) mediator \<Rightarrow> u64 \<Rightarrow> string \<Rightarrow> u64 \<Rightarrow> nat \<Rightarrow> (('n, 's) world, string, attachment list) act" where
  "pickups md now a l 0 = return_act []"
| "pickups md now a l (Suc n) =
     bind_act (pickup_handle md now a (delivery_request l)) (\<lambda>h.
     case h of
       HReply d \<Rightarrow>
         (case m_attachments d of
            None \<Rightarrow> return_act []
          | Some as \<Rightarrow>
              bind_act (pickup_handle md now a (messages_received (List.map_filter at_id as))) (\<lambda>_.
              bind_act (pickups md now a l n) (\<lambda>rest. return_act (as @ rest))))
     | _ \<Rightarrow> return_act [])"

lemma wallet_messages:
  "m_type (delivery_request l) = DELIVERY_REQUEST" "jget ''recipient_did'' (m_body (delivery_request l)) = None"
  "jget ''limit'' (m_body (delivery_request l)) = Some (JU64 l)" "m_type (messages_received ids) = MESSAGES_RECEIVED"
  "m_body (messages_received ids) = JObj [(''message_id_list'', JArr (map JStr ids))]"
  by (simp_all add: delivery_request_def messages_received_def message_new_def)

lemma delivered_ids: "List.map_filter at_id (map (delivered X) qs) = map q_id qs"
  by (induction qs) (auto simp: map_filter_simps delivered_def with_id_def)

lemma filter_taken:
  assumes "distinct (map f xs)"
  shows "filter (\<lambda>x. f x \<notin> set (map f (take n xs))) xs = drop n xs"
proof -
  have "distinct (map f (take n xs) @ map f (drop n xs))" using assms by (metis append_take_drop_id map_append)
  then have "filter (\<lambda>x. f x \<notin> set (map f (take n xs))) (take n xs @ drop n xs) = drop n xs"
    unfolding filter_append by (auto simp: filter_empty_conv filter_id_conv)
  then show ?thesis by simp
qed

lemma pickups_drain:
  fixes w :: "('n, inner) world"
  assumes "md_store md = memory_store" "\<not> poisoned (w_store w)" "a \<in> mediations (w_store w)" "l \<noteq> 0"
    and "distinct (map q_id (waiting md now a w))" "length (waiting md now a w) \<le> n * unat (min l MAX_BATCH)"
  shows "\<exists>w'. pickups md now a l n w = (Inr (map (delivered (md_ext md)) (waiting md now a w)), w') \<and> waiting md now a w' = []"
  using assms(2,3,5,6)
proof (induction n arbitrary: w)
  case 0
  then show ?case by simp
next
  case (Suc n)
  let ?b = "unat (min l MAX_BATCH)" and ?q = "waiting md now a w"
  have b: "?b > 0" using assms(4) by (simp add: min_def MAX_BATCH_def unat_gt_0)
  show ?case
  proof (cases "?q = []")
    case True
    then show ?thesis
      using empty_at [OF assms(1) Suc.prems(1,2) wallet_messages(1,2,3) assms(4), of now] by (auto simp: bind_act_def)
  next
    case False
    then have ne: "take ?b ?q \<noteq> []" using b by simp
    obtain d w1 where 1: "pickup_handle md now a (delivery_request l) w = (Inr (HReply d), w1)"
      "m_attachments d = Some (map (delivered (md_ext md)) (take ?b ?q))" "queue_of (w_store w1) a = ?q"
      "same_account a (w_store w) (w_store w1)"
      using delivery_at [OF assms(1) Suc.prems(1,2) wallet_messages(1,2,3) assms(4) refl ne] by blast
    have w1: "waiting md now a w1 = ?q" using 1(3) by (simp add: waiting_def)
    have s1: "\<not> poisoned (w_store w1)" "a \<in> mediations (w_store w1)" using 1(4) Suc.prems(2) by (simp_all add: same_account_def)
    obtain r w2 where 2: "pickup_handle md now a (messages_received (map q_id (take ?b ?q))) w1 = (Inr (HReply r), w2)"
      "waiting md now a w2 = filter (\<lambda>q. q_id q \<notin> set (map q_id (take ?b ?q))) (waiting md now a w1)"
      "same_account a (w_store w1) (w_store w2)"
      using received_at [OF assms(1) s1 wallet_messages(4,5)] by blast
    have w2: "waiting md now a w2 = drop ?b ?q"
      using filter_taken [OF Suc.prems(3), of ?b] by (simp only: 2(2) w1)
    obtain w' where "pickups md now a l n w2 = (Inr (map (delivered (md_ext md)) (drop ?b ?q)), w')" "waiting md now a w' = []"
    proof -
      have "length (drop ?b ?q) \<le> n * ?b" using Suc.prems(4) by simp
      moreover have "distinct (map q_id (drop ?b ?q))" using Suc.prems(3) by (simp add: distinct_drop flip: drop_map)
      ultimately show ?thesis using that Suc.IH [of w2] 2(3) s1(2) by (auto simp: w2 same_account_def simp del: length_drop)
    qed
    then show ?thesis by (simp add: bind_act_def 1(1,2) delivered_ids 2(1) flip: map_append)
  qed
qed

text \<open>C29: A forward to a recipient that a wallet registered, with readable attachments, succeeds exactly if all
  of them fit into what the queue's limits leave. Then they are queued in their order behind what
  was waiting, each for that recipient and with the time of receipt; otherwise the sender is told that
  the queue is full, and the first attachments may be queued. In both cases nothing else changes
  in the store but its message counter: no other queue, no registration.\<close>

theorem forward_queues_payloads:
  fixes w :: "('n, inner) world"
  assumes md: "md_store md = memory_store" and now: "unat now * 1000 < 2 ^ 64" and np: "\<not> poisoned (w_store w)"
    and nx: "jget_str ''next'' (m_body m) = Some nxt" and own: "owners (w_store w) (did_of nxt) = Some a"
    and ps: "forward_payloads (md_ext md) m = Inr ps" "ps \<noteq> []"
    and lims: "within_limits (lm_queue (md_limits md)) (waiting md now a w)"
    and big: "\<forall>p\<in>set ps. unat (ql_max_bytes (lm_queue (md_limits md))) + length p < 2 ^ 64"
  shows "\<exists>w' new n. forward md now m w
      = (if fits (lm_queue (md_limits md)) (waiting md now a w) ps then Inr () else Inl QueueFull, w')
    \<and> w_store w' = (w_store w)\<lparr>seq := n, queues := (queues (w_store w))(a \<mapsto> waiting md now a w @ new)\<rparr>
    \<and> (\<exists>k. map q_message new = take k ps)
    \<and> (fits (lm_queue (md_limits md)) (waiting md now a w) ps \<longrightarrow> map q_message new = ps)
    \<and> (\<forall>q\<in>set new. q_recipient q = did_of nxt \<and> q_received q = now)"
proof -
  obtain x as where at: "m_attachments m = Some (x # as)" "mapM_res (payload_of (md_ext md)) (x # as) = Inr ps"
    using ps by (cases "m_attachments m"; cases "the (m_attachments m)") (auto simp: forward_payloads_def)
  obtain w1 new n where 1: "for_act ps (queue_message md now a (did_of nxt)) w
      = (if fits (lm_queue (md_limits md)) (waiting md now a w) ps then Inr () else Inl QueueFull, w1)"
    "w_store w1 = (w_store w)\<lparr>seq := n, queues := (queues (w_store w))(a \<mapsto> waiting md now a w @ new)\<rparr>"
    "\<exists>k. map q_message new = take k ps" "fits (lm_queue (md_limits md)) (waiting md now a w) ps \<longrightarrow> map q_message new = ps"
    "\<forall>q\<in>set new. q_recipient q = did_of nxt \<and> q_received q = now"
    using queue_messages_run [OF md now big np lims ps(2), of "did_of nxt"] by blast
  have run: "forward md now m w = bind_act (for_act ps (queue_message md now a (did_of nxt))) (\<lambda>_.
      bind_act (count (count_forward FwQueued (of_nat (length (x # as))))) (\<lambda>_. md_wake md a)) w"
    using nx own np md at
    by (simp add: forward_def bind_act_def memory_store_def on_store_def mem_mediation_of_def locked_def map_err_act_def Let_def
      del: mapM_res.simps)
  show ?thesis
  proof (cases "fits (lm_queue (md_limits md)) (waiting md now a w) ps")
    case True
    have "\<exists>w3. (md_wake md a :: (('n, inner) world, receive_error, unit) act) w2 = (Inr (), w3)" for w2 :: "('n, inner) world"
      by (simp add: md_wake_def spawn_def split: option.split)
    then obtain w2 where 2: "(md_wake md a :: (('n, inner) world, receive_error, unit) act) (w1\<lparr>w_metrics := count_forward FwQueued (of_nat (length (x # as))) (w_metrics w1)\<rparr>) = (Inr (), w2)"
      by blast
    then have "forward md now m w = (Inr (), w2)" "w_store w2 = w_store w1"
      using run 1(1) True md_wake_store [OF 2] by (simp_all add: bind_act_def count_def)
    then show ?thesis using 1(2-) True
      by (intro exI [of _ w2] exI [of _ new] exI [of _ n]) (simp only: if_True simp_thms)
  next
    case False
    then have "forward md now m w = (Inl QueueFull, w1)" using run 1(1) by (simp add: bind_act_def)
    then show ?thesis using 1(2-) False
      by (intro exI [of _ w1] exI [of _ new] exI [of _ n]) (simp only: if_False simp_thms)
  qed
qed

text \<open>C30: What is forwarded arrives. After a forward to a registered recipient, a wallet that asks for
  deliveries and acknowledges them gets everything that waited before, then the forwarded
  messages in their order, each once, and after enough rounds nothing is left: none is lost,
  repeated or reordered, however small the batches are.\<close>

theorem forwarded_messages_arrive:
  fixes w :: "('n, inner) world"
  assumes "md_store md = memory_store" "unat now * 1000 < 2 ^ 64"
    and "forward md now m w = (Inr (), w1)" "jget_str ''next'' (m_body m) = Some nxt"
    and "owners (w_store w) (did_of nxt) = Some a"
    and "\<not> poisoned (w_store w1)" "a \<in> mediations (w_store w1)" "ids_inv (w_store w1)" "l \<noteq> 0"
    and "length (waiting md now a w1) \<le> n * unat (min l MAX_BATCH)"
  shows "\<exists>new w2. pickups md now a l n w1
      = (Inr (map (delivered (md_ext md)) (waiting md now a w) @ map (delivered (md_ext md)) new), w2)
    \<and> forward_payloads (md_ext md) m = Inr (map q_message new) \<and> waiting md now a w2 = []"
proof -
  obtain new where new: "waiting md now a w1 = waiting md now a w @ new" "forward_payloads (md_ext md) m = Inr (map q_message new)"
    using forward_queues [OF assms(1-5)] by blast
  have "distinct (map q_id (waiting md now a w1))"
    using assms(8) by (simp add: waiting_def ids_inv_def distinct_map_live)
  from pickups_drain [OF assms(1,6,7,9) this assms(10)] show ?thesis using new by auto
qed

text \<open>A forward to the recipient \<open>did:r\<close> of the wallet \<open>did:a\<close>.\<close>

definition sample_jwe :: jwe where
  "sample_jwe = \<lparr>jwe_protected = ''p'', jwe_recipients = [], jwe_iv = ''i'', jwe_ciphertext = ''c'', jwe_tag = ''t''\<rparr>"

definition sample_forward :: message where
  "sample_forward = add_attachment (attachment_json (se_jwe sample_jwe))
     (message_new ''f'' 7 FORWARD (JObj [(''next'', JStr ''did:r'')]))"

definition account_world :: "(unit, inner) world" where
  "account_world = sample_world\<lparr>w_store := mem_new\<lparr>mediations := {''did:a''}, owners := [''did:r'' \<mapsto> ''did:a''],
     in_recipients := [''did:a'' \<mapsto> [''did:r'']], seen := [(''did:a'', 7)]\<rparr>\<rparr>"

lemma sample_forward_ok:
  "jget_str ''next'' (m_body sample_forward) = Some ''did:r''" "did_of ''did:r'' = ''did:r''"
  "owners (w_store account_world) ''did:r'' = Some ''did:a''" "waiting sample_mediator 7 ''did:a'' account_world = []"
  "forward_payloads sample_ext sample_forward = Inr [jwe_to_json sample_ext sample_jwe]"
proof -
  have "jwe_parse sample_ext (json_print sample_ext (se_jwe sample_jwe)) = Inr sample_jwe"
    using jwe_parse_to_json [OF sample_text_laws] by (simp add: jwe_to_json_def)
  then show "forward_payloads sample_ext sample_forward = Inr [jwe_to_json sample_ext sample_jwe]"
    by (simp add: forward_payloads_def sample_forward_def add_attachment_def message_new_def payload_of_def attachment_json_def
      with_data_def empty_data_def jwe_to_json_def)
  show "did_of ''did:r'' = ''did:r''" by (simp add: did_of_plain)
qed (simp_all add: sample_forward_def add_attachment_def message_new_def jget_str_def account_world_def waiting_def mem_new_def
  queue_of_def live_part_def)

lemma sample_forwarded:
  "\<exists>i w1. i = show_u64 7000 @ ''-'' @ show_u64 1 \<and> forward sample_mediator 7 sample_forward account_world = (Inr (), w1)
    \<and> w_store w1 = (w_store account_world)\<lparr>seq := 1, queues := [''did:a'' \<mapsto>
        [\<lparr>q_id = i, q_recipient = ''did:r'', q_received = 7, q_message = jwe_to_json sample_ext sample_jwe\<rparr>]]\<rparr>"
proof -
  have ps: "mapM_res (payload_of sample_ext) [attachment_json (se_jwe sample_jwe)] = Inr [jwe_to_json sample_ext sample_jwe]"
    using sample_forward_ok(5) by (simp add: forward_payloads_def sample_forward_def add_attachment_def message_new_def)
  let ?t = "jwe_to_json sample_ext sample_jwe" and ?i = "show_u64 7000 @ ''-'' @ show_u64 1" and ?s = "w_store account_world"
  have "length ?t < 1000"
    by (simp add: jwe_to_json_def sample_ext_def se_jwe_def sample_jwe_def length_enc_str)
  then have len: "\<not> (100000 :: u64) < of_nat (length ?t)"
    by (simp add: word_less_nat_alt unat_of_nat)
  have q: "queue_of ?s ''did:a'' = []" "\<not> poisoned ?s" "seq ?s = 0"
    by (simp_all add: account_world_def queue_of_def mem_new_def)
  have e: "mem_enqueue ''did:a'' ''did:r'' ?t 7 (lm_queue sample_limits) ?s = (Inr (Some ?i),
      ?s\<lparr>seq := 1, queues := [''did:a'' \<mapsto> [\<lparr>q_id = ?i, q_recipient = ''did:r'', q_received = 7, q_message = ?t\<rparr>]]\<rparr>)"
    using len by (simp add: mem_enqueue_cases q sample_limits_def live_part_def message_bytes_def)
      (simp add: account_world_def mem_new_def)
  show ?thesis
    using sample_forward_ok(1,2,3) q(2) ps e
    by (simp add: forward_def bind_act_def sample_forward_def add_attachment_def message_new_def memory_store_def on_store_def
      mem_mediation_of_def locked_def map_err_act_def queue_message_def hub_notify_def count_def md_wake_def jget_str_def Let_def)
qed

lemma sample_forward_fits:
  "within_limits (lm_queue (md_limits sample_mediator)) []"
  "fits (lm_queue (md_limits sample_mediator)) [] [jwe_to_json sample_ext sample_jwe]"
  "unat (ql_max_bytes (lm_queue (md_limits sample_mediator))) + length (jwe_to_json sample_ext sample_jwe) < 2 ^ 64"
proof -
  have "length (jwe_to_json sample_ext sample_jwe) < 1000"
    by (simp add: jwe_to_json_def sample_ext_def se_jwe_def sample_jwe_def length_enc_str)
  then show "within_limits (lm_queue (md_limits sample_mediator)) []"
    "fits (lm_queue (md_limits sample_mediator)) [] [jwe_to_json sample_ext sample_jwe]"
    "unat (ql_max_bytes (lm_queue (md_limits sample_mediator))) + length (jwe_to_json sample_ext sample_jwe) < 2 ^ 64"
    by (simp_all add: within_limits_def fits_def queue_bytes_def sample_limits_def)
qed

theorem forward_queues_payloads_witness:
  "\<exists>w1 q n. forward sample_mediator 7 sample_forward account_world = (Inr (), w1) \<and> q_recipient q = ''did:r''
    \<and> q_message q = jwe_to_json sample_ext sample_jwe
    \<and> w_store w1 = (w_store account_world)\<lparr>seq := n, queues := (queues (w_store account_world))(''did:a'' \<mapsto> [q])\<rparr>"
proof -
  let ?ps = "[jwe_to_json sample_ext sample_jwe]" and ?lims = "lm_queue (md_limits sample_mediator)"
  have md: "md_store sample_mediator = memory_store" "unat (7 :: u64) * 1000 < 2 ^ 64" "\<not> poisoned (w_store account_world)"
    by (simp_all add: account_world_def mem_new_def)
  have own: "owners (w_store account_world) (did_of ''did:r'') = Some ''did:a''" by (simp only: sample_forward_ok)
  have ps: "forward_payloads (md_ext sample_mediator) sample_forward = Inr ?ps" "?ps \<noteq> []" using sample_forward_ok(5) by simp_all
  have lims: "within_limits ?lims (waiting sample_mediator 7 ''did:a'' account_world)"
    and fits: "fits ?lims (waiting sample_mediator 7 ''did:a'' account_world) ?ps"
    by (simp_all only: sample_forward_ok(4) sample_forward_fits)
  have big: "\<forall>p\<in>set ?ps. unat (ql_max_bytes ?lims) + length p < 2 ^ 64" using sample_forward_fits(3) by simp
  obtain w1 new n where 1: "forward sample_mediator 7 sample_forward account_world = (Inr (), w1)"
    "w_store w1 = (w_store account_world)\<lparr>seq := n, queues := (queues (w_store account_world))(''did:a'' \<mapsto> [] @ new)\<rparr>"
    "map q_message new = ?ps" "\<forall>q\<in>set new. q_recipient q = did_of ''did:r''"
    using forward_queues_payloads [OF md sample_forward_ok(1) own ps lims big] fits unfolding sample_forward_ok(4) if_P [OF fits [unfolded sample_forward_ok(4)]]
    by (elim exE conjE) (rule that, assumption, assumption, erule (1) mp, simp)
  obtain q where "new = [q]" using 1(3) by (cases new) auto
  then show ?thesis using 1 sample_forward_ok(2) by (intro exI [of _ w1] exI [of _ q] exI [of _ n]) simp
qed

theorem forwarded_messages_arrive_witness:
  "\<exists>w1 q w2. forward sample_mediator 7 sample_forward account_world = (Inr (), w1)
    \<and> pickups sample_mediator 7 ''did:a'' 1 1 w1 = (Inr [delivered sample_ext q], w2)
    \<and> q_message q = jwe_to_json sample_ext sample_jwe \<and> waiting sample_mediator 7 ''did:a'' w2 = []"
proof -
  obtain i w1 where f: "forward sample_mediator 7 sample_forward account_world = (Inr (), w1)"
    and s: "w_store w1 = (w_store account_world)\<lparr>seq := 1, queues := [''did:a'' \<mapsto>
        [\<lparr>q_id = i, q_recipient = ''did:r'', q_received = 7, q_message = jwe_to_json sample_ext sample_jwe\<rparr>]]\<rparr>"
    and i: "i = show_u64 7000 @ ''-'' @ show_u64 1"
    using sample_forwarded by blast
  have "ids_inv (w_store w1)" using i by (auto simp: s ids_inv_def account_world_def mem_new_def queue_of_def)
  moreover have "length (waiting sample_mediator 7 ''did:a'' w1) \<le> 1" by (simp add: waiting_def s queue_of_def live_part_def)
  ultimately show ?thesis
    using forwarded_messages_arrive [OF _ _ f sample_forward_ok(1), of "''did:a''" 1 1] sample_forward_ok f
    by (simp add: s) (auto simp: account_world_def mem_new_def MAX_BATCH_def)
qed

end
