(* ===== verification/Cleanup.thy ===== *)
theory Cleanup
  imports Delivery
begin

text \<open>
  Removing idle mediations (\<open>remove_idle\<close> of \<open>dispatch/mod.rs\<close>) over the memory store: the loop
  over batches ends, and it removes exactly the idle mediations with everything they own.
\<close>

definition idle_of :: "u64 \<Rightarrow> inner \<Rightarrow> string list" where
  "idle_of cutoff s = map fst (filter (\<lambda>e. snd e \<le> cutoff) (seen s))"

lemma seen_fold_forget: "seen (fold forget_mediation ms s) = filter (\<lambda>e. fst e \<notin> set ms) (seen s)"
proof (induction ms arbitrary: s)
  case Nil
  then show ?case by simp
next
  case (Cons m ms)
  have "seen (forget_mediation m s) = filter (\<lambda>e. fst e \<noteq> m) (seen s)"
    by (auto simp: forget_mediation_def Let_def AList.delete_eq split_beta intro!: filter_cong)
  then show ?case by (simp add: Cons conj_commute cong: conj_cong)
qed

lemma idle_after_batch:
  assumes "distinct (map fst (seen s))"
  shows "idle_of cutoff (fold forget_mediation (take n (idle_of cutoff s)) s) = drop n (idle_of cutoff s)"
proof -
  have d: "distinct (map fst (filter (\<lambda>e. snd e \<le> cutoff) (seen s)))" using assms by (simp add: distinct_map_filter)
  have "filter (\<lambda>e. snd e \<le> cutoff) (filter (\<lambda>e. fst e \<notin> set (take n (idle_of cutoff s))) (seen s))
      = filter (\<lambda>e. fst e \<notin> set (take n (map fst (filter (\<lambda>e. snd e \<le> cutoff) (seen s))))) (filter (\<lambda>e. snd e \<le> cutoff) (seen s))"
    by (simp add: idle_of_def conj_commute cong: conj_cong)
  also have "\<dots> = drop n (filter (\<lambda>e. snd e \<le> cutoff) (seen s))"
    using filter_taken [OF d, of n] by (simp add: take_map)
  finally show ?thesis by (simp add: idle_of_def seen_fold_forget drop_map)
qed

lemma poisoned_fold_forget [simp]: "poisoned (fold forget_mediation ms s) = poisoned s"
  by (induction ms arbitrary: s) (simp_all add: forget_mediation_def Let_def)

lemma remove_idle_loop_ends:
  assumes "\<not> poisoned s" "distinct (map fst (seen s))"
  shows "remove_idle_loop memory_store cutoff n s
    = Some (Inr (n + length (idle_of cutoff s)), fold forget_mediation (idle_of cutoff s) s)"
  using assms
proof (induction "length (idle_of cutoff s)" arbitrary: n s rule: less_induct)
  case less
  let ?idle = "idle_of cutoff s" and ?s = "fold forget_mediation (take CLEANUP_BATCH (idle_of cutoff s)) s"
  have step: "mem_remove_idle_mediations cutoff CLEANUP_BATCH s = (Inr (take CLEANUP_BATCH ?idle), ?s)"
    using less.prems by (simp add: mem_remove_idle_mediations_def locked_def idle_of_def Let_def)
  have unfold: "remove_idle_loop memory_store cutoff n s =
      (if length (take CLEANUP_BATCH ?idle) < CLEANUP_BATCH then Some (Inr (n + length (take CLEANUP_BATCH ?idle)), ?s)
       else remove_idle_loop memory_store cutoff (n + length (take CLEANUP_BATCH ?idle)) ?s)"
    by (subst remove_idle_loop.simps) (simp add: memory_store_def step del: length_take)
  show ?case
  proof (cases "length ?idle < CLEANUP_BATCH")
    case True
    then show ?thesis by (simp add: unfold)
  next
    case False
    have "idle_of cutoff ?s = drop CLEANUP_BATCH ?idle" by (rule idle_after_batch [OF less.prems(2)])
    moreover have "distinct (map fst (seen ?s))" using less.prems(2) by (simp add: seen_fold_forget distinct_map_filter)
    moreover have "length (drop CLEANUP_BATCH ?idle) < length ?idle" using False by (simp add: CLEANUP_BATCH_def)
    ultimately have "remove_idle_loop memory_store cutoff (n + CLEANUP_BATCH) ?s
        = Some (Inr (n + CLEANUP_BATCH + (length ?idle - CLEANUP_BATCH)), fold forget_mediation (drop CLEANUP_BATCH ?idle) ?s)"
      using less.hyps [of ?s "n + CLEANUP_BATCH"] less.prems(1) by simp
    moreover have "fold forget_mediation (drop CLEANUP_BATCH ?idle) ?s = fold forget_mediation ?idle s"
      by (metis append_take_drop_id comp_apply fold_append)
    ultimately show ?thesis using False by (simp add: unfold)
  qed
qed

lemma option_bind_eqI:
  assumes "\<And>m. x = Some m \<longleftrightarrow> P m \<and> y = Some m"
  shows "x = Option.bind y (\<lambda>m. if \<not> P m then None else Some m)"
  using assms [of "the x"] assms [of "the y"] by (cases x; cases y) auto

text \<open>What forgetting a list of mediations leaves.\<close>

lemma forget_simps:
  "mediations (forget_mediation m s) = mediations s - {m}"
  "recips_of (forget_mediation m s) m' = (if m' = m then [] else recips_of s m')"
  "devices_of (forget_mediation m s) m' = (if m' = m then [] else devices_of s m')"
  by (simp_all add: forget_mediation_def recips_of_def devices_of_def Let_def)

lemma mediations_fold_forget: "mediations (fold forget_mediation ms s) = mediations s - set ms"
  by (induction ms arbitrary: s) (simp_all add: forget_simps(1) Diff_insert2 [symmetric])

lemma fold_forget:
  "queue_of (fold forget_mediation ms s) m = (if m \<in> set ms then [] else queue_of s m)"
  "recips_of (fold forget_mediation ms s) m = (if m \<in> set ms then [] else recips_of s m)"
  "devices_of (fold forget_mediation ms s) m = (if m \<in> set ms then [] else devices_of s m)"
  by (induction ms arbitrary: s) (simp_all add: forget_simps queue_of_forget)

lemma set_idle: "distinct (map fst (seen s)) \<Longrightarrow> m \<in> set (idle_of cutoff s) \<longleftrightarrow> (\<exists>t\<le>cutoff. map_of (seen s) m = Some t)"
  by (force simp: idle_of_def)

text \<open>C31: The clean-up ends, however many mediations are idle, and it is exact: it removes and counts
  the mediations whose wallet was last seen at or before the cutoff, with their recipients, queue
  and devices; every other mediation keeps all of its own.\<close>

theorem remove_idle_exact:
  fixes w :: "('n, inner) world" and now ttl :: u64
  assumes "md_store md = memory_store" "mem_inv (w_store w)" "\<not> poisoned (w_store w)"
  defines "idle \<equiv> {m. \<exists>t\<le>(saturating_sub now ttl). map_of (seen (w_store w)) m = Some t}"
  shows "\<exists>w'. remove_idle md ttl now w = Some (Inr (card idle), w') \<and> mem_inv (w_store w')
    \<and> mediations (w_store w') = mediations (w_store w) - idle
    \<and> (\<forall>r. owners (w_store w') r = (case owners (w_store w) r of
          Some m \<Rightarrow> if m \<in> idle then None else Some m | None \<Rightarrow> None))
    \<and> (\<forall>m. queue_of (w_store w') m = (if m \<in> idle then [] else queue_of (w_store w) m)
      \<and> devices_of (w_store w') m = (if m \<in> idle then [] else devices_of (w_store w) m))"
proof -
  let ?c = "saturating_sub now ttl" and ?s = "w_store w"
  let ?i = "idle_of ?c ?s"
  let ?s' = "fold forget_mediation ?i ?s"
  have d: "distinct (map fst (seen ?s))" using assms(2) by (simp add: inv_defs)
  have i: "set ?i = idle" using set_idle [OF d] by (auto simp: idle_def)
  have "distinct ?i" using d by (simp add: idle_of_def distinct_map_filter)
  then have n: "length ?i = card idle" by (metis i distinct_card)
  have inv: "mem_inv ?s'" by (rule fold_forget_inv [OF assms(2)])
  have o: "owners ?s' r = (case owners ?s r of Some m \<Rightarrow> if m \<in> idle then None else Some m | None \<Rightarrow> None)" for r
  proof -
    have "owners ?s' r = Some m \<longleftrightarrow> m \<notin> idle \<and> owners ?s r = Some m" for m
      using own_inv_owner [OF mem_invD(1) [OF inv], of r m] own_inv_owner [OF mem_invD(1) [OF assms(2)], of r m]
      by (simp add: fold_forget i)
    then have "owners ?s' r = Option.bind (owners ?s r) (\<lambda>m. if \<not> m \<notin> idle then None else Some m)"
      by (rule option_bind_eqI)
    then show ?thesis by (cases "owners ?s r") simp_all
  qed
  obtain w' where w': "remove_idle md ttl now w = Some (Inr (card idle), w')" "w_store w' = ?s'"
    using remove_idle_loop_ends [OF assms(3) d, of ?c 0] assms(1) by (simp add: remove_idle_def n)
  show ?thesis
    by (intro exI [of _ w'] conjI allI w'(1)) (simp_all add: w'(2) inv mediations_fold_forget fold_forget i o)
qed

theorem remove_idle_exact_witness:
  "\<exists>w'. remove_idle sample_mediator 5 20 (sample_world\<lparr>w_store := mem_new\<lparr>mediations := {''did:a'', ''did:b''},
      seen := [(''did:a'', 10), (''did:b'', 16)]\<rparr>\<rparr>) = Some (Inr 1, w') \<and> mediations (w_store w') = {''did:b''}"
  (is "\<exists>w'. remove_idle _ _ _ ?w = _ \<and> _")
proof -
  have idle: "{m. \<exists>t\<le>(saturating_sub 20 5). map_of (seen (w_store ?w)) m = Some t} = {''did:a''}"
    by (auto simp: saturating_sub_def split: if_splits)
  have m: "md_store sample_mediator = memory_store" "\<not> poisoned (w_store ?w)"
    by (simp_all add: mem_new_def)
  have inv: "mem_inv (w_store ?w)"
    by (simp add: inv_defs mem_new_def recips_of_def devices_of_def insert_commute)
  obtain w' where "remove_idle sample_mediator 5 20 ?w = Some (Inr (card {''did:a''}), w')"
    "mediations (w_store w') = mediations (w_store ?w) - {''did:a''}"
    using remove_idle_exact [where now = 20 and ttl = 5, OF m(1) inv m(2), unfolded idle] by blast
  then show ?thesis by (intro exI [of _ w']) simp
qed

end
