(* ===== verification/Retries.thy ===== *)
theory Retries
  imports Cleanup
begin

text \<open>
  The retries of undelivered relays (\<open>dispatch/relay.rs\<close>) over the memory store: every attempt is
  paid for from a budget of four per stored relay, so no relay is retried for ever.
\<close>

section \<open>Sums over a sorted map\<close>

definition weigh :: "('v \<Rightarrow> nat) \<Rightarrow> ('k \<times> 'v) list \<Rightarrow> nat" where
  "weigh f m = sum_list (map (\<lambda>e. f (snd e)) m)"

lemma weigh_remove:
  "distinct (map fst m) \<Longrightarrow> map_of m k = Some v \<Longrightarrow> weigh f (bt_remove k m) + f v = weigh f m"
proof (induction m)
  case (Cons e m)
  have "k \<notin> fst ` set m \<Longrightarrow> bt_remove k m = m"
    by (auto simp: bt_remove_def filter_id_conv)
  with Cons show ?case by (cases "fst e = k") (auto simp: weigh_def bt_remove_def)
qed simp

lemma weigh_insert:
  fixes m :: "('k::linorder \<times> 'v) list"
  assumes "bt_wf m"
  shows "weigh f (bt_insert k v m) + (case map_of m k of None \<Rightarrow> 0 | Some o' \<Rightarrow> f o') = weigh f m + f v"
  using assms
proof (induction k v m rule: bt_insert.induct)
  case (2 k v k' v' m)
  have "\<forall>x\<in>fst ` set m. k' \<le> x \<and> k' \<noteq> x" using 2(2) by (auto simp: bt_wf_def)
  then have "k \<notin> fst ` set m" if "k \<le> k'" using that by (metis order.antisym)
  then have "map_of m k = None" if "k \<le> k'" using that by (simp add: map_of_eq_None_iff)
  moreover have "bt_wf m" using 2(2) by (simp add: bt_wf_def)
  ultimately show ?case using 2(1) by (auto simp: weigh_def)
qed (simp add: weigh_def)

lemma weigh_map [simp]: "(\<And>k v. f (g k v) = f v) \<Longrightarrow> weigh f (map (\<lambda>(k, v). (k, g k v)) m) = weigh f m"
  by (induction m) (auto simp: weigh_def)

section \<open>The budget\<close>

definition retries_left :: "u64 \<times> pending_relay \<Rightarrow> nat" where
  "retries_left e = length BACKOFF - unat (pr_retries (snd e))"

definition budget :: "inner \<Rightarrow> nat" where
  "budget s = weigh retries_left (relays s)"

definition retries_ok :: "inner \<Rightarrow> bool" where
  "retries_ok s \<longleftrightarrow> (\<forall>e\<in>set (relays s). unat (pr_retries (snd (snd e))) < length BACKOFF)"

text \<open>The relays a round still has to try are stored as they were handed out.\<close>

definition stored :: "inner \<Rightarrow> pending_relay list \<Rightarrow> bool" where
  "stored s rs \<longleftrightarrow> distinct (map pr_id rs) \<and> (\<forall>r\<in>set rs. \<exists>t. map_of (relays s) (pr_id r) = Some (t, r))"

lemma length_BACKOFF [simp]: "length BACKOFF = 4"
  by (simp add: BACKOFF_def)

lemma stored_after:
  assumes "stored s (r # rs)" "\<And>k. k \<noteq> pr_id r \<Longrightarrow> map_of (relays s') k = map_of (relays s) k"
  shows "stored s' rs"
  unfolding stored_def
proof (intro conjI ballI)
  fix q
  assume q: "q \<in> set rs"
  moreover have "distinct (map pr_id (r # rs))" using assms(1) by (simp only: stored_def)
  ultimately have "pr_id q \<noteq> pr_id r" by simp (metis imageI)
  then have "map_of (relays s') (pr_id q) = map_of (relays s) (pr_id q)" by (rule assms(2))
  moreover have "\<exists>t. map_of (relays s) (pr_id q) = Some (t, q)" using assms(1) q unfolding stored_def by (meson list.set_intros(2))
  ultimately show "\<exists>t. map_of (relays s') (pr_id q) = Some (t, q)" by simp
qed (use assms(1) in \<open>simp add: stored_def\<close>)

lemma finish_budget:
  assumes "mem_inv s" "\<not> poisoned s" "retries_ok s" "map_of (relays s) (pr_id r) = Some (t, r)"
  shows "\<exists>s'. mem_finish_relay (pr_id r) s = (Inr (), s') \<and> mem_inv s' \<and> \<not> poisoned s' \<and> retries_ok s'
    \<and> budget s' < budget s \<and> (\<forall>k. k \<noteq> pr_id r \<longrightarrow> map_of (relays s') k = map_of (relays s) k)"
proof -
  let ?s = "s\<lparr>relays := bt_remove (pr_id r) (relays s)\<rparr>"
  have f: "mem_finish_relay (pr_id r) s = (Inr (), ?s)" using assms(2) by (simp add: mem_finish_relay_def)
  have "unat (pr_retries r) < 4" using assms(3,4) map_of_SomeD by (fastforce simp: retries_ok_def)
  then have "budget ?s < budget s"
    using weigh_remove [of "relays s" "pr_id r" "(t, r)" retries_left] mem_invD(2) [OF assms(1)] assms(4)
    by (simp add: budget_def bt_wf_def retries_left_def)
  moreover have "retries_ok ?s" using assms(3) by (simp add: retries_ok_def bt_remove_def)
  moreover have "mem_inv ?s" using mem_inv_finish [OF assms(1), of "pr_id r"] f by simp
  ultimately show ?thesis using f assms(2) by auto
qed

lemma reschedule_budget:
  assumes "mem_inv s" "\<not> poisoned s" "retries_ok s" "map_of (relays s) (pr_id r) = Some (t, r)"
    and "unat (pr_retries r) + 1 < 4"
  shows "\<exists>s'. mem_schedule_relay (r\<lparr>pr_retries := pr_retries r + 1\<rparr>) due mx s = (Inr True, s') \<and> mem_inv s'
    \<and> \<not> poisoned s' \<and> retries_ok s' \<and> budget s' < budget s
    \<and> (\<forall>k. k \<noteq> pr_id r \<longrightarrow> map_of (relays s') k = map_of (relays s) k)"
proof -
  let ?r = "r\<lparr>pr_retries := pr_retries r + 1\<rparr>"
  let ?s = "s\<lparr>relays := bt_insert (pr_id r) (due, ?r) (relays s)\<rparr>"
  have f: "mem_schedule_relay ?r due mx s = (Inr True, ?s)"
    using assms(2,4) by (simp add: mem_schedule_relay_def)
  have u: "unat (pr_retries r + 1) = unat (pr_retries r) + 1" using assms(5) by (simp add: unat_word_ariths)
  have "budget ?s + (4 - unat (pr_retries r)) = budget s + (4 - (unat (pr_retries r) + 1))"
    using weigh_insert [OF mem_invD(2) [OF assms(1)], of retries_left "pr_id r" "(due, ?r)"] assms(4)
    by (simp add: budget_def retries_left_def u)
  then have "budget ?s < budget s" using assms(5) by linarith
  moreover have "retries_ok ?s" using assms(3,5) u by (auto simp: retries_ok_def dest: set_bt_insert)
  moreover have "mem_inv ?s" using mem_inv_schedule [OF assms(1), of ?r due mx] f by simp
  ultimately show ?thesis using f assms(2) by auto
qed

section \<open>A round of retries\<close>

definition relays_fine :: "inner \<Rightarrow> bool" where
  "relays_fine s \<longleftrightarrow> mem_inv s \<and> \<not> poisoned s \<and> retries_ok s"

lemma on_net_store: "on_net f w = (r, w') \<Longrightarrow> w_store w' = w_store w"
  by (auto simp: on_net_def split: prod.splits)

lemma bind_act_ok1:
  fixes m :: "('s, 'e, 'a) act"
  shows "(catch_act m :: ('s, 'd, 'e + 'a) act) w = (Inr a, w') \<Longrightarrow> bind_act (catch_act m :: ('s, 'd, 'e + 'a) act) f w = f a w'"
  by (rule bind_act_ok)

lemma retry_one_budget:
  fixes w :: "('n, inner) world"
  assumes m: "md_store md = memory_store" and s: "relays_fine (w_store w)"
    and r: "map_of (relays (w_store w)) (pr_id r) = Some (t, r)"
  shows "\<exists>w'. retry_one md tp now r w = (Inr (), w') \<and> relays_fine (w_store w') \<and> budget (w_store w') < budget (w_store w)
    \<and> (\<forall>k. k \<noteq> pr_id r \<longrightarrow> map_of (relays (w_store w')) k = map_of (relays (w_store w)) k)"
proof -
  obtain res w1 where net: "catch_act (on_net (tp_post_didcomm tp (pr_uri r) (pr_message r))) w
      = ((Inr res :: string + (string + unit)), w1)" "w_store w1 = w_store w"
    by (cases "on_net (tp_post_didcomm tp (pr_uri r) (pr_message r)) w" rule: prod.exhaust)
      (auto simp: catch_act_def dest: on_net_store)
  have s3: "mem_inv (w_store w)" "\<not> poisoned (w_store w)" "retries_ok (w_store w)" using s by (simp_all add: relays_fine_def)
  obtain sf where f: "mem_finish_relay (pr_id r) (w_store w) = (Inr (), sf)" "relays_fine sf" "budget sf < budget (w_store w)"
    "\<forall>k. k \<noteq> pr_id r \<longrightarrow> map_of (relays sf) k = map_of (relays (w_store w)) k"
    using finish_budget [OF s3 r] unfolding relays_fine_def by blast
  have finish: "\<exists>w'. bind_act (count c) (\<lambda>_. on_store (finish_relay (md_store md) (pr_id r))) w1 = (Inr (), w') \<and> w_store w' = sf" for c
    using f(1) m net(2) by (simp add: bind_act_def count_def on_store_def memory_store_def)
  consider "res = Inr ()" | e where "res = Inl e" "unat (pr_retries r) + 1 < 4" | e where "res = Inl e" "\<not> unat (pr_retries r) + 1 < 4"
    by (cases res) auto
  then show ?thesis
  proof cases
    case 2
    obtain s' where s': "mem_schedule_relay (r\<lparr>pr_retries := pr_retries r + 1\<rparr>) (now + BACKOFF ! (unat (pr_retries r) + 1)) MAX_PENDING (w_store w)
        = (Inr True, s')" "relays_fine s'" "budget s' < budget (w_store w)" "\<forall>k. k \<noteq> pr_id r \<longrightarrow> map_of (relays s') k = map_of (relays (w_store w)) k"
      using reschedule_budget [OF s3 r 2(2)] unfolding relays_fine_def by blast
    have "\<exists>w'. retry_one md tp now r w = (Inr (), w') \<and> w_store w' = s'"
      using 2 net s'(1) m
      by (simp add: retry_one_def bind_act_def net(1) count_def on_store_def memory_store_def Let_def)
    then show ?thesis using s' by blast
  next
    case 1
    have "\<exists>w'. retry_one md tp now r w = (Inr (), w') \<and> w_store w' = sf"
      using finish [of "count_relay_retry RtDelivered"] by (simp add: retry_one_def bind_act_ok1 [OF net(1)] 1)
    then show ?thesis using f by blast
  next
    case 3
    have "\<exists>w'. retry_one md tp now r w = (Inr (), w') \<and> w_store w' = sf"
      using finish [of "count_relay_retry RtAbandoned"] 3 by (simp add: retry_one_def bind_act_ok1 [OF net(1)] Let_def)
    then show ?thesis using f by blast
  qed
qed

lemma retry_all_budget:
  fixes w :: "('n, inner) world"
  assumes "md_store md = memory_store" "relays_fine (w_store w)" "stored (w_store w) rs"
  shows "\<exists>w'. for_act rs (retry_one md tp now) w = (Inr (), w') \<and> relays_fine (w_store w')
    \<and> budget (w_store w') + length rs \<le> budget (w_store w)"
  using assms(2,3)
proof (induction rs arbitrary: w)
  case Nil
  then show ?case by simp
next
  case (Cons r rs)
  obtain t where t: "map_of (relays (w_store w)) (pr_id r) = Some (t, r)" using Cons.prems(2) by (auto simp: stored_def)
  obtain w1 where w1: "retry_one md tp now r w = (Inr (), w1)" "relays_fine (w_store w1)" "budget (w_store w1) < budget (w_store w)"
    "\<forall>k. k \<noteq> pr_id r \<longrightarrow> map_of (relays (w_store w1)) k = map_of (relays (w_store w)) k"
    using retry_one_budget [OF assms(1) Cons.prems(1) t] by blast
  have "stored (w_store w1) rs" using stored_after [OF Cons.prems(2)] w1(4) by blast
  with Cons.IH w1(2) obtain w' where "for_act rs (retry_one md tp now) w1 = (Inr (), w')" "relays_fine (w_store w')"
    "budget (w_store w') + length rs \<le> budget (w_store w1)" by blast
  then show ?case using w1 by (intro exI [of _ w']) (simp add: bind_act_def)
qed

lemma due_budget:
  assumes "relays_fine s"
  shows "\<exists>rs s'. mem_due_relays now lease limit s = (Inr rs, s') \<and> relays_fine s' \<and> stored s' rs \<and> budget s' = budget s
    \<and> length rs = min limit (length (filter (\<lambda>e. fst (snd e) \<le> now) (relays s)))"
proof -
  let ?taken = "take limit (sort_key (\<lambda>e. fst (snd e)) (filter (\<lambda>e. fst (snd e) \<le> now) (relays s)))"
  define rel where "rel = map (\<lambda>(k, v). (k, if k \<in> fst ` set ?taken then (now + lease, snd v) else v)) (relays s)"
  let ?rs = "map (\<lambda>e. snd (snd e)) ?taken"
  have s: "mem_inv s" "\<not> poisoned s" "retries_ok s" using assms by (simp_all add: relays_fine_def)
  have e: "mem_due_relays now lease limit s = (Inr ?rs, s\<lparr>relays := rel\<rparr>)"
    using s(2) by (simp add: mem_due_relays_def Let_def rel_def)
  have "budget (s\<lparr>relays := rel\<rparr>) = budget s"
  proof -
    have "weigh retries_left rel = weigh retries_left (relays s)" unfolding rel_def by (rule weigh_map) (simp add: retries_left_def)
    then show ?thesis by (simp add: budget_def)
  qed
  moreover have "retries_ok (s\<lparr>relays := rel\<rparr>)" using s(3) by (fastforce simp: retries_ok_def rel_def)
  moreover have "mem_inv (s\<lparr>relays := rel\<rparr>)" using mem_inv_due [OF s(1), of now lease limit] e by simp
  moreover have "distinct (map pr_id ?rs)"
  proof -
    have "distinct (map fst (relays s))" using s(1) by (simp add: inv_defs bt_wf_def)
    then have "distinct (map fst (filter (\<lambda>e. fst (snd e) \<le> now) (relays s)))" by (simp add: distinct_map_filter)
    then have "distinct (map fst (sort_key (\<lambda>e. fst (snd e)) (filter (\<lambda>e. fst (snd e) \<le> now) (relays s))))"
      by (simp add: distinct_map)
    then have "distinct (map fst ?taken)" by (simp add: distinct_take flip: take_map)
    moreover have "map pr_id ?rs = map fst ?taken"
      using mem_invD(3) [OF s(1)] by (auto dest!: in_set_takeD)
    ultimately show ?thesis by (simp only:)
  qed
  ultimately have fine: "relays_fine (s\<lparr>relays := rel\<rparr>)" "budget (s\<lparr>relays := rel\<rparr>) = budget s"
    and "distinct (map pr_id ?rs)"
    using s(2) by (simp_all only: relays_fine_def) simp
  then have "stored (s\<lparr>relays := rel\<rparr>) ?rs" using due_relays_spec(2) [OF s(1) e] unfolding stored_def by blast
  moreover have "length ?rs = min limit (length (filter (\<lambda>e. fst (snd e) \<le> now) (relays s)))" by simp
  ultimately show ?thesis using e fine by blast
qed

lemma schedule_budget:
  assumes "relays_fine s" "pr_retries r = 0"
  shows "relays_fine (snd (mem_schedule_relay r due mx s)) \<and> budget (snd (mem_schedule_relay r due mx s)) \<le> budget s + 4"
proof -
  have s: "mem_inv s" "\<not> poisoned s" "retries_ok s" using assms(1) by (simp_all add: relays_fine_def)
  let ?s = "snd (mem_schedule_relay r due mx s)"
  have s': "?s = s \<or> ?s = s\<lparr>relays := bt_insert (pr_id r) (due, r) (relays s)\<rparr>"
    using s(2) by (simp add: mem_schedule_relay_def snd_locked)
  have "budget ?s \<le> budget s + 4"
    using s' weigh_insert [OF mem_invD(2) [OF s(1)], of retries_left "pr_id r" "(due, r)"] assms(2)
    by (auto simp: budget_def retries_left_def)
  moreover have "retries_ok ?s" using s' s(3) assms(2) by (auto simp: retries_ok_def) (fastforce dest!: set_bt_insert)
  ultimately show ?thesis using s(2) s' mem_inv_schedule [OF s(1)] by (auto simp: relays_fine_def)
qed

text \<open>A first delivery adds at most one relay, with a full budget.\<close>

lemma deliver_budget:
  fixes w :: "('n, inner) world"
  assumes m: "md_store md = memory_store" and s: "relays_fine (w_store w)"
  shows "relays_fine (w_store (snd ((deliver md tp now uri text :: (('n, inner) world, 'e, unit) act) w)))
    \<and> budget (w_store (snd ((deliver md tp now uri text :: (('n, inner) world, 'e, unit) act) w))) \<le> budget (w_store w) + 4"
proof -
  let ?r = "\<lparr>pr_id = relay_id (md_ext md) uri text, pr_uri = uri, pr_message = text, pr_retries = 0\<rparr>"
  have "w_store (snd ((deliver md tp now uri text :: (('n, inner) world, 'e, unit) act) w)) \<in> {w_store w,
      snd (mem_schedule_relay ?r (now + BACKOFF ! 0) MAX_PENDING (w_store w))}"
    using m by (auto simp: deliver_def bind_act_def catch_act_def count_def on_store_def memory_store_def on_net_def
      split: prod.splits sum.splits bool.splits)
  then show ?thesis using s schedule_budget [OF s, of ?r "now + BACKOFF ! 0" MAX_PENDING] by auto
qed

text \<open>C32: No relay is retried for ever. Every stored relay has a budget of at most four attempts; a
  round of retries always completes, over any transport, and each attempt it makes is paid for
  from the budget, so the rounds together make at most as many attempts as the budget allows.\<close>

theorem retries_bounded:
  fixes w :: "('n, inner) world"
  assumes "md_store md = memory_store" "mem_inv (w_store w)" "\<not> poisoned (w_store w)" "retries_ok (w_store w)"
  shows "\<exists>w'. retry_due md tp now w = (Inr (), w') \<and> retries_ok (w_store w')
    \<and> budget (w_store w') + min BATCH (length (filter (\<lambda>e. fst (snd e) \<le> now) (relays (w_store w)))) \<le> budget (w_store w)
    \<and> budget (w_store w) \<le> 4 * length (relays (w_store w))"
proof -
  have fine: "relays_fine (w_store w)" using assms by (simp add: relays_fine_def)
  obtain rs s' where d: "mem_due_relays now LEASE_SECS BATCH (w_store w) = (Inr rs, s')" "relays_fine s'" "stored s' rs"
    "budget s' = budget (w_store w)" "length rs = min BATCH (length (filter (\<lambda>e. fst (snd e) \<le> now) (relays (w_store w))))"
    using due_budget [OF fine] by blast
  then obtain w' where "for_act rs (retry_one md tp now) (w\<lparr>w_store := s'\<rparr>) = (Inr (), w')" "relays_fine (w_store w')"
    "budget (w_store w') + length rs \<le> budget s'"
    using retry_all_budget [OF assms(1), of "w\<lparr>w_store := s'\<rparr>" rs tp now] by auto
  moreover have "budget s \<le> 4 * length (relays s)" for s
  proof -
    have "weigh retries_left m \<le> 4 * length m" for m :: "(string \<times> u64 \<times> pending_relay) list"
      by (induction m) (auto simp: weigh_def retries_left_def)
    then show ?thesis by (simp add: budget_def)
  qed
  ultimately show ?thesis
    using assms(1) d by (auto simp: retry_due_def bind_act_def on_store_def memory_store_def relays_fine_def)
qed

text \<open>A transport that always refuses, and a relay on its last retry.\<close>

definition refusing :: "unit transport" where
  "refusing = \<lparr>tp_get_json = (\<lambda>_ n. (Inl ''refused'', n)), tp_post_didcomm = (\<lambda>_ _ n. (Inl ''refused'', n))\<rparr>"

definition last_retry :: "(unit, inner) world" where
  "last_retry = sample_world\<lparr>w_store := mem_new\<lparr>relays :=
     [(''i'', 5, \<lparr>pr_id = ''i'', pr_uri = ''https://b'', pr_message = ''m'', pr_retries = 3\<rparr>)]\<rparr>\<rparr>"

theorem retries_bounded_witness:
  "\<exists>w'. retry_due sample_mediator refusing 10 last_retry = (Inr (), w') \<and> budget (w_store last_retry) = 1
    \<and> budget (w_store w') = 0"
proof -
  have inv: "mem_inv (w_store last_retry)" "retries_ok (w_store last_retry)" "\<not> poisoned (w_store last_retry)"
    by (simp_all add: last_retry_def inv_defs mem_new_def recips_of_def devices_of_def bt_wf_def retries_ok_def)
  have "length (filter (\<lambda>e. fst (snd e) \<le> 10) (relays (w_store last_retry))) = 1" by (simp add: last_retry_def)
  then obtain w' where "retry_due sample_mediator refusing 10 last_retry = (Inr (), w')"
    "budget (w_store w') + 1 \<le> budget (w_store last_retry)"
    using retries_bounded [OF sample_mediator_fields(3) inv(1,3,2), of refusing 10] by (auto simp: BATCH_def)
  moreover have "budget (w_store last_retry) = 1" by (simp add: last_retry_def budget_def weigh_def retries_left_def)
  ultimately show ?thesis by auto
qed

end
