(* ===== verification/Net.thy ===== *)
theory Net
  imports Rust_Std
begin

text \<open>
  IP addresses, as \<open>std::net\<close> reads and prints them: the configuration, the per-client rate limit
  and the outbound address filter use them. A parser takes the text that is left and returns a
  value with the rest, or fails and consumes nothing (\<open>read_atomically\<close>).
\<close>

type_synonym u8 = "8 word"
type_synonym u16 = "16 word"

text \<open>\<open>Ipv4Addr\<close> has four octets, \<open>Ipv6Addr\<close> eight segments.\<close>

datatype ip = V4 u8 u8 u8 u8 | V6 u16 u16 u16 u16 u16 u16 u16 u16

record socket_addr =
  sa_ip :: ip
  sa_port :: u16

section \<open>White space\<close>

text \<open>The UTF-8 forms of the characters with Unicode's \<open>White_Space\<close> property, and \<open>str::trim\<close>.\<close>

definition utf8_of :: "nat list \<Rightarrow> string" where
  "utf8_of bs = map char_of bs"

definition WHITE_SPACE :: "string list" where
  "WHITE_SPACE = map utf8_of ([[9], [10], [11], [12], [13], [32], [194, 133], [194, 160], [225, 154, 128],
     [226, 128, 168], [226, 128, 169], [226, 128, 175], [226, 129, 159], [227, 128, 128]]
     @ map (\<lambda>b. [226, 128, b]) [128..<139])"

function trim_start :: "string \<Rightarrow> string" where
  "trim_start s =
     (case List.find (\<lambda>p. p \<noteq> [] \<and> starts_with s p) WHITE_SPACE of
        None \<Rightarrow> s
      | Some p \<Rightarrow> trim_start (drop (length p) s))"
  by pat_completeness auto

termination trim_start
  by (relation "measure length") (auto simp: find_Some_iff starts_with_iff)

function trim_end :: "string \<Rightarrow> string" where
  "trim_end s =
     (case List.find (\<lambda>p. p \<noteq> [] \<and> ends_with s p) WHITE_SPACE of
        None \<Rightarrow> s
      | Some p \<Rightarrow> trim_end (take (length s - length p) s))"
  by pat_completeness auto

termination trim_end
proof (relation "measure length")
  fix s p
  assume "List.find (\<lambda>p. p \<noteq> [] \<and> ends_with s p) WHITE_SPACE = Some p"
  then have "p \<noteq> []" "length p \<le> length s" by (auto simp: find_Some_iff ends_with_def)
  then show "(take (length s - length p) s, s) \<in> measure length" by (cases p) auto
qed simp

declare trim_start.simps [simp del] trim_end.simps [simp del]

definition trim :: "string \<Rightarrow> string" where
  "trim s = trim_end (trim_start s)"

section \<open>Numbers\<close>

definition to_digit :: "nat \<Rightarrow> char \<Rightarrow> nat option" where
  "to_digit radix c =
     (let b = of_char c :: nat;
          d = (if 48 \<le> b \<and> b \<le> 57 then b - 48
               else if 97 \<le> b \<and> b \<le> 122 then b - 87
               else if 65 \<le> b \<and> b \<le> 90 then b - 55 else radix)
      in if d < radix then Some d else None)"

fun read_digits :: "nat \<Rightarrow> string \<Rightarrow> nat list \<times> string" where
  "read_digits radix [] = ([], [])"
| "read_digits radix (c # cs) =
     (case to_digit radix c of
        None \<Rightarrow> ([], c # cs)
      | Some d \<Rightarrow> (case read_digits radix cs of (ds, r) \<Rightarrow> (d # ds, r)))"

definition digits_in :: "nat \<Rightarrow> nat list \<Rightarrow> nat" where
  "digits_in radix ds = foldl (\<lambda>a d. a * radix + d) 0 ds"

text \<open>\<open>read_number\<close>: at most \<open>max_digits\<close> digits, no overflow of the type, and no leading zero
  unless it is allowed.\<close>

definition read_number :: "nat \<Rightarrow> nat \<Rightarrow> nat \<Rightarrow> bool \<Rightarrow> string \<Rightarrow> (nat \<times> string) option" where
  "read_number radix max_digits bound zero_prefix s =
     (case read_digits radix s of
        (ds, r) \<Rightarrow>
          if ds = [] \<or> length ds > max_digits \<or> digits_in radix ds \<ge> bound then None
          else if \<not> zero_prefix \<and> hd ds = 0 \<and> length ds > 1 then None
          else Some (digits_in radix ds, r))"

definition read_char :: "char \<Rightarrow> string \<Rightarrow> string option" where
  "read_char c s = (case s of [] \<Rightarrow> None | x # xs \<Rightarrow> if x = c then Some xs else None)"

text \<open>\<open>read_separator\<close>: the separator comes before every item but the first.\<close>

definition read_separator :: "char \<Rightarrow> nat \<Rightarrow> (string \<Rightarrow> ('a \<times> string) option) \<Rightarrow> string \<Rightarrow> ('a \<times> string) option" where
  "read_separator c i p s = Option.bind (if i = 0 then Some s else read_char c s) p"

section \<open>Addresses\<close>

definition read_octet :: "nat \<Rightarrow> string \<Rightarrow> (u8 \<times> string) option" where
  "read_octet i s = map_option (\<lambda>(n, r). (of_nat n, r)) (read_separator (CHR ''.'') i (read_number 10 3 256 False) s)"

definition read_ipv4 :: "string \<Rightarrow> ((u8 \<times> u8 \<times> u8 \<times> u8) \<times> string) option" where
  "read_ipv4 s =
     Option.bind (read_octet 0 s) (\<lambda>(a, s).
     Option.bind (read_octet 1 s) (\<lambda>(b, s).
     Option.bind (read_octet 2 s) (\<lambda>(c, s).
     map_option (\<lambda>(d, s). ((a, b, c, d), s)) (read_octet 3 s))))"

definition two_octets :: "u8 \<Rightarrow> u8 \<Rightarrow> u16" where
  "two_octets a b = ucast a * 256 + ucast b"

text \<open>\<open>read_groups\<close> into \<open>limit\<close> slots, from slot \<open>i\<close> on: the groups, and whether they end with an
  embedded IPv4 address.\<close>

fun read_groups :: "nat \<Rightarrow> nat \<Rightarrow> string \<Rightarrow> u16 list \<times> bool \<times> string" where
  "read_groups 0 i s = ([], False, s)"
| "read_groups (Suc left) i s =
     (case (if 0 < left then read_separator (CHR '':'') i read_ipv4 s else None) of
        Some ((a, b, c, d), r) \<Rightarrow> ([two_octets a b, two_octets c d], True, r)
      | None \<Rightarrow>
          (case read_separator (CHR '':'') i (read_number 16 4 65536 True) s of
             None \<Rightarrow> ([], False, s)
           | Some (g, r) \<Rightarrow> (case read_groups left (Suc i) r of (gs, v4, r) \<Rightarrow> (of_nat g # gs, v4, r))))"

fun v6_of :: "u16 list \<Rightarrow> ip option" where
  "v6_of [a, b, c, d, e, f, g, h] = Some (V6 a b c d e f g h)"
| "v6_of _ = None"

definition read_ipv6 :: "string \<Rightarrow> (ip \<times> string) option" where
  "read_ipv6 s =
     (case read_groups 8 0 s of
        (head, v4, r) \<Rightarrow>
          if length head = 8 then map_option (\<lambda>a. (a, r)) (v6_of head)
          else if v4 then None
          else Option.bind (Option.bind (read_char (CHR '':'') r) (read_char (CHR '':''))) (\<lambda>r.
            case read_groups (7 - length head) 0 r of
              (tail, _, r) \<Rightarrow> map_option (\<lambda>a. (a, r)) (v6_of (head @ replicate (8 - length head - length tail) 0 @ tail))))"

text \<open>\<open>IpAddr::from_str\<close>: the whole text, IPv4 first.\<close>

definition parse_ip :: "string \<Rightarrow> ip option" where
  "parse_ip s =
     (case (case read_ipv4 s of Some ((a, b, c, d), r) \<Rightarrow> Some (V4 a b c d, r) | None \<Rightarrow> read_ipv6 s) of
        Some (a, []) \<Rightarrow> Some a
      | _ \<Rightarrow> None)"

text \<open>\<open>SocketAddr::from_str\<close>: an address and a port; the scope of an IPv6 address is not kept.\<close>

definition read_port :: "string \<Rightarrow> (u16 \<times> string) option" where
  "read_port s =
     Option.bind (read_char (CHR '':'') s) (\<lambda>r.
     map_option (\<lambda>(n, r). (of_nat n, r)) (read_number 10 (length r) 65536 True r))"

definition read_scope :: "string \<Rightarrow> string" where
  "read_scope s =
     (case Option.bind (read_char (CHR ''%'') s) (\<lambda>r. read_number 10 (length r) (2 ^ 32) True r) of
        Some (_, r) \<Rightarrow> r | None \<Rightarrow> s)"

definition read_socket_v6 :: "string \<Rightarrow> (ip \<times> string) option" where
  "read_socket_v6 s =
     Option.bind (read_char (CHR ''['') s) (\<lambda>s.
     Option.bind (read_ipv6 s) (\<lambda>(a, s).
     map_option (Pair a) (read_char (CHR '']'') (read_scope s))))"

definition parse_socket_addr :: "string \<Rightarrow> socket_addr option" where
  "parse_socket_addr s =
     (let port = (\<lambda>(a, r). map_option (\<lambda>(p, r). (\<lparr>sa_ip = a, sa_port = p\<rparr>, r)) (read_port r));
          v4 = Option.bind (read_ipv4 s) (\<lambda>((a, b, c, d), r). port (V4 a b c d, r))
      in case (case v4 of Some x \<Rightarrow> Some x | None \<Rightarrow> Option.bind (read_socket_v6 s) port) of
           Some (a, []) \<Rightarrow> Some a
         | _ \<Rightarrow> None)"

section \<open>Display\<close>

fun hex_nat :: "nat \<Rightarrow> string" where
  "hex_nat n =
     (let c = (\<lambda>d. char_of (if d < 10 then 48 + d else 87 + d))
      in if n < 16 then [c n] else hex_nat (n div 16) @ [c (n mod 16)])"

declare hex_nat.simps [simp del]

definition show_octet :: "u8 \<Rightarrow> string" where
  "show_octet b = show_nat (unat b)"

definition show_v4 :: "u8 \<Rightarrow> u8 \<Rightarrow> u8 \<Rightarrow> u8 \<Rightarrow> string" where
  "show_v4 a b c d = join ''.'' [show_octet a, show_octet b, show_octet c, show_octet d]"

text \<open>The longest run of zero segments, the first one of several: start and length.\<close>

fun zero_span :: "u16 list \<Rightarrow> nat \<Rightarrow> nat \<times> nat \<Rightarrow> nat \<times> nat \<Rightarrow> nat \<times> nat" where
  "zero_span [] i current longest = longest"
| "zero_span (x # xs) i (start, n) longest =
     (if x = 0 then
        (let cur = (if n = 0 then i else start, Suc n)
         in zero_span xs (Suc i) cur (if Suc n > snd longest then cur else longest))
      else zero_span xs (Suc i) (0, 0) longest)"

definition show_groups :: "u16 list \<Rightarrow> string" where
  "show_groups gs = join '':'' (map (\<lambda>g. hex_nat (unat g)) gs)"

definition low_octet :: "u16 \<Rightarrow> u8" where
  "low_octet g = ucast g"

definition high_octet :: "u16 \<Rightarrow> u8" where
  "high_octet g = ucast (g div 256)"

text \<open>\<open>to_ipv4_mapped\<close>: the address of \<open>::ffff:0:0/96\<close>.\<close>

fun to_ipv4_mapped :: "ip \<Rightarrow> (u8 \<times> u8 \<times> u8 \<times> u8) option" where
  "to_ipv4_mapped (V6 a b c d e f g h) =
     (if a = 0 \<and> b = 0 \<and> c = 0 \<and> d = 0 \<and> e = 0 \<and> f = 65535
      then Some (high_octet g, low_octet g, high_octet h, low_octet h) else None)"
| "to_ipv4_mapped _ = None"

fun show_ip :: "ip \<Rightarrow> string" where
  "show_ip (V4 a b c d) = show_v4 a b c d"
| "show_ip (V6 a b c d e f g h) =
     (case to_ipv4_mapped (V6 a b c d e f g h) of
        Some (p, q, r, s) \<Rightarrow> ''::ffff:'' @ show_v4 p q r s
      | None \<Rightarrow>
          (let gs = [a, b, c, d, e, f, g, h];
               (start, n) = zero_span gs 0 (0, 0) (0, 0)
           in if n > 1 then show_groups (take start gs) @ ''::'' @ show_groups (drop (start + n) gs)
              else show_groups gs))"

section \<open>What is printed is read back\<close>

text \<open>The rest of a text after a number does not start with a digit.\<close>

definition number_ends :: "string \<Rightarrow> bool" where
  "number_ends r \<longleftrightarrow> (case r of [] \<Rightarrow> True | c # _ \<Rightarrow> to_digit 10 c = None)"

definition digit_vals :: "string \<Rightarrow> nat list" where
  "digit_vals s = map (\<lambda>c. of_char c - 48) s"

lemma read_digits_append:
  "list_all is_ascii_digit ds \<Longrightarrow> number_ends r \<Longrightarrow> read_digits 10 (ds @ r) = (digit_vals ds, r)"
proof (induction ds)
  case Nil
  then show ?case by (cases r) (auto simp: number_ends_def digit_vals_def)
next
  case (Cons c cs)
  then show ?case by (auto simp: to_digit_def is_ascii_digit_def digit_vals_def Let_def)
qed

lemma digits_in_vals: "digits_in 10 (digit_vals s) = digits_val s"
  by (simp add: digits_in_def digit_vals_def digits_val_def foldl_map)

lemma show_octet_digits:
  assumes "n < 256"
  shows "digit_vals (show_nat n) \<noteq> []" "length (digit_vals (show_nat n)) \<le> 3"
    "hd (digit_vals (show_nat n)) = 0 \<longrightarrow> length (digit_vals (show_nat n)) = 1"
proof -
  have d: "n div 10 div 10 = n div 100" by (simp add: div_mult2_eq [symmetric])
  have "n div 10 < 10 \<longleftrightarrow> n < 100" "n div 100 < 10" using assms by auto
  then have "digit_vals (show_nat n) = (if n < 10 then [n] else if n < 100 then [n div 10, n mod 10]
      else [n div 100, n div 10 mod 10, n mod 10])"
    by (simp add: d show_nat.simps [of n] show_nat.simps [of "n div 10"] show_nat.simps [of "n div 100"]
      digit_vals_def of_char_digit)
  then show "digit_vals (show_nat n) \<noteq> []" "length (digit_vals (show_nat n)) \<le> 3"
    "hd (digit_vals (show_nat n)) = 0 \<longrightarrow> length (digit_vals (show_nat n)) = 1"
    by (auto split: if_splits)
qed

lemma read_show_octet:
  assumes "number_ends r"
  shows "read_number 10 3 256 False (show_octet b @ r) = Some (unat b, r)"
proof -
  have n: "unat b < 256" using unsigned_less [of b] by simp
  show ?thesis using n show_octet_digits [OF n]
    by (auto simp: read_number_def show_octet_def read_digits_append [OF show_nat_digits assms] digits_in_vals)
qed

lemma number_ends_simps [simp]: "number_ends []" "number_ends (CHR ''.'' # r)" "number_ends (CHR '','' # r)"
  by (simp_all add: number_ends_def to_digit_def)

lemma read_show_v4: "number_ends r \<Longrightarrow> read_ipv4 (show_v4 a b c d @ r) = Some ((a, b, c, d), r)"
  by (simp add: read_ipv4_def read_octet_def show_v4_def read_separator_def read_char_def read_show_octet)

lemma parse_show_v4 [simp]: "parse_ip (show_ip (V4 a b c d)) = Some (V4 a b c d)"
  using read_show_v4 [of "[]" a b c d] by (simp add: parse_ip_def)

text \<open>A printed address has no commas and no white space around it.\<close>

lemma white_space_ends:
  "\<forall>p\<in>set WHITE_SPACE. p \<noteq> [] \<and> \<not> is_ascii_digit (hd p) \<and> \<not> is_ascii_digit (last p)
    \<and> (hd p = CHR '' '' \<longrightarrow> p = '' '')"
  "'' '' \<in> set WHITE_SPACE"
  unfolding WHITE_SPACE_def by code_simp+

lemma trim_start_digit: "is_ascii_digit c \<Longrightarrow> trim_start (c # s) = c # s"
proof -
  assume c: "is_ascii_digit c"
  have "List.find (\<lambda>p. p \<noteq> [] \<and> starts_with (c # s) p) WHITE_SPACE = None"
    unfolding find_None_iff starts_with_iff
  proof
    assume "\<exists>p. p \<in> set WHITE_SPACE \<and> p \<noteq> [] \<and> (\<exists>r. c # s = p @ r)"
    then obtain p r where "p \<in> set WHITE_SPACE" "p \<noteq> []" "c # s = p @ r" by blast
    then have "p \<in> set WHITE_SPACE" "hd p = c" by (simp, metis hd_append2 list.sel(1))
    then show False using c white_space_ends(1) by blast
  qed
  then show ?thesis by (subst trim_start.simps) (simp only: option.case)
qed

lemma trim_end_digit: "is_ascii_digit c \<Longrightarrow> trim_end (s @ [c]) = s @ [c]"
proof -
  assume c: "is_ascii_digit c"
  have "List.find (\<lambda>p. p \<noteq> [] \<and> ends_with (s @ [c]) p) WHITE_SPACE = None"
    unfolding find_None_iff
  proof
    assume "\<exists>p. p \<in> set WHITE_SPACE \<and> p \<noteq> [] \<and> ends_with (s @ [c]) p"
    then obtain p where p: "p \<in> set WHITE_SPACE" "p \<noteq> []" "ends_with (s @ [c]) p" by blast
    then obtain r where "s @ [c] = r @ p" unfolding ends_with_def by (metis append_take_drop_id)
    then have "last p = c" using p(2) by (metis last_appendR last_snoc)
    then show False using c p(1) white_space_ends(1) by blast
  qed
  then show ?thesis by (subst trim_end.simps) (simp only: option.case)
qed

lemma trim_start_space: "trim_start (CHR '' '' # s) = trim_start s"
proof -
  have "List.find (\<lambda>p. p \<noteq> [] \<and> starts_with (CHR '' '' # s) p) WHITE_SPACE = Some '' ''"
  proof (cases "List.find (\<lambda>p. p \<noteq> [] \<and> starts_with (CHR '' '' # s) p) WHITE_SPACE")
    case None
    then show ?thesis using white_space_ends(2) by (auto simp: find_None_iff starts_with_def)
  next
    case (Some p)
    then have "p \<in> set WHITE_SPACE" "p \<noteq> []" "starts_with (CHR '' '' # s) p" by (auto simp: find_Some_iff)
    then have "hd p = CHR '' ''" unfolding starts_with_iff by (metis hd_append2 list.sel(1))
    then show ?thesis using Some \<open>p \<in> set WHITE_SPACE\<close> white_space_ends(1) by blast
  qed
  then show ?thesis by (subst trim_start.simps) simp
qed

lemma show_octet_chars: "show_octet a \<noteq> []" "c \<in> set (show_octet a) \<Longrightarrow> is_ascii_digit c"
  using show_nat_digits [of "unat a"] by (auto simp: show_octet_def list_all_iff)

lemma show_v4_chars: "c \<in> set (show_v4 p q r s) \<Longrightarrow> is_ascii_digit c \<or> c = CHR ''.''"
  by (auto simp: show_v4_def dest: show_octet_chars(2))

lemma trim_show_v4 [simp]: "trim (show_v4 a b c d) = show_v4 a b c d" "trim (CHR '' '' # show_v4 a b c d) = show_v4 a b c d"
proof -
  obtain x t where a: "show_octet a = x # t" using show_octet_chars(1) [of a] by (cases "show_octet a") auto
  obtain u y where d: "show_octet d = u @ [y]" using show_octet_chars(1) [of d] by (cases "show_octet d" rule: rev_cases) auto
  have x: "is_ascii_digit x" and y: "is_ascii_digit y" using show_octet_chars(2) a d by (metis list.set_intros(1), metis in_set_conv_decomp)
  obtain s where 1: "show_v4 a b c d = x # s" using a by (simp add: show_v4_def)
  obtain s' where 2: "show_v4 a b c d = s' @ [y]" using d by (auto simp: show_v4_def)
  show "trim (show_v4 a b c d) = show_v4 a b c d"
    using trim_start_digit [OF x, of s] trim_end_digit [OF y, of s'] 1 2 by (simp add: trim_def)
  then show "trim (CHR '' '' # show_v4 a b c d) = show_v4 a b c d" by (simp add: trim_def trim_start_space)
qed

end
