(* ===== verification/Outbound.thy ===== *)
theory Outbound
  imports Mediator Net
begin

text \<open>
  Outbound requests: the guard against server-side request forgery of
  \<open>crates/mediator/src/transport.rs\<close>. The HTTP client, its URL parser and the system's name lookup
  are third-party code and parameters (\<open>http_client\<close>); what the mediator decides about a URL, a
  redirect and an address is modelled.
\<close>

section \<open>URLs\<close>

text \<open>\<open>url::Host\<close> and what the mediator reads of a \<open>reqwest::Url\<close>.\<close>

datatype url_host = Domain string | HostIpv4 string | HostIpv6 string

record parsed_url =
  url_text :: string
  url_scheme :: string
  url_host_of :: "url_host option"

record 'n http_client =
  hc_parse :: "string \<Rightarrow> parsed_url option"
  hc_get :: "string \<Rightarrow> 'n \<Rightarrow> (string + (nat \<times> (string + json))) \<times> 'n"
  hc_post :: "string \<Rightarrow> string \<Rightarrow> string \<Rightarrow> 'n \<Rightarrow> (string + nat) \<times> 'n"

definition ENCRYPTED :: string where
  "ENCRYPTED = ''application/didcomm-encrypted+json''"

definition is_success :: "nat \<Rightarrow> bool" where
  "is_success status \<longleftrightarrow> 200 \<le> status \<and> status < 300"

definition is_error_status :: "nat \<Rightarrow> bool" where
  "is_error_status status \<longleftrightarrow> 400 \<le> status \<and> status < 600"

text \<open>\<open>HttpTransport::check\<close>.\<close>

definition check_url :: "'n http_client \<Rightarrow> bool \<Rightarrow> string \<Rightarrow> string + parsed_url" where
  "check_url C allow_insecure url =
     (case hc_parse C url of
        None \<Rightarrow> Inl (''invalid URL '' @ url)
      | Some u \<Rightarrow>
          if allow_insecure then
            (if url_scheme u = ''https'' \<or> url_scheme u = ''http'' then Inr u
             else Inl (''unsupported scheme in '' @ url_text u))
          else if url_scheme u \<noteq> ''https'' then Inl (''only https URLs are allowed: '' @ url_text u)
          else (case url_host_of u of
              Some (Domain _) \<Rightarrow> Inr u
            | Some _ \<Rightarrow> Inl (''IP-literal hosts are not allowed: '' @ url_text u)
            | None \<Rightarrow> Inl (''URL without host: '' @ url_text u)))"

text \<open>\<open>get_json\<close> and \<open>post_didcomm\<close>. \<open>error_for_status\<close> refuses client and server errors.\<close>

definition http_get_json :: "'n http_client \<Rightarrow> bool \<Rightarrow> string \<Rightarrow> 'n \<Rightarrow> (string + json) \<times> 'n" where
  "http_get_json C allow_insecure url n =
     (case check_url C allow_insecure url of
        Inl e \<Rightarrow> (Inl e, n)
      | Inr u \<Rightarrow>
          (case hc_get C (url_text u) n of
             (Inl e, n) \<Rightarrow> (Inl e, n)
           | (Inr (status, body), n) \<Rightarrow>
               (if is_error_status status then (Inl ''HTTP status error'', n)
                else case body of
                    Inl _ \<Rightarrow> (Inl (''reading JSON from '' @ url_text u), n)
                  | Inr v \<Rightarrow> (Inr v, n))))"

definition http_post_didcomm :: "'n http_client \<Rightarrow> bool \<Rightarrow> string \<Rightarrow> string \<Rightarrow> 'n \<Rightarrow> (string + unit) \<times> 'n" where
  "http_post_didcomm C allow_insecure url text n =
     (case check_url C allow_insecure url of
        Inl e \<Rightarrow> (Inl e, n)
      | Inr u \<Rightarrow>
          (case hc_post C (url_text u) ENCRYPTED text n of
             (Inl e, n) \<Rightarrow> (Inl e, n)
           | (Inr status, n) \<Rightarrow>
               (if is_success status then (Inr (), n)
                else (Inl (url_text u @ '' answered '' @ show_nat status), n))))"

definition http_transport :: "'n http_client \<Rightarrow> bool \<Rightarrow> 'n transport" where
  "http_transport C allow_insecure =
     \<lparr>tp_get_json = http_get_json C allow_insecure, tp_post_didcomm = http_post_didcomm C allow_insecure\<rparr>"

text \<open>The redirect policy: the status and how many URLs came before.\<close>

definition follow_redirect :: "nat \<Rightarrow> nat \<Rightarrow> bool" where
  "follow_redirect status previous \<longleftrightarrow> status = 307 \<and> previous < 3"

section \<open>Addresses\<close>

text \<open>The predicates of \<open>Ipv4Addr\<close>.\<close>

definition v4_is_private :: "u8 \<Rightarrow> u8 \<Rightarrow> bool" where
  "v4_is_private a b \<longleftrightarrow> a = 10 \<or> a = 172 \<and> 16 \<le> b \<and> b \<le> 31 \<or> a = 192 \<and> b = 168"

definition v4_is_documentation :: "u8 \<Rightarrow> u8 \<Rightarrow> u8 \<Rightarrow> bool" where
  "v4_is_documentation a b c \<longleftrightarrow> (a, b, c) = (192, 0, 2) \<or> (a, b, c) = (198, 51, 100) \<or> (a, b, c) = (203, 0, 113)"

definition v4_is_public :: "u8 \<Rightarrow> u8 \<Rightarrow> u8 \<Rightarrow> u8 \<Rightarrow> bool" where
  "v4_is_public a b c d \<longleftrightarrow>
     \<not> (v4_is_private a b
       \<or> a = 127
       \<or> a = 169 \<and> b = 254
       \<or> (a, b, c, d) = (0, 0, 0, 0)
       \<or> (a, b, c, d) = (255, 255, 255, 255)
       \<or> 224 \<le> a \<and> a \<le> 239
       \<or> v4_is_documentation a b c
       \<or> a = 0
       \<or> a = 100 \<and> 64 \<le> b \<and> b < 128
       \<or> a = 198 \<and> 18 \<le> b \<and> b < 20)"

fun is_public :: "ip \<Rightarrow> bool" where
  "is_public (V4 a b c d) = v4_is_public a b c d"
| "is_public (V6 a b c d e f g h) =
     (case to_ipv4_mapped (V6 a b c d e f g h) of
        Some (p, q, r, s) \<Rightarrow> v4_is_public p q r s
      | None \<Rightarrow>
          \<not> ((a, b, c, d, e, f, g, h) = (0, 0, 0, 0, 0, 0, 0, 1)
            \<or> (a, b, c, d, e, f, g, h) = (0, 0, 0, 0, 0, 0, 0, 0)
            \<or> and a 0xff00 = 0xff00
            \<or> and a 0xfe00 = 0xfc00
            \<or> and a 0xffc0 = 0xfe80
            \<or> a = 0x2001 \<and> b = 0x0db8))"

text \<open>\<open>PublicOnlyResolver::resolve\<close>, given what the system's lookup says about the name.\<close>

definition resolve_public :: "string \<Rightarrow> string + ip list \<Rightarrow> string + ip list" where
  "resolve_public host found =
     bind_res found (\<lambda>addrs.
     let addrs = filter is_public addrs
     in if addrs = [] then Inl (host @ '' has no public address'') else Inr addrs)"

section \<open>The blocks that the source names\<close>

text \<open>An address as a number, and CIDR blocks: a prefix and its length.\<close>

definition v4_number :: "u8 \<Rightarrow> u8 \<Rightarrow> u8 \<Rightarrow> u8 \<Rightarrow> nat" where
  "v4_number a b c d = ((unat a * 256 + unat b) * 256 + unat c) * 256 + unat d"

definition in_block :: "nat \<Rightarrow> nat \<times> nat \<Rightarrow> bool" where
  "in_block n block \<longleftrightarrow> n div 2 ^ (32 - snd block) = fst block div 2 ^ (32 - snd block)"

definition special_blocks :: "(nat \<times> nat) list" where
  "special_blocks = map (\<lambda>((a, b, c, d), n). (v4_number a b c d, n))
     [((0, 0, 0, 0), 8), ((10, 0, 0, 0), 8), ((100, 64, 0, 0), 10), ((127, 0, 0, 0), 8), ((169, 254, 0, 0), 16),
      ((172, 16, 0, 0), 12), ((192, 0, 2, 0), 24), ((192, 168, 0, 0), 16), ((198, 18, 0, 0), 15),
      ((198, 51, 100, 0), 24), ((203, 0, 113, 0), 24), ((224, 0, 0, 0), 4), ((255, 255, 255, 255), 32)]"

lemma v4_number_div:
  fixes a b c d :: u8
  shows "v4_number a b c d div 2 ^ 24 = unat a" "v4_number a b c d div 2 ^ 16 = unat a * 256 + unat b"
    "v4_number a b c d div 2 ^ 8 = (unat a * 256 + unat b) * 256 + unat c"
    "v4_number a b c d div 2 ^ 28 = unat a div 16" "v4_number a b c d div 2 ^ 22 = unat a * 4 + unat b div 64"
    "v4_number a b c d div 2 ^ 20 = unat a * 16 + unat b div 16" "v4_number a b c d div 2 ^ 17 = unat a * 128 + unat b div 2"
proof -
  have b: "unat a < 256" "unat b < 256" "unat c < 256" "unat d < 256"
    using unsigned_less [of a] unsigned_less [of b] unsigned_less [of c] unsigned_less [of d] by simp_all
  then show 24: "v4_number a b c d div 2 ^ 24 = unat a" "v4_number a b c d div 2 ^ 16 = unat a * 256 + unat b"
    "v4_number a b c d div 2 ^ 8 = (unat a * 256 + unat b) * 256 + unat c"
    unfolding v4_number_def by simp_all
  have e: "v4_number a b c d div 2 ^ (i + j) = v4_number a b c d div 2 ^ i div 2 ^ j" for i j
    by (simp add: div_mult2_eq power_add)
  show "v4_number a b c d div 2 ^ 28 = unat a div 16" using e [of 24 4] 24(1) by simp
  show "v4_number a b c d div 2 ^ 22 = unat a * 4 + unat b div 64" using e [of 16 6] 24(2) by simp
  show "v4_number a b c d div 2 ^ 20 = unat a * 16 + unat b div 16" using e [of 16 4] 24(2) by simp
  show "v4_number a b c d div 2 ^ 17 = unat a * 128 + unat b div 2" using e [of 16 1] 24(2) by simp
qed

lemma octet_lt: "unat (a :: u8) < 256"
  using unsigned_less [of a] by simp

lemma base_eq:
  assumes "y < k" "y' < (k :: nat)"
  shows "x * k + y = x' * k + y' \<longleftrightarrow> x = x' \<and> y = y'"
proof
  assume e: "x * k + y = x' * k + y'"
  have "(x * k + y) div k = x" "(x' * k + y') div k = x'" "(x * k + y) mod k = y" "(x' * k + y') mod k = y'"
    using assms by simp_all
  then show "x = x' \<and> y = y'" using e by metis
qed simp

lemmas base_256 = base_eq [where k = 256]

lemma div_eq_numeral:
  assumes "0 < (k :: nat)"
  shows "y div k = n \<longleftrightarrow> n * k \<le> y \<and> y < n * k + k"
  using assms by (metis Suc_n_not_le_n add.commute div_nat_eqI dividend_less_times_div le_less_Suc_eq less_Suc_eq_le
    mult.commute mult_Suc nat_neq_iff times_div_less_eq_dividend)

lemma pair_eq: "unat a * 256 + unat b = unat a' * 256 + unat b' \<longleftrightarrow> a = a' \<and> b = (b' :: u8)" for a a' :: u8
  by (simp only: base_256 [OF octet_lt octet_lt] word_unat_eq_iff)

lemma triple_eq:
  "(unat a * 256 + unat b) * 256 + unat c = (unat a' * 256 + unat b') * 256 + unat c' \<longleftrightarrow> a = a' \<and> b = b' \<and> c = (c' :: u8)"
  for a a' b b' :: u8
  by (simp only: base_256 [OF octet_lt octet_lt] word_unat_eq_iff conj_assoc)

lemma quad_eq: "v4_number a b c d = v4_number a' b' c' d' \<longleftrightarrow> (a, b, c, d) = (a', b', c', d')"
  by (simp only: v4_number_def base_256 [OF octet_lt octet_lt] word_unat_eq_iff conj_assoc prod.inject)

lemma in_block_8: "in_block (v4_number a b c d) (v4_number a' b' c' d', 8) \<longleftrightarrow> a = a'"
  using v4_number_div(1) [of a b c d] v4_number_div(1) [of a' b' c' d'] by (simp add: in_block_def word_unat_eq_iff)

lemma in_block_16: "in_block (v4_number a b c d) (v4_number a' b' c' d', 16) \<longleftrightarrow> a = a' \<and> b = b'"
  using v4_number_div(2) [of a b c d] v4_number_div(2) [of a' b' c' d'] by (simp add: in_block_def pair_eq)

lemma in_block_24: "in_block (v4_number a b c d) (v4_number a' b' c' d', 24) \<longleftrightarrow> a = a' \<and> b = b' \<and> c = c'"
  using triple_eq [of a b c a' b' c'] v4_number_div(3) [of a b c d] v4_number_div(3) [of a' b' c' d'] by (simp add: in_block_def)

lemma in_block_32: "in_block (v4_number a b c d) (v4_number a' b' c' d', 32) \<longleftrightarrow> (a, b, c, d) = (a', b', c', d')"
  by (simp add: in_block_def quad_eq)

lemma in_block_4: "in_block (v4_number a b c d) (v4_number 224 0 0 0, 4) \<longleftrightarrow> 224 \<le> a \<and> a \<le> 239"
  using v4_number_div(4) [of a b c d] v4_number_div(4) [of 224 0 0 0] octet_lt [of a]
  by (simp add: in_block_def word_le_nat_alt) linarith

lemma split_octet:
  assumes "y < (256 :: nat)"
  shows "x * 4 + y div 64 = 401 \<longleftrightarrow> x = 100 \<and> 64 \<le> y \<and> y < 128"
    "x * 16 + y div 16 = 2753 \<longleftrightarrow> x = 172 \<and> 16 \<le> y \<and> y \<le> 31"
    "x * 128 + y div 2 = 25353 \<longleftrightarrow> x = 198 \<and> 18 \<le> y \<and> y < 20"
proof -
  have "y div 64 < 4" "y div 16 < 16" "y div 2 < 128" using assms by auto
  from base_eq [OF this(1), of 1 x 100] base_eq [OF this(2), of 1 x 172] base_eq [OF this(3), of 9 x 198]
  show "x * 4 + y div 64 = 401 \<longleftrightarrow> x = 100 \<and> 64 \<le> y \<and> y < 128"
    "x * 16 + y div 16 = 2753 \<longleftrightarrow> x = 172 \<and> 16 \<le> y \<and> y \<le> 31"
    "x * 128 + y div 2 = 25353 \<longleftrightarrow> x = 198 \<and> 18 \<le> y \<and> y < 20"
    using div_eq_numeral [of 64 y 1] div_eq_numeral [of 16 y 1] div_eq_numeral [of 2 y 9] by auto
qed

lemma in_block_10: "in_block (v4_number a b c d) (v4_number 100 64 0 0, 10) \<longleftrightarrow> a = 100 \<and> 64 \<le> b \<and> b < 128"
  using v4_number_div(5) [of a b c d] v4_number_div(5) [of 100 64 0 0] split_octet(1) [OF octet_lt [of b], of "unat a"]
  by (simp add: in_block_def word_le_nat_alt word_less_nat_alt word_unat_eq_iff)

lemma in_block_12: "in_block (v4_number a b c d) (v4_number 172 16 0 0, 12) \<longleftrightarrow> a = 172 \<and> 16 \<le> b \<and> b \<le> 31"
  using v4_number_div(6) [of a b c d] v4_number_div(6) [of 172 16 0 0] split_octet(2) [OF octet_lt [of b], of "unat a"]
  by (simp add: in_block_def word_le_nat_alt word_unat_eq_iff)

lemma in_block_15: "in_block (v4_number a b c d) (v4_number 198 18 0 0, 15) \<longleftrightarrow> a = 198 \<and> 18 \<le> b \<and> b < 20"
  using v4_number_div(7) [of a b c d] v4_number_div(7) [of 198 18 0 0] split_octet(3) [OF octet_lt [of b], of "unat a"]
  by (simp add: in_block_def word_le_nat_alt word_less_nat_alt word_unat_eq_iff)

lemmas in_block_simps = in_block_4 in_block_8 in_block_10 in_block_12 in_block_15 in_block_16 in_block_24 in_block_32

lemma v4_is_public_blocks: "v4_is_public a b c d \<longleftrightarrow> \<not> list_ex (in_block (v4_number a b c d)) special_blocks"
  unfolding special_blocks_def list.map case_prod_conv list_ex_iff list.set bex_simps in_block_simps v4_is_public_def
    v4_is_private_def v4_is_documentation_def prod.inject
  by argo

lemma octets_of_two [simp]: "high_octet (two_octets a b) = a" "low_octet (two_octets a b) = b"
proof -
  have "unat (two_octets a b) = unat a * 256 + unat b"
    using octet_lt [of a] octet_lt [of b] by (simp add: two_octets_def unat_word_ariths unsigned_ucast_eq take_bit_eq_mod)
  then show "high_octet (two_octets a b) = a" "low_octet (two_octets a b) = b"
    using octet_lt [of a] octet_lt [of b]
    by (simp_all add: high_octet_def low_octet_def word_unat_eq_iff unsigned_ucast_eq take_bit_eq_mod unat_div)
qed

text \<open>What the filter refuses of IPv4 are exactly the blocks of the source, and an IPv4-mapped address is judged as
  the IPv4 address it stands for.\<close>

lemma is_public_blocks:
  "(is_public (V4 a b c d) \<longleftrightarrow> \<not> list_ex (in_block (v4_number a b c d)) special_blocks)
   \<and> (is_public (V6 0 0 0 0 0 0xffff (two_octets a b) (two_octets c d)) \<longleftrightarrow> is_public (V4 a b c d))"
  by (simp add: v4_is_public_blocks)

text \<open>Class E addresses (\<open>240.0.0.0/4\<close>), which are not globally routable unicast addresses, pass, and so
  does a NAT64 address that stands for the loopback address.\<close>

lemma is_public_class_e: "is_public (V4 240 0 0 1)" "is_public (V6 0x64 0xff9b 0 0 0 0 0x7f00 1)"
  by (simp_all add: v4_is_public_def v4_is_private_def v4_is_documentation_def)

section \<open>Internal addresses\<close>

text \<open>
  An address as a 128-bit number, an IPv4 address as the IPv4-mapped one, and the blocks that are not for the
  public network, as RFC 6890 has them: this network, private, shared, loopback, link-local, multicast and
  broadcast, and for IPv6 unspecified, loopback, unique-local, link-local and multicast.
\<close>

fun address_number :: "ip \<Rightarrow> nat" where
  "address_number (V4 a b c d) = 0xffff * 2 ^ 32 + v4_number a b c d"
| "address_number (V6 a b c d e f g h) = foldl (\<lambda>n s. n * 2 ^ 16 + unat s) 0 [a, b, c, d, e, f, g, h]"

definition in_prefix :: "nat \<Rightarrow> nat \<times> nat \<Rightarrow> bool" where
  "in_prefix n block \<longleftrightarrow> n div 2 ^ (128 - snd block) = fst block div 2 ^ (128 - snd block)"

definition internal4_blocks :: "((u8 \<times> u8 \<times> u8 \<times> u8) \<times> nat) list" where
  "internal4_blocks =
     [((0, 0, 0, 0), 8), ((10, 0, 0, 0), 8), ((100, 64, 0, 0), 10), ((127, 0, 0, 0), 8), ((169, 254, 0, 0), 16),
      ((172, 16, 0, 0), 12), ((192, 168, 0, 0), 16), ((224, 0, 0, 0), 4), ((255, 255, 255, 255), 32)]"

definition internal6_blocks :: "(nat \<times> nat) list" where
  "internal6_blocks = [(0, 128), (1, 128), (0xfc00 * 2 ^ 112, 7), (0xfe80 * 2 ^ 112, 10), (0xff00 * 2 ^ 112, 8)]"

definition internal :: "ip \<Rightarrow> bool" where
  "internal a \<longleftrightarrow> list_ex (in_prefix (address_number a)) internal6_blocks
     \<or> list_ex (\<lambda>((p, q, r, s), n). in_prefix (address_number a) (address_number (V4 p q r s), 96 + n)) internal4_blocks"

lemma u16_lt: "unat (s :: u16) < 65536"
  using unsigned_less [of s] by simp

lemma v6_first: "address_number (V6 a b c d e f g h) div 2 ^ 112 = unat a"
proof -
  have "((((((unat a * 65536 + unat b) * 65536 + unat c) * 65536 + unat d) * 65536 + unat e) * 65536 + unat f) * 65536 + unat g) * 65536 + unat h
    = unat a * 2 ^ 112 + (unat b * 2 ^ 96 + unat c * 2 ^ 80 + unat d * 2 ^ 64 + unat e * 2 ^ 48 + unat f * 2 ^ 32 + unat g * 2 ^ 16 + unat h)"
    by simp
  moreover have "unat b * 2 ^ 96 + unat c * 2 ^ 80 + unat d * 2 ^ 64 + unat e * 2 ^ 48 + unat f * 2 ^ 32 + unat g * 2 ^ 16 + unat h < 2 ^ 112"
    using u16_lt [of b] u16_lt [of c] u16_lt [of d] u16_lt [of e] u16_lt [of f] u16_lt [of g] u16_lt [of h] by simp
  ultimately show ?thesis by simp
qed

lemma masked16:
  fixes a :: u16
  assumes "n < 16" "m = not (mask n)"
  shows "and a m = push_bit n (drop_bit n a)"
  unfolding assms(2) by (rule bit_eqI) (auto simp: bit_simps)

lemma masked_eq:
  fixes a b :: u16
  assumes "n < 16" "m = not (mask n)" "unat a div 2 ^ n = unat b div 2 ^ n"
  shows "and a m = and b m"
proof -
  have "unat (drop_bit n x) = unat x div 2 ^ n" for x :: u16 by (subst unsigned_drop_bit_eq) (simp add: drop_bit_eq_div take_bit_nat_eq_self u16_lt)
  then have "unat (drop_bit n a) = unat (drop_bit n b)" using assms(3) by simp
  then have "drop_bit n a = drop_bit n b" by (simp add: word_unat_eq_iff)
  then show ?thesis by (simp add: masked16 [OF assms(1,2)])
qed

lemma v6_internal_masks:
  fixes a :: u16
  shows "unat a div 2 ^ 9 = 0xfc00 div 2 ^ 9 \<Longrightarrow> and a 0xfe00 = 0xfc00"
    "unat a div 2 ^ 6 = 0xfe80 div 2 ^ 6 \<Longrightarrow> and a 0xffc0 = 0xfe80"
    "unat a div 2 ^ 8 = 0xff00 div 2 ^ 8 \<Longrightarrow> and a 0xff00 = 0xff00"
  using masked_eq [where n = 9 and m = "0xfe00" and a = a and b = "0xfc00"] masked_eq [where n = 6 and m = "0xffc0" and a = a and b = "0xfe80"]
    masked_eq [where n = 8 and m = "0xff00" and a = a and b = "0xff00"]
  by (simp_all add: mask_eq_exp_minus_1)


lemma in_prefix_mapped:
  assumes "x < 2 ^ 32" "y < 2 ^ 32" "n \<le> 32"
  shows "in_prefix (0xffff * 2 ^ 32 + x) (0xffff * 2 ^ 32 + y, 96 + n) \<longleftrightarrow> in_block x (y, n)"
proof -
  have "(0xffff * 2 ^ 32 + z) div 2 ^ (32 - n) = 0xffff * 2 ^ n + z div 2 ^ (32 - n)" for z :: nat
  proof -
    have "(2 :: nat) ^ 32 = 2 ^ n * 2 ^ (32 - n)" using assms(3) by (simp flip: power_add)
    then have "0xffff * 2 ^ 32 + z = (0xffff * 2 ^ n) * 2 ^ (32 - n) + z" by simp
    then show ?thesis by (metis add.commute div_mult_self1 power_not_zero zero_neq_numeral)
  qed
  then show ?thesis using assms(3) by (simp add: in_prefix_def in_block_def)
qed

lemma v4_number_lt: "v4_number a b c d < 2 ^ 32"
  using octet_lt [of a] octet_lt [of b] octet_lt [of c] octet_lt [of d] by (simp add: v4_number_def)

lemma mapped_number:
  assumes "to_ipv4_mapped (V6 a b c d e f g h) = Some (p, q, r, s)"
  shows "address_number (V6 a b c d e f g h) = address_number (V4 p q r s)"
proof -
  have o: "unat (high_octet x) * 256 + unat (low_octet x) = unat x" for x :: u16
    using u16_lt [of x] by (simp add: high_octet_def low_octet_def unsigned_ucast_eq take_bit_eq_mod unat_div)
  have "v4_number p q r s = unat g * 65536 + unat h"
    using assms o [of g] o [of h] by (auto simp: v4_number_def split: if_splits)
  then show ?thesis using assms by (auto split: if_splits)
qed

lemma seg_eq: "x * 65536 + unat s = x' * 65536 + unat s' \<longleftrightarrow> x = x' \<and> s = (s' :: u16)"
  by (simp only: base_eq [OF u16_lt u16_lt] word_unat_eq_iff)

lemma small_number:
  "address_number (V6 a b c d e f g h) = 0 \<Longrightarrow> (a, b, c, d, e, f, g, h) = (0, 0, 0, 0, 0, 0, 0, 0)"
  "address_number (V6 a b c d e f g h) = 1 \<Longrightarrow> (a, b, c, d, e, f, g, h) = (0, 0, 0, 0, 0, 0, 0, 1)"
  "address_number (V6 a b c d e f g h) div 2 ^ 32 = 0xffff \<Longrightarrow> (a, b, c, d, e, f) = (0, 0, 0, 0, 0, 0xffff)"
proof -
  let ?n = "(((((unat a * 65536 + unat b) * 65536 + unat c) * 65536 + unat d) * 65536 + unat e) * 65536 + unat f)"
  have n: "address_number (V6 a b c d e f g h) = (?n * 65536 + unat g) * 65536 + unat h" by simp
  show "address_number (V6 a b c d e f g h) = 0 \<Longrightarrow> (a, b, c, d, e, f, g, h) = (0, 0, 0, 0, 0, 0, 0, 0)"
    by (simp add: unat_eq_0)
  show "address_number (V6 a b c d e f g h) = 1 \<Longrightarrow> (a, b, c, d, e, f, g, h) = (0, 0, 0, 0, 0, 0, 0, 1)"
  proof -
    assume "address_number (V6 a b c d e f g h) = 1"
    then have "(?n * 65536 + unat g) * 65536 + unat h = 0 * 65536 + unat (1 :: u16)" using n by simp
    then have "?n * 65536 + unat g = 0" "h = 1" unfolding seg_eq by simp_all
    then show ?thesis by (simp add: unat_eq_0)
  qed
  show "address_number (V6 a b c d e f g h) div 2 ^ 32 = 0xffff \<Longrightarrow> (a, b, c, d, e, f) = (0, 0, 0, 0, 0, 0xffff)"
  proof -
    assume d: "address_number (V6 a b c d e f g h) div 2 ^ 32 = 0xffff"
    have "(?n * 65536 + unat g) * 65536 + unat h = ?n * 2 ^ 32 + (unat g * 65536 + unat h)" by simp
    moreover have "unat g * 65536 + unat h < 2 ^ 32" using u16_lt [of g] u16_lt [of h] by simp
    ultimately have "?n = 0 * 65536 + unat (0xffff :: u16)" using d unfolding n by simp
    then have "(((unat a * 65536 + unat b) * 65536 + unat c) * 65536 + unat d) * 65536 + unat e = 0" "f = 0xffff"
      unfolding seg_eq by simp_all
    then show ?thesis by (simp add: unat_eq_0)
  qed
qed

lemma internal4_lengths: "((p, q, r, s), n) \<in> set internal4_blocks \<Longrightarrow> n \<le> 32"
  by (auto simp: internal4_blocks_def)

lemma internal4_special: "((p, q, r, s), n) \<in> set internal4_blocks \<Longrightarrow> (v4_number p q r s, n) \<in> set special_blocks"
  unfolding internal4_blocks_def special_blocks_def by auto

lemma internal_v4:
  assumes "internal (V4 a b c d)"
  shows "\<not> v4_is_public a b c d"
proof -
  let ?x = "v4_number a b c d"
  have "\<not> list_ex (in_prefix (address_number (V4 a b c d))) internal6_blocks"
  proof -
    have "address_number (V4 a b c d) div 2 ^ k = 0" if "48 \<le> k" for k
    proof -
      have "address_number (V4 a b c d) < 2 ^ 48" using v4_number_lt [of a b c d] by simp
      also have "(2 :: nat) ^ 48 \<le> 2 ^ k" using that by (rule power_increasing) simp
      finally show ?thesis by simp
    qed
    from this [of 121] this [of 118] this [of 120] show ?thesis by (simp add: internal6_blocks_def in_prefix_def)
  qed
  then have "list_ex (\<lambda>((p, q, r, s), n). in_prefix (address_number (V4 a b c d)) (address_number (V4 p q r s), 96 + n)) internal4_blocks"
    using assms by (simp add: internal_def)
  moreover have "in_prefix (address_number (V4 a b c d)) (address_number (V4 p q r s), 96 + n) = in_block ?x (v4_number p q r s, n)"
    if "n \<le> 32" for p q r s n
    unfolding address_number.simps by (rule in_prefix_mapped [OF v4_number_lt v4_number_lt that])
  ultimately have "list_ex (in_block ?x) special_blocks"
    unfolding list_ex_iff using internal4_lengths internal4_special by fastforce
  then show ?thesis using v4_is_public_blocks by simp
qed

lemma internal_not_public: "internal a \<Longrightarrow> \<not> is_public a"
proof (cases a)
  case (V4 p q r s)
  then show "internal a \<Longrightarrow> \<not> is_public a" using internal_v4 by simp
next
  case v6: (V6 p q r s t u v w)
  assume i: "internal a"
  show "\<not> is_public a"
  proof (cases "to_ipv4_mapped a")
    case (Some m)
    obtain x y z k where m: "m = (x, y, z, k)" by (cases m) auto
    then have "address_number a = address_number (V4 x y z k)" using mapped_number Some v6 by simp
    then have "internal (V4 x y z k)" using i unfolding internal_def by simp
    then show ?thesis using internal_v4 Some m v6 by simp
  next
    case None
    have "\<not> in_prefix (address_number a) (address_number (V4 x y z k), 96 + n)" if "n \<le> 32" for x y z k n
    proof
      assume "in_prefix (address_number a) (address_number (V4 x y z k), 96 + n)"
      then have "address_number a div 2 ^ (32 - n) div 2 ^ n = address_number (V4 x y z k) div 2 ^ (32 - n) div 2 ^ n"
        by (simp add: in_prefix_def)
      then have "address_number a div 2 ^ 32 = address_number (V4 x y z k) div 2 ^ 32"
        using that by (simp add: div_mult2_eq [symmetric] flip: power_add)
      also have "\<dots> = 0xffff" using v4_number_lt [of x y z k] by simp
      finally show False using small_number(3) None v6 by simp
    qed
    then have "list_ex (in_prefix (address_number a)) internal6_blocks"
      using i internal4_lengths unfolding internal_def list_ex_iff by fastforce
    then consider "address_number a = 0" | "address_number a = 1" | "unat p div 2 ^ 9 = 0xfc00 div 2 ^ 9"
      | "unat p div 2 ^ 6 = 0xfe80 div 2 ^ 6" | "unat p div 2 ^ 8 = 0xff00 div 2 ^ 8"
    proof -
      have "address_number a div 2 ^ (112 + k) = unat p div 2 ^ k" for k
        using v6_first [of p q r s t u v w] unfolding v6 power_add div_mult2_eq by simp
      from this [of 9] this [of 6] this [of 8] show thesis
        using that \<open>list_ex (in_prefix (address_number a)) internal6_blocks\<close>
        by (auto simp: internal6_blocks_def in_prefix_def)
    qed
    then show ?thesis
    proof cases
      case 1
      have "(p, q, r, s, t, u, v, w) = (0, 0, 0, 0, 0, 0, 0, 0)" using 1 unfolding v6 by (rule small_number(1))
      then show ?thesis using v6 by simp
    next
      case 2
      have "(p, q, r, s, t, u, v, w) = (0, 0, 0, 0, 0, 0, 0, 1)" using 2 unfolding v6 by (rule small_number(2))
      then show ?thesis using v6 by simp
    next
      case 3
      then show ?thesis using v6_internal_masks(1) None v6 by simp
    next
      case 4
      then show ?thesis using v6_internal_masks(2) None v6 by simp
    next
      case 5
      then show ?thesis using v6_internal_masks(3) None v6 by simp
    qed
  qed
qed

text \<open>C33: Unless insecure requests are allowed, the transport leaves the network alone except for a request to
  an \<open>https\<close> URL whose host is a name, and names are resolved only to addresses that the system's
  lookup gave and that are not internal: not loopback, private, shared, link-local, unique-local, multicast or
  unspecified, in IPv4, in IPv6, or as an IPv4-mapped IPv6 address. If none is left the lookup fails.\<close>

theorem outbound_guarded:
  "(snd (http_post_didcomm C False url text n) = n
     \<or> (\<exists>u d. hc_parse C url = Some u \<and> url_scheme u = ''https'' \<and> url_host_of u = Some (Domain d)
         \<and> snd (http_post_didcomm C False url text n) = snd (hc_post C (url_text u) ENCRYPTED text n)))
   \<and> (snd (http_get_json C False url n) = n
     \<or> (\<exists>u d. hc_parse C url = Some u \<and> url_scheme u = ''https'' \<and> url_host_of u = Some (Domain d)
         \<and> snd (http_get_json C False url n) = snd (hc_get C (url_text u) n)))
   \<and> (case resolve_public host found of
        Inl e \<Rightarrow> True
      | Inr addrs \<Rightarrow> addrs \<noteq> [] \<and> list_all (\<lambda>a. \<not> internal a) addrs \<and> (\<exists>all. found = Inr all \<and> set addrs \<subseteq> set all))"
proof -
  have checked: "\<exists>d. hc_parse C url = Some u \<and> url_scheme u = ''https'' \<and> url_host_of u = Some (Domain d)"
    if "check_url C False url = Inr u" for u
    using that by (auto simp: check_url_def split: option.splits if_splits url_host.splits)
  have "snd (http_post_didcomm C False url text n) = n \<or> (\<exists>u. check_url C False url = Inr u
      \<and> snd (http_post_didcomm C False url text n) = snd (hc_post C (url_text u) ENCRYPTED text n))"
    by (auto simp: http_post_didcomm_def split: sum.splits prod.splits)
  moreover have "snd (http_get_json C False url n) = n \<or> (\<exists>u. check_url C False url = Inr u
      \<and> snd (http_get_json C False url n) = snd (hc_get C (url_text u) n))"
    by (auto simp: http_get_json_def split: sum.splits prod.splits)
  moreover have "case resolve_public host found of
        Inl e \<Rightarrow> True
      | Inr addrs \<Rightarrow> addrs \<noteq> [] \<and> list_all (\<lambda>a. \<not> internal a) addrs \<and> (\<exists>all. found = Inr all \<and> set addrs \<subseteq> set all)"
    using internal_not_public by (cases found) (auto simp: resolve_public_def Let_def list_all_iff split: if_splits)
  ultimately show ?thesis using checked by blast
qed

end
