(* ===== verification/Oob.thy ===== *)
theory Oob
  imports Mediator
begin

text \<open>
  The Out-of-Band invitation of the mediator, \<open>crates/mediator/src/oob.rs\<close>: the message, its two
  URLs, and the page a browser shows.
\<close>

definition INVITATION :: string where
  "INVITATION = ''https://didcomm.org/out-of-band/2.0/invitation''"

definition OOB_PATH :: string where
  "OOB_PATH = ''/oob''"

definition WALLET_SCHEME :: string where
  "WALLET_SCHEME = ''almena''"

definition GOAL_CODE :: string where
  "GOAL_CODE = ''request-mediate''"

text \<open>\<open>{b:02x}\<close>.\<close>

definition hex2 :: "char \<Rightarrow> string" where
  "hex2 b = (let c = (\<lambda>d :: nat. char_of (if d < 10 then 48 + d else 87 + d))
     in [c (of_char b div 16), c (of_char b mod 16)])"

text \<open>\<open>Message::new\<close> draws an id and reads the clock; both are replaced.\<close>

definition invitation :: "ext \<Rightarrow> identity \<Rightarrow> message" where
  "invitation X i =
     (let body = JObj [(''goal_code'', JStr GOAL_CODE),
            (''goal'', JStr ''Use this mediator for your DIDComm messages''),
            (''accept'', JArr [JStr ''didcomm/v2''])];
          iid = concat (map hex2 (take 16 (sha256 X (id_did i))))
      in (set_from (id_did i) (message_new [] 0 INVITATION body))\<lparr>m_id := iid, m_created_time := None\<rparr>)"

definition oob_encode :: "ext \<Rightarrow> message \<Rightarrow> string" where
  "oob_encode X m = b64_encode X (json_print X (se_message m))"

definition invitation_url :: "ext \<Rightarrow> string \<Rightarrow> message \<Rightarrow> string" where
  "invitation_url X public_url m = public_url @ OOB_PATH @ ''?_oob='' @ oob_encode X m"

definition wallet_url :: "ext \<Rightarrow> message \<Rightarrow> string" where
  "wallet_url X m = WALLET_SCHEME @ '':/'' @ OOB_PATH @ ''?_oob='' @ oob_encode X m"

section \<open>The page\<close>

definition DQUOTE :: string where
  "DQUOTE = [char_of (34 :: nat)]"

definition html_escape :: "string \<Rightarrow> string" where
  "html_escape s =
     replace DQUOTE ''&quot;'' (replace ''>'' ''&gt;'' (replace ''<'' ''&lt;'' (replace ''&'' ''&amp;'' s)))"

text \<open>The lines of the page around the link and the DID.\<close>

definition lines_of :: "string list \<Rightarrow> string" where
  "lines_of ls = concat (map (\<lambda>l. l @ [char_of (10 :: nat)]) ls)"

definition quoted_attr :: "string \<Rightarrow> string \<Rightarrow> string" where
  "quoted_attr name v = name @ ''='' @ DQUOTE @ v @ DQUOTE"

definition oob_page :: "string \<Rightarrow> string \<Rightarrow> string" where
  "oob_page did url = lines_of [
     ''<!doctype html>'',
     ''<html '' @ quoted_attr ''lang'' ''en'' @ ''>'',
     ''<head><meta '' @ quoted_attr ''charset'' ''utf-8'' @ ''><meta '' @ quoted_attr ''name'' ''viewport'' @ '' ''
       @ quoted_attr ''content'' ''width=device-width, initial-scale=1'' @ ''>'',
     ''<title>Almena mediator</title>'',
     ''<style>body{font-family:system-ui,sans-serif;max-width:40rem;margin:3rem auto;padding:0 1rem;line-height:1.5}''
       @ ''code{word-break:break-all}</style></head>'',
     ''<body>'',
     ''<h1>Almena mediator</h1>'',
     ''<p>This is an invitation to use this mediator on Almena Network.'',
     ''Open it in the Almena wallet, or scan its QR code with the wallet.</p>'',
     ''<p><a '' @ quoted_attr ''href'' (html_escape url) @ ''>Open in Almena wallet</a></p>'',
     ''<p>Mediator DID: <code>'' @ html_escape did @ ''</code></p>'',
     ''</body></html>'']"

section \<open>What a wallet reads\<close>

text \<open>The \<open>_oob\<close> parameter of both URLs is the invitation: whoever decodes it has the message back, and
  with it the mediator's DID. It does not depend on the clock or on drawn numbers.\<close>

lemma invitation_ok: "message_ok (invitation X i)"
  by (simp add: invitation_def Let_def message_ok_def value_ok_def message_new_def set_from_def)

lemma invitation_decodes:
  assumes "text_laws X"
  shows "bind_res (b64_decode X (oob_encode X (invitation X i))) (from_str_as X de_message) = Inr (invitation X i)"
    and "m_from (invitation X i) = Some (id_did i)"
  using assms message_round_trip_value [OF invitation_ok] message_value_ok [OF invitation_ok]
  by (simp_all add: oob_encode_def value_ok_def)
    (simp add: invitation_def Let_def set_from_def message_new_def)

text \<open>Escaped text cannot leave an attribute or open a tag.\<close>

lemma replace_single: "replace [c] r s = concat (map (\<lambda>x. if x = c then r else [x]) s)"
  by (induction s) (simp_all add: replace_def starts_with_def)

lemma set_replace_single:
  "x \<in> set (replace [c] r s) \<Longrightarrow> x \<in> set r \<or> x \<in> set s \<and> x \<noteq> c"
  by (auto simp: replace_single split: if_splits)

lemma html_escape_safe:
  "CHR ''<'' \<notin> set (html_escape s) \<and> CHR ''>'' \<notin> set (html_escape s) \<and> char_of (34 :: nat) \<notin> set (html_escape s)"
proof -
  have "x \<in> set ''&quot;'' \<or> x \<in> set ''&gt;'' \<or> x \<in> set ''&lt;'' \<or> x \<in> set ''&amp;''
      \<or> x \<noteq> char_of (34 :: nat) \<and> x \<noteq> CHR ''>'' \<and> x \<noteq> CHR ''<''"
    if "x \<in> set (html_escape s)" for x
    using that unfolding html_escape_def DQUOTE_def by (blast dest: set_replace_single)
  moreover have "char_of (34 :: nat) = CHR 0x22" by (simp add: char_of_eq_iff)
  ultimately show ?thesis by fastforce
qed

end
