(* ===== verification/Routes.thy ===== *)
theory Routes
  imports Dispatch Outbound Oob
begin

text \<open>
  The HTTP and WebSocket endpoints, \<open>crates/mediator/src/routes.rs\<close>: who a client is, how often it
  may send, what a request is answered with, and the loop of a WebSocket session. Routing,
  header parsing and the socket are axum's; a request is its headers, the peer's address and the
  body, a socket a list of what happens on it.
\<close>

section \<open>Requests and responses\<close>

text \<open>A \<open>HeaderMap\<close> as the list of its (lowercase) names and values, in order.\<close>

type_synonym header_map = "(string \<times> bytes) list"

record response =
  rp_status :: nat
  rp_headers :: "(string \<times> string) list"
  rp_body :: string

record ('n, 's) app_state =
  as_mediator :: "('n, 's) mediator"
  as_rate_limit :: u64
  as_client_ip_header :: "string option"
  as_public_url :: string

definition CONTENT_TYPE :: string where
  "CONTENT_TYPE = ''content-type''"

text \<open>\<open>HeaderValue::to_str\<close>: visible ASCII, spaces and tabs only.\<close>

definition to_str :: "bytes \<Rightarrow> string option" where
  "to_str v = (if list_all (\<lambda>c. let b = of_char c :: nat in 32 \<le> b \<and> b < 127 \<or> b = 9) v then Some v else None)"

definition header_values :: "string \<Rightarrow> header_map \<Rightarrow> bytes list" where
  "header_values name hs = map snd (filter (\<lambda>(n, _). n = name) hs)"

definition plain_response :: "nat \<Rightarrow> response" where
  "plain_response code = \<lparr>rp_status = code, rp_headers = [], rp_body = []\<rparr>"

definition error_response :: "ext \<Rightarrow> nat \<Rightarrow> string \<Rightarrow> response" where
  "error_response X code text = \<lparr>rp_status = code, rp_headers = [(CONTENT_TYPE, ''application/json'')],
     rp_body = json_print X (JObj [(''error'', JStr text)])\<rparr>"

definition eq_ignore_ascii_case :: "string \<Rightarrow> string \<Rightarrow> bool" where
  "eq_ignore_ascii_case s t \<longleftrightarrow> to_ascii_lowercase s = to_ascii_lowercase t"

definition is_media_type :: "header_map \<Rightarrow> string \<Rightarrow> bool" where
  "is_media_type hs expected =
     (case header_values CONTENT_TYPE hs of
        [] \<Rightarrow> False
      | v # _ \<Rightarrow>
          (case to_str v of
             None \<Rightarrow> False
           | Some t \<Rightarrow> eq_ignore_ascii_case (trim (hd (split (CHR '';'') t))) expected))"

section \<open>Who the client is, and its rate limit\<close>

text \<open>The last address in the configured proxy header, else the TCP peer.\<close>

definition header_addresses :: "string \<Rightarrow> header_map \<Rightarrow> ip list" where
  "header_addresses name hs =
     List.map_filter (\<lambda>v. parse_ip (trim v))
       (concat (map (split (CHR '','')) (List.map_filter to_str (header_values name hs))))"

definition client_ip :: "header_map \<Rightarrow> string option \<Rightarrow> socket_addr option \<Rightarrow> ip option" where
  "client_ip hs header_name peer =
     (case header_name of
        Some name \<Rightarrow> (case rev (header_addresses name hs) of [] \<Rightarrow> None | a # _ \<Rightarrow> Some a)
      | None \<Rightarrow> map_option sa_ip peer)"

definition RATE_WINDOW_SECS :: u64 where
  "RATE_WINDOW_SECS = 60"

definition over_limit :: "('n, 's) app_state \<Rightarrow> u64 \<Rightarrow> ip option \<Rightarrow> (('n, 's) world, 'e, bool) act" where
  "over_limit app now ip =
     (case ip of
        None \<Rightarrow> return_act False
      | Some a \<Rightarrow>
          if as_rate_limit app = 0 then return_act False
          else
            bind_act (catch_act (on_store (hit (md_store (as_mediator app)) (''didcomm:'' @ show_ip a) RATE_WINDOW_SECS now))) (\<lambda>r.
            case r of
              Inr hits \<Rightarrow>
                if as_rate_limit app < hits then bind_act (count count_rate_limited) (\<lambda>_. return_act True)
                else return_act False
            | Inl _ \<Rightarrow> return_act False))"

definition too_many_requests :: response where
  "too_many_requests = \<lparr>rp_status = 429, rp_headers = [(''retry-after'', show_u64 RATE_WINDOW_SECS)], rp_body = []\<rparr>"

section \<open>POST /didcomm\<close>

text \<open>What a sender learns about a rejected envelope.\<close>

fun client_message :: "error \<Rightarrow> string" where
  "client_message (SecretNotFound _) = ''the message is not encrypted for this mediator''"
| "client_message (DidNotFound _) = ''the sender's DID or key could not be resolved''"
| "client_message (DidUrlNotFound _) = ''the sender's DID or key could not be resolved''"
| "client_message (Crypto _) = ''the message could not be decrypted or verified''"
| "client_message (Inconsistent _) = ''the message's envelopes and headers do not agree''"
| "client_message (Unsupported _) = ''the message uses an unsupported algorithm or DID method''"
| "client_message _ = ''the message is not a valid DIDComm message''"

text \<open>The answer to each result of \<open>Mediator::receive\<close>.\<close>

fun receive_response :: "ext \<Rightarrow> receive_error + outcome \<Rightarrow> response" where
  "receive_response X (Inr Accepted) = plain_response 202"
| "receive_response X (Inr (OutcomeReply reply)) =
     \<lparr>rp_status = 200, rp_headers = [(CONTENT_TYPE, ENCRYPTED)], rp_body = reply\<rparr>"
| "receive_response X (Inl (UnpackError e)) = error_response X 400 (client_message e)"
| "receive_response X (Inl (BadForward e)) = error_response X 400 (''invalid forward: '' @ e)"
| "receive_response X (Inl UnknownRecipient) =
     error_response X 404 ''the forward's next recipient is not mediated here''"
| "receive_response X (Inl QueueFull) = error_response X 507 ''the recipient's queue is full''"
| "receive_response X (Inl (StoreError _)) = error_response X 503 ''storage unavailable, retry later''"

definition http_receive ::
  "('n, 's) app_state \<Rightarrow> u64 \<Rightarrow> socket_addr option \<Rightarrow> header_map \<Rightarrow> bytes \<Rightarrow> (('n, 's) world, 'e, response) act" where
  "http_receive app now peer hs body =
     (let X = md_ext (as_mediator app) in
      bind_act (over_limit app now (client_ip hs (as_client_ip_header app) peer)) (\<lambda>over.
      if over then return_act too_many_requests
      else if \<not> is_media_type hs ENCRYPTED
      then return_act (error_response X 415 (''Content-Type must be '' @ ENCRYPTED))
      else case from_utf8 body of
          None \<Rightarrow> return_act (error_response X 400 ''the body is not UTF-8'')
        | Some text \<Rightarrow>
            bind_act (catch_act (receive (as_mediator app) now text)) (\<lambda>r.
            return_act (receive_response X r))))"

text \<open>The body limit of the router comes first; an HTTP request has no session.\<close>

definition post_didcomm ::
  "('n, 's) app_state \<Rightarrow> u64 \<Rightarrow> socket_addr option \<Rightarrow> header_map \<Rightarrow> bytes \<Rightarrow> (('n, 's) world, 'e, response) act" where
  "post_didcomm app now peer hs body w =
     (if lm_max_message_bytes (md_limits (as_mediator app)) < length body then (Inr (plain_response 413), w)
      else http_receive app now peer hs body (w\<lparr>w_session := None\<rparr>))"

section \<open>Health and the DID document\<close>

definition health :: "('n, 's) app_state \<Rightarrow> string \<Rightarrow> (('n, 's) world, 'e, nat \<times> json) act" where
  "health app version =
     bind_act (catch_act (on_store (ping (md_store (as_mediator app))))) (\<lambda>r.
     let healthy = (case r of Inr _ \<Rightarrow> True | Inl _ \<Rightarrow> False) in
     return_act (if healthy then 200 else 503,
       JObj [(''status'', JStr (if healthy then ''ok'' else ''degraded'')),
         (''service'', JStr ''almena-mediator''), (''version'', JStr version),
         (''did'', JStr (id_did (md_identity (as_mediator app)))),
         (''storage'', JStr (if healthy then ''ok'' else ''unavailable'')),
         (''storage_kind'', JStr (kind (md_store (as_mediator app))))]))"

definition well_known_did :: "('n, 's) app_state \<Rightarrow> json" where
  "well_known_did app = doc_to_json (md_ext (as_mediator app)) (id_document (md_identity (as_mediator app)))"

text \<open>The invitation and the page its URL opens. \<open>to_value\<close> cannot fail on a message.\<close>

definition get_invitation :: "('n, 's) app_state \<Rightarrow> json" where
  "get_invitation app =
     (let X = md_ext (as_mediator app); inv = invitation X (md_identity (as_mediator app))
      in JObj [(''invitation'', se_message inv), (''url'', JStr (invitation_url X (as_public_url app) inv))])"

definition invitation_page :: "('n, 's) app_state \<Rightarrow> string" where
  "invitation_page app =
     (let X = md_ext (as_mediator app); i = md_identity (as_mediator app)
      in oob_page (id_did i) (wallet_url X (invitation X i)))"

section \<open>The WebSocket session\<close>

text \<open>What the loop can wake up to: a frame of the client, the end of the socket, or a push in the
  session's channel. The truth value says whether the socket still takes what is sent to it.\<close>

datatype ws_event =
    FrameText string
  | FrameBinary bytes
  | FramePing
  | FramePong
  | FrameEnd
  | PushReady

datatype ws_out = OutText string | OutClose nat string

text \<open>What the iteration does with the text of a frame: whether the loop goes on, and what is sent.\<close>

definition ws_text ::
  "('n, 's) app_state \<Rightarrow> u64 \<Rightarrow> ip option \<Rightarrow> string \<Rightarrow> bool \<Rightarrow> (('n, 's) world, 'e, bool \<times> ws_out list) act" where
  "ws_text app now ip text alive =
     bind_act (over_limit app now ip) (\<lambda>over.
     if over then return_act (False, [OutClose 1008 ''rate limit''])
     else
       bind_act (catch_act (receive (as_mediator app) now text)) (\<lambda>r.
       return_act (case r of
           Inr (OutcomeReply reply) \<Rightarrow> (alive, [OutText reply])
         | _ \<Rightarrow> (True, []))))"

definition ws_push :: "('n, 's) app_state \<Rightarrow> u64 \<Rightarrow> bool \<Rightarrow> (('n, 's) world, 'e, bool \<times> ws_out list) act" where
  "ws_push app now alive w =
     (case w_session w of
        None \<Rightarrow> (Inr (True, []), w)
      | Some s \<Rightarrow>
          (case recv (ss_id s) (w_hub w) of
             (None, _) \<Rightarrow> (Inr (True, []), w)
           | (Some q, h) \<Rightarrow>
               bind_act (live_delivery (as_mediator app) now s q) (\<lambda>d.
               return_act (case d of Some t \<Rightarrow> (alive, [OutText t]) | None \<Rightarrow> (True, []))) (w\<lparr>w_hub := h\<rparr>)))"

fun ws_event_step ::
  "('n, 's) app_state \<Rightarrow> u64 \<Rightarrow> ip option \<Rightarrow> ws_event \<Rightarrow> bool \<Rightarrow> (('n, 's) world, 'e, bool \<times> ws_out list) act" where
  "ws_event_step app now ip (FrameText t) alive = ws_text app now ip t alive"
| "ws_event_step app now ip (FrameBinary b) alive =
     (case from_utf8 b of Some t \<Rightarrow> ws_text app now ip t alive | None \<Rightarrow> return_act (True, []))"
| "ws_event_step app now ip FramePing alive = return_act (True, [])"
| "ws_event_step app now ip FramePong alive = return_act (True, [])"
| "ws_event_step app now ip FrameEnd alive = return_act (False, [])"
| "ws_event_step app now ip PushReady alive = ws_push app now alive"

text \<open>The loop, over what happens on the socket and when; between two iterations other connections
  may queue messages, which reach the hub (\<open>Elsewhere\<close>).\<close>

datatype ws_turn = Turn u64 ws_event bool | Elsewhere string queued

fun ws_loop :: "('n, 's) app_state \<Rightarrow> ip option \<Rightarrow> ws_turn list \<Rightarrow> (('n, 's) world, 'e, ws_out list) act" where
  "ws_loop app ip [] = return_act []"
| "ws_loop app ip (Elsewhere m q # ts) = bind_act (hub_notify m q) (\<lambda>_. ws_loop app ip ts)"
| "ws_loop app ip (Turn now e alive # ts) =
     bind_act (ws_event_step app now ip e alive) (\<lambda>(go, out).
     if go then bind_act (ws_loop app ip ts) (\<lambda>rest. return_act (out @ rest))
     else return_act out)"

text \<open>The session is closed when the loop is over, and its receiver dropped.\<close>

definition ws_close :: "(('n, 's) world, 'e, unit) act" where
  "ws_close w =
     (case w_session w of
        None \<Rightarrow> (Inr (), w)
      | Some s \<Rightarrow>
          (case (close_session s :: (('n, 's) world, 'e, session) act) w of
             (_, w) \<Rightarrow> (Inr (), w\<lparr>w_session := None, w_hub := drop_receiver (ss_id s) (w_hub w)\<rparr>)))"

definition websocket_session ::
  "('n, 's) app_state \<Rightarrow> ip option \<Rightarrow> ws_turn list \<Rightarrow> (('n, 's) world, 'e, ws_out list) act" where
  "websocket_session app ip turns =
     bind_act open_session (\<lambda>_.
     bind_act (ws_loop app ip turns) (\<lambda>out.
     bind_act ws_close (\<lambda>_. return_act out)))"

text \<open>The upgrade itself counts as a message of the client.\<close>

definition websocket ::
  "('n, 's) app_state \<Rightarrow> u64 \<Rightarrow> socket_addr option \<Rightarrow> header_map \<Rightarrow> ws_turn list
     \<Rightarrow> (('n, 's) world, 'e, response + ws_out list) act" where
  "websocket app now peer hs turns =
     (let ip = client_ip hs (as_client_ip_header app) peer in
      bind_act (over_limit app now ip) (\<lambda>over.
      if over then return_act (Inl too_many_requests)
      else bind_act (websocket_session app ip turns) (\<lambda>out. return_act (Inr out))))"

end
