(* ===== verification/Effects.thy ===== *)
theory Effects
  imports Isolation Routes
begin

text \<open>
  What \<open>Mediator::receive\<close> can do to the world, once for all guarantees: the locale \<open>effects\<close> lists
  the elementary changes a handler is made of, and concludes that receiving a message is one of the
  allowed changes whenever these are. It is interpreted for two guarantees, that the hub keeps
  agreeing with the open sessions and that a message never changes the counts of the rate limit.
\<close>

section \<open>The elementary changes\<close>

text \<open>The storage operations handlers use. Rate limiting, retries, wake-ups and the clean-up have
  their own.\<close>

inductive handler_store :: "'s store_ops \<Rightarrow> 's \<Rightarrow> 's \<Rightarrow> bool" for ops where
  "handler_store ops s (snd (grant_mediation ops m t s))"
| "handler_store ops s (snd (touch_mediation ops m t s))"
| "handler_store ops s (snd (has_mediation ops m s))"
| "handler_store ops s (snd (store_ops.add_recipient ops m r mx s))"
| "handler_store ops s (snd (store_ops.remove_recipient ops m r s))"
| "handler_store ops s (snd (recipients ops m s))"
| "handler_store ops s (snd (mediation_of ops r s))"
| "handler_store ops s (snd (enqueue ops m r p t lims s))"
| "handler_store ops s (snd (summary ops m ro t ttl s))"
| "handler_store ops s (snd (peek ops m ro n t ttl s))"
| "handler_store ops s (snd (remove ops m is s))"
| "handler_store ops s (snd (schedule_relay ops rel due n s))"
| "handler_store ops s (snd (set_device ops m sv dev s))"
| "handler_store ops s (snd (devices ops m s))"
| "handler_store ops s (snd (release_push ops m t u s))"

locale effects = guarantee \<rho>
  for \<rho> :: "('n, 's) world \<Rightarrow> ('n, 's) world \<Rightarrow> bool" and ops :: "'s store_ops" +
  assumes node: "node_only w w' \<Longrightarrow> \<rho> w w'"
    and net: "\<rho> w (w\<lparr>resolver_state := rs\<rparr>)"
    and metered: "\<rho> w (w\<lparr>w_metrics := ms\<rparr>)"
    and spawned: "\<rho> w (w\<lparr>w_tasks := ts\<rparr>)"
    and notified: "\<rho> w (w\<lparr>w_hub := notify m q (w_hub w)\<rparr>)"
    and enabled: "w_session w = Some s \<Longrightarrow> hub_enable s m (w_hub w) = (s', h) \<Longrightarrow>
      \<rho> w (w\<lparr>w_session := Some s', w_hub := h\<rparr>)"
    and disabled: "w_session w = Some s \<Longrightarrow> hub_disable s (w_hub w) = (s', h) \<Longrightarrow>
      \<rho> w (w\<lparr>w_session := Some s', w_hub := h\<rparr>)"
    and stored: "handler_store ops (w_store w) st \<Longrightarrow> \<rho> w (w\<lparr>w_store := st\<rparr>)"
begin

lemma on_store_steps: "(\<And>s. handler_store ops s (snd (f s))) \<Longrightarrow> steps \<rho> (on_store f)"
  unfolding steps_def on_store_def split_beta snd_conv using stored by blast

lemmas store_steps = handler_store.intros [THEN on_store_steps]

lemma node_steps:
  fixes m :: "(('n, 's) world, 'e, 'a) act"
  shows "steps node_only m \<Longrightarrow> steps \<rho> m"
  by (erule steps_weaken) (rule node)

lemma basic:
  "steps \<rho> (on_net f)" "steps \<rho> (count g)" "steps \<rho> (spawn t)" "steps \<rho> (hub_notify m q)"
  "steps \<rho> session_get" "steps \<rho> is_websocket"
  by (simp_all add: steps_def on_net_def count_def spawn_def hub_notify_def session_get_def is_websocket_def
      net metered spawned notified refl split_beta)

lemma wake: "steps \<rho> (md_wake md mediation)"
  unfolding steps_def md_wake_def
  by (simp add: spawn_def spawned refl split: option.split)

lemmas base = rules basic wake node_only_actions [THEN node_steps] store_steps

section \<open>Handlers\<close>

lemma recipient_update_steps:
  assumes "md_store md = ops"
  shows "steps \<rho> (recipient_update md t requester update)"
  unfolding recipient_update_def update_result_def check_proof_def Let_def assms
  by (intro base)

lemma mediation_steps:
  assumes "md_store md = ops"
  shows "steps \<rho> (mediation_handle md t requester m)"
  unfolding mediation_handle_def Let_def assms
  by (intro base recipient_update_steps assms)

lemma status_steps:
  assumes "md_store md = ops"
  shows "steps \<rho> (status md now mediation r request live)"
  unfolding status_def assms by (intro base)

lemma picked_up_steps:
  assumes "md_store md = ops"
  shows "steps \<rho> (picked_up md t mediation)"
  unfolding picked_up_def assms by (intro base)

lemma json_member:
  fixes f :: "string \<Rightarrow> (('n, 's) world, string, 'a) act"
  assumes "\<And>did. steps \<rho> (f did)"
  shows "steps \<rho> (case v of JNull \<Rightarrow> return_act a | JStr did \<Rightarrow> f did | JBool b \<Rightarrow> return_act c | JNum i \<Rightarrow> return_act c
    | JArr l \<Rightarrow> return_act c | JObj l' \<Rightarrow> return_act c)"
  using assms by (cases v) (auto simp del: return_act_apply intro: pure)

lemma pickup_recipient_steps:
  assumes "md_store md = ops"
  shows "steps \<rho> (pickup_recipient md requester m)"
  unfolding pickup_recipient_def assms by (intro base json_member)

text \<open>Live mode is changed for the session of the world the handler runs in.\<close>

lemma at_bind:
  assumes "\<rho> w (snd (m w))" "\<And>a. steps \<rho> (f a)"
  shows "\<rho> w (snd (bind_act m f w))"
proof (cases "m w")
  case (Pair r w1)
  then show ?thesis
    using assms(1) trans [OF assms(1)] assms(2) by (cases r) (simp_all add: bind_act_def steps_def)
qed

lemma live_change_steps:
  fixes f :: "unit \<Rightarrow> (('n, 's) world, 'e, 'a) act"
  assumes "w_session w = Some s" "\<And>a. steps \<rho> (f a)"
  shows "\<rho> w (snd (bind_act (session_enable s r) f w))" "\<rho> w (snd (bind_act (session_disable s) f w))"
proof -
  have "\<rho> w (snd ((session_enable s r :: (('n, 's) world, 'e, unit) act) w))"
    by (simp add: session_enable_def split_beta enabled [OF assms(1)])
  then show "\<rho> w (snd (bind_act (session_enable s r) f w))" by (rule at_bind [OF _ assms(2)])
  have "\<rho> w (snd ((session_disable s :: (('n, 's) world, 'e, unit) act) w))"
    by (simp add: session_disable_def split_beta disabled [OF assms(1)])
  then show "\<rho> w (snd (bind_act (session_disable s) f w))" by (rule at_bind [OF _ assms(2)])
qed

lemma at: "steps \<rho> m \<Longrightarrow> \<rho> w (snd (m w))"
  by (simp add: steps_def)

lemma pickup_type_at:
  assumes "md_store md = ops"
  shows "\<rho> w (snd (pickup_type md now requester m r (w_session w) w))"
proof (cases "m_type m = LIVE_DELIVERY_CHANGE \<and> m_type m \<noteq> STATUS_REQUEST \<and> m_type m \<noteq> DELIVERY_REQUEST
    \<and> m_type m \<noteq> MESSAGES_RECEIVED")
  case True
  then have t: "m_type m \<noteq> STATUS_REQUEST" "m_type m \<noteq> DELIVERY_REQUEST" "m_type m \<noteq> MESSAGES_RECEIVED"
    "m_type m = LIVE_DELIVERY_CHANGE" by blast+
  have live: "\<rho> w (snd ((case Option.bind (jget ''live_delivery'' (m_body m)) as_bool of
           None \<Rightarrow> return_act (HProblem InvalidBody)
         | Some wanted \<Rightarrow>
             (case (wanted, w_session w) of
                (True, None) \<Rightarrow> return_act (HProblem LiveModeNotSupported)
              | (True, Some s) \<Rightarrow>
                  bind_act (session_enable s requester) (\<lambda>_. status md now requester r m True)
              | (False, Some s) \<Rightarrow>
                  bind_act (session_disable s) (\<lambda>_. status md now requester r m False)
              | (False, None) \<Rightarrow> status md now requester r m False)) w))"
    by (cases "Option.bind (jget ''live_delivery'' (m_body m)) as_bool"; cases "w_session w")
      (auto simp: refl intro!: live_change_steps status_steps [OF assms] at [OF status_steps [OF assms]] split: bool.split)
  show ?thesis unfolding pickup_type_def Let_def if_not_P [OF t(1)] if_not_P [OF t(2)] if_not_P [OF t(3)] if_P [OF t(4)]
    by (rule live)
next
  case False
  have n: "m_type m = STATUS_REQUEST \<or> m_type m = DELIVERY_REQUEST \<or> m_type m = MESSAGES_RECEIVED
      \<or> m_type m \<noteq> LIVE_DELIVERY_CHANGE" using False by blast
  have s: "steps \<rho> (if m_type m = LIVE_DELIVERY_CHANGE then x else y)"
    if "m_type m \<noteq> STATUS_REQUEST" "m_type m \<noteq> DELIVERY_REQUEST" "m_type m \<noteq> MESSAGES_RECEIVED" "steps \<rho> y"
    for x y :: "(('n, 's) world, string, handled) act"
    using n that by simp
  show ?thesis
    unfolding pickup_type_def Let_def assms
    by (rule at) (intro rules(1-6) s base status_steps assms)
qed

lemma pickup_steps:
  assumes "md_store md = ops"
  shows "steps \<rho> (pickup_handle md now requester m)"
proof -
  have g: "steps \<rho> (bind_act session_get (\<lambda>session. pickup_type md now requester m r session))" for r
    using pickup_type_at [OF assms] by (simp add: steps_def bind_act_def session_get_def)
  show ?thesis unfolding pickup_handle_def assms
    by (intro g base picked_up_steps pickup_recipient_steps assms)
qed

lemma devices_steps:
  assumes "md_store md = ops"
  shows "steps \<rho> (devices_handle md t requester m)"
  unfolding devices_handle_def Let_def assms by (intro base)

lemma queue_steps:
  assumes "md_store md = ops"
  shows "steps \<rho> (queue_message md now mediation r payload)"
  unfolding queue_message_def assms by (intro base)

lemma relay_steps:
  assumes "md_store md = ops"
  shows "steps \<rho> (relay md t nxt payloads)"
  unfolding relay_def relay_one_def deliver_def assms by (intro base)

lemma forward_steps:
  assumes "md_store md = ops"
  shows "steps \<rho> (forward md now m)"
  unfolding forward_def Let_def assms
  by (intro base relay_steps queue_steps assms)

lemma pack_reply_steps: "steps \<rho> (pack_reply md t reply recipient fwd)"
  unfolding pack_reply_def Let_def by (intro base)

lemma send_reply_steps:
  assumes "md_store md = ops"
  shows "steps \<rho> (send_reply md now reply sender)"
  unfolding send_reply_def Let_def assms
  by (intro base pack_reply_steps queue_steps assms)

lemma route_back_steps:
  assumes "md_store md = ops"
  shows "steps \<rho> (route_back md now request reply ws auth)"
  unfolding route_back_def by (intro base pack_reply_steps send_reply_steps assms)

lemma wallet_steps:
  assumes "md_store md = ops"
  shows "steps \<rho> (wallet_handle md now req m)"
  unfolding wallet_handle_def assms
  by (intro base pickup_steps mediation_steps devices_steps assms)

lemma dispatch_steps:
  assumes "md_store md = ops"
  shows "steps \<rho> (dispatch md now req m)"
  unfolding dispatch_def Let_def by (intro base forward_steps wallet_steps assms)

lemma handled_cases:
  fixes f :: "message \<Rightarrow> (('n, 's) world, 'e, 'a) act" and g :: "problem \<Rightarrow> (('n, 's) world, 'e, 'a) act"
  assumes "\<And>r. steps \<rho> (f r)" "\<And>p. steps \<rho> (g p)"
  shows "steps \<rho> (case h of HNothing \<Rightarrow> return_act x | HReply r \<Rightarrow> f r | HProblem p \<Rightarrow> g p)"
  using assms by (cases h) (auto simp del: return_act_apply intro: pure)

lemma handle_steps:
  assumes "md_store md = ops"
  shows "steps \<rho> (handle md now packed)"
  unfolding handle_def by (intro base handled_cases dispatch_steps route_back_steps assms)

lemma receive_steps:
  assumes "md_store md = ops"
  shows "steps \<rho> (receive md now packed)"
  unfolding steps_def receive_def Let_def split_beta snd_conv
  by (intro allI trans [OF at [OF handle_steps [OF assms]] metered])

lemma live_delivery_steps: "steps \<rho> (live_delivery md now session q)"
  unfolding live_delivery_def by (intro base pack_reply_steps)

end

end
