(* ===== verification/Routes_Properties.thy ===== *)
theory Routes_Properties
  imports Effects Mediator_Properties
begin

text \<open>
  What the endpoints promise: the limit on the messages of a client is exact, the client is the one
  the reverse proxy saw, and a WebSocket session leaves nothing behind. The first and the last rest
  on the interpretations of \<open>effects\<close>.
\<close>

section \<open>Live sessions\<close>

text \<open>The hub agrees with the open sessions: the connection's own and any others.\<close>

definition apart :: "('n, 's) world \<Rightarrow> session set \<Rightarrow> bool" where
  "apart w S \<longleftrightarrow> (\<forall>i. map_option ss_id (w_session w) = Some i \<longrightarrow> i \<notin> ss_id ` S)"

definition sessions_kept :: "('n, 's) world \<Rightarrow> ('n, 's) world \<Rightarrow> bool" where
  "sessions_kept w w' \<longleftrightarrow> map_option ss_id (w_session w') = map_option ss_id (w_session w)
     \<and> (\<forall>S. hub_ok (set_option (w_session w) \<union> S) (w_hub w) \<and> apart w S
         \<longrightarrow> hub_ok (set_option (w_session w') \<union> S) (w_hub w'))"

lemma sessions_kept_trans: "sessions_kept a b \<Longrightarrow> sessions_kept b c \<Longrightarrow> sessions_kept a c"
  unfolding sessions_kept_def apart_def by metis

lemma sessions_same: "w_session w' = w_session w \<Longrightarrow> w_hub w' = w_hub w \<Longrightarrow> sessions_kept w w'"
  by (simp add: sessions_kept_def apart_def)

lemma sessions_replaced:
  fixes w :: "('n, 's) world"
  assumes "w_session w = Some s" "ss_id s' = ss_id s"
    and "\<And>S. hub_ok S (w_hub w) \<Longrightarrow> s \<in> S \<Longrightarrow> hub_ok (insert s' (S - {s})) h"
  shows "sessions_kept w (w\<lparr>w_session := Some s', w_hub := h\<rparr>)"
proof -
  have "hub_ok (insert s' S) h" if "hub_ok (insert s S) (w_hub w)" "ss_id s \<notin> ss_id ` S" for S
  proof -
    have "insert s S - {s} = S" using that(2) by auto
    then show ?thesis using assms(3) [OF that(1)] by simp
  qed
  then show ?thesis using assms(1,2) by (simp add: sessions_kept_def apart_def)
qed

interpretation liveE: effects "sessions_kept :: ('n, 's) world \<Rightarrow> _" ops for ops :: "'s store_ops"
proof
  fix w w' :: "('n, 's) world"
  show "node_only w w' \<Longrightarrow> sessions_kept w w'"
    by (rule sessions_same) (auto simp: node_only_def dest: more_eq_store)
next
  fix w :: "('n, 's) world" and m q
  show "sessions_kept w (w\<lparr>w_hub := notify m q (w_hub w)\<rparr>)" by (simp add: sessions_kept_def hub_step_notify)
next
  fix w :: "('n, 's) world" and s m s' h
  assume "w_session w = Some s" and e: "hub_enable s m (w_hub w) = (s', h)"
  moreover have "ss_id s' = ss_id s" using hub_enable_simps(2) [of s m "w_hub w"] e by simp
  ultimately show "sessions_kept w (w\<lparr>w_session := Some s', w_hub := h\<rparr>)"
    by (intro sessions_replaced) (auto intro: hub_step_enable)
next
  fix w :: "('n, 's) world" and s s' h
  assume "w_session w = Some s" and e: "hub_disable s (w_hub w) = (s', h)"
  moreover have "ss_id s' = ss_id s" using hub_disable_simps(4) [of s "w_hub w"] e by simp
  ultimately show "sessions_kept w (w\<lparr>w_session := Some s', w_hub := h\<rparr>)"
    by (intro sessions_replaced) (auto intro: hub_step_disable)
qed (auto intro: sessions_kept_trans sessions_same)

section \<open>The rate limit's counts\<close>

definition counts_kept :: "('n, inner) world \<Rightarrow> ('n, inner) world \<Rightarrow> bool" where
  "counts_kept w w' \<longleftrightarrow> (mem_inv (w_store w) \<longrightarrow> mem_inv (w_store w'))
     \<and> hits (w_store w') = hits (w_store w) \<and> poisoned (w_store w') = poisoned (w_store w)"

lemma handler_store_inv: "handler_store memory_store s s' \<Longrightarrow> mem_inv s \<Longrightarrow> mem_inv s'"
  by (induction rule: handler_store.induct)
    (simp_all add: mem_inv_ops)

lemma handler_store_counts:
  "handler_store memory_store s s' \<Longrightarrow> hits s' = hits s \<and> poisoned s' = poisoned s"
  by (induction rule: handler_store.induct)
    (auto simp: mem_defs snd_locked inner_queue_def Let_def split: option.splits prod.splits)

interpretation countE: effects "counts_kept :: ('n, inner) world \<Rightarrow> _" memory_store
  by unfold_locales
    (auto simp: counts_kept_def node_only_def handler_store_counts handler_store_inv dest: more_eq_store)

section \<open>A WebSocket session\<close>

lemma live_over_limit: "steps sessions_kept (over_limit app now ip)"
  unfolding over_limit_def
  by (intro liveE.rules liveE.basic) (auto simp: steps_def on_store_def split_beta intro: sessions_same)

lemma live_ws_text: "steps sessions_kept (ws_text app now ip text alive)"
  unfolding ws_text_def by (intro liveE.rules live_over_limit liveE.receive_steps [OF refl])

lemma live_ws_push:
  fixes app :: "('n, 's) app_state"
  shows "steps sessions_kept (ws_push app now alive :: (('n, 's) world, 'e, bool \<times> ws_out list) act)"
    (is "steps _ ?push")
proof (rule stepsI)
  fix w :: "('n, 's) world"
  show "sessions_kept w (snd (?push w))"
  proof (cases "w_session w")
    case (Some s)
    obtain d h where r: "recv (ss_id s) (w_hub w) = (d, h)" by (cases "recv (ss_id s) (w_hub w)")
    have 1: "sessions_kept w (w\<lparr>w_hub := h\<rparr>)"
      using hub_step_recv [OF _ r] by (simp add: sessions_kept_def apart_def)
    have 2: "steps sessions_kept (bind_act (live_delivery (as_mediator app) now s q) (\<lambda>d.
        return_act (case d of Some t \<Rightarrow> (alive, [OutText t]) | None \<Rightarrow> (True, [])))
      :: (('n, 's) world, 'e, bool \<times> ws_out list) act)" for q
      by (intro liveE.rules liveE.live_delivery_steps)
    show ?thesis
      using sessions_kept_trans [OF 1 liveE.at [OF 2]]
      by (simp add: ws_push_def Some r sessions_same split: option.split)
  qed (simp add: ws_push_def sessions_same)
qed

lemma live_ws_event: "steps sessions_kept (ws_event_step app now ip e alive)"
proof (cases e)
  case (FrameBinary b)
  then show ?thesis by (simp del: return_act_apply) (intro liveE.rules live_ws_text)
qed (auto simp del: return_act_apply intro: live_ws_text live_ws_push liveE.pure)

lemma live_ws_loop: "steps sessions_kept (ws_loop app ip ts)"
proof (induction app ip ts rule: ws_loop.induct)
  case (2 app ip m q ts)
  then show ?case unfolding ws_loop.simps by (intro liveE.rules liveE.basic)
next
  case (3 app ip now e alive ts)
  show ?case unfolding ws_loop.simps by (intro liveE.rules live_ws_event 3) auto
qed (simp add: liveE.pure del: return_act_apply)

text \<open>No step of the loop fails, so the session is always closed.\<close>

lemma returns_count: "returns (count f)" "returns (hub_notify m q)"
  by (simp_all add: returns_def count_def hub_notify_def)

lemma returns_over_limit: "returns (over_limit app now ip)"
  unfolding over_limit_def by (intro returns_bind returns_rules returns_cases returns_count)

lemma returns_ws_text: "returns (ws_text app now ip text alive)"
  unfolding ws_text_def by (intro returns_bind returns_rules returns_cases returns_over_limit)

lemma returns_live_delivery: "returns (live_delivery md now s q)"
  unfolding live_delivery_def
  by (intro returns_bind returns_rules returns_cases returns_new_message returns_pack_reply)

lemma returns_ws_push:
  fixes app :: "('n, 's) app_state"
  shows "returns (ws_push app now alive :: (('n, 's) world, 'e, bool \<times> ws_out list) act)"
proof -
  have 1: "returns (bind_act (live_delivery (as_mediator app) now s q) (\<lambda>d.
      return_act (case d of Some t \<Rightarrow> (alive, [OutText t]) | None \<Rightarrow> (True, [])))
    :: (('n, 's) world, 'e, bool \<times> ws_out list) act)" for s q
    by (intro returns_bind returns_rules returns_live_delivery)
  have "\<exists>a w'. (ws_push app now alive :: (('n, 's) world, 'e, bool \<times> ws_out list) act) w = (Inr a, w')" for w
    using 1 unfolding returns_def ws_push_def by (auto split: option.split prod.split)
  then show ?thesis by (simp add: returns_def)
qed

lemma returns_ws_event: "returns (ws_event_step app now ip e alive)"
proof (cases e)
  case (FrameBinary b)
  then show ?thesis by (simp del: return_act_apply) (intro returns_rules returns_cases returns_ws_text)
qed (auto simp del: return_act_apply intro: returns_ws_text returns_ws_push)

lemma returns_ws_loop: "returns (ws_loop app ip ts)"
proof (induction app ip ts rule: ws_loop.induct)
  case (2 app ip m q ts)
  then show ?case unfolding ws_loop.simps by (intro returns_bind returns_count)
next
  case (3 app ip now e alive ts)
  show ?case unfolding ws_loop.simps
    by (rule returns_bind [OF returns_ws_event]) (auto simp del: return_act_apply intro: 3)
qed (simp add: returns_rules del: return_act_apply)

lemma ws_loop_keeps:
  fixes w :: "('n, 's) world"
  assumes "ws_loop app ip ts w = (r, w')"
  shows "sessions_kept w w'" "\<exists>out. r = Inr out"
proof -
  show "sessions_kept w w'" by (rule stepsD [OF live_ws_loop assms])
  show "\<exists>out. r = Inr out"
  proof (cases r)
    case (Inl e)
    then show ?thesis using assms returns_not_Inl [OF returns_ws_loop, of app ip ts w e w'] by simp
  qed blast
qed

text \<open>Closing takes the session off every list and drops its receiver.\<close>

lemma subscribers_drop [simp]: "subscribers (drop_receiver i h) m = subscribers h m"
  by (simp add: drop_receiver_def subscribers_def split: option.splits)

lemma hub_closed:
  assumes "hub_ok (insert s S) h" "s \<notin> S"
  defines "h' \<equiv> drop_receiver (ss_id s) (snd (hub_disable s h))"
  shows "hub_ok S h'" "ss_id s \<notin> set (subscribers h' m)" "\<exists>c. channels h' (ss_id s) = Some c \<and> \<not> ch_open c"
proof -
  have d: "hub_disable s h = (fst (hub_disable s h), snd (hub_disable s h))" by simp
  have "insert s S - {s} = S" using assms(2) by blast
  then show "hub_ok S h'" using hub_step_close [OF assms(1) _ d] by (simp add: h'_def)
  have ok: "hub_ok (insert (fst (hub_disable s h)) S) (snd (hub_disable s h))"
    using hub_step_disable [OF assms(1) _ d] \<open>insert s S - {s} = S\<close> by simp
  then show "ss_id s \<notin> set (subscribers h' m)"
    using hub_okD(3) [OF ok, of "fst (hub_disable s h)" m] by (simp add: h'_def)
  show "\<exists>c. channels h' (ss_id s) = Some c \<and> \<not> ch_open c"
    using hub_okD(5) [OF ok, of "fst (hub_disable s h)"] by (auto simp: h'_def drop_receiver_def)
qed

lemma websocket_session_closed:
  fixes w :: "('n, 's) world" and r :: "'e + ws_out list"
  assumes ok: "hub_ok S (w_hub w)" and n: "unat (next_id (w_hub w)) + 1 < 2 ^ 64"
    and r: "websocket_session app ip turns w = (r, w')"
  shows "hub_ok S (w_hub w') \<and> w_session w' = None \<and> (\<exists>out. r = Inr out)
    \<and> next_id (w_hub w) \<notin> set (subscribers (w_hub w') m)
    \<and> (\<exists>c. channels (w_hub w') (next_id (w_hub w)) = Some c \<and> \<not> ch_open c)"
proof -
  obtain s h where o: "hub_open (w_hub w) = (s, h)" by (cases "hub_open (w_hub w)")
  have i: "ss_id s = next_id (w_hub w)" using o by (auto simp: hub_open_def)
  define w1 where "w1 = w\<lparr>w_metrics := live_session_opened (w_metrics w), w_hub := h, w_session := Some s\<rparr>"
  obtain r2 :: "'e + ws_out list" and w2 where l: "ws_loop app ip turns w1 = (r2, w2)" by fastforce
  obtain out where out: "r2 = Inr out" using ws_loop_keeps(2) [OF l] by blast
  have "ss_id s \<notin> ss_id ` S"
  proof
    assume "ss_id s \<in> ss_id ` S"
    then obtain t where "t \<in> S" "ss_id t = next_id (w_hub w)" using i by auto
    then show False using hub_okD(5) [OF ok, of t] hub_okD(7) [OF ok, of "next_id (w_hub w)"] by auto
  qed
  then have a: "apart w1 S" by (simp add: apart_def w1_def)
  have k: "sessions_kept w1 w2" by (rule ws_loop_keeps(1) [OF l])
  then obtain s' where s': "w_session w2 = Some s'" "ss_id s' = ss_id s"
    by (auto simp: sessions_kept_def w1_def)
  have "hub_ok (insert s' S) (w_hub w2)"
    using k a hub_step_open [OF ok o n] unfolding sessions_kept_def by (simp add: w1_def s')
  moreover have "s' \<notin> S" using \<open>ss_id s \<notin> ss_id ` S\<close> s'(2) by (metis imageI)
  ultimately have c: "hub_ok S (drop_receiver (ss_id s') (snd (hub_disable s' (w_hub w2))))"
    "ss_id s' \<notin> set (subscribers (drop_receiver (ss_id s') (snd (hub_disable s' (w_hub w2)))) m)"
    "\<exists>c. channels (drop_receiver (ss_id s') (snd (hub_disable s' (w_hub w2)))) (ss_id s') = Some c \<and> \<not> ch_open c"
    by (rule hub_closed)+
  have "websocket_session app ip turns w = (Inr out :: 'e + ws_out list, w2\<lparr>w_metrics := live_session_closed (w_metrics w2),
      w_session := None, w_hub := drop_receiver (ss_id s') (snd (hub_disable s' (w_hub w2)))\<rparr>)"
    by (simp add: websocket_session_def bind_act_def open_session_def o w1_def [symmetric] l out ws_close_def s'(1)
        close_session_def split_beta)
  then show ?thesis using c r i s'(2) by auto
qed

section \<open>The rate limit\<close>

definition rate_key :: "ip \<Rightarrow> string" where
  "rate_key a = ''didcomm:'' @ show_ip a"

text \<open>A request as the router gets it, and the client whose budget it counts against, if any.\<close>

type_synonym post = "u64 \<times> socket_addr option \<times> header_map \<times> bytes"

fun counted :: "('n, 's) app_state \<Rightarrow> post \<Rightarrow> ip option" where
  "counted app (now, peer, hs, body) =
     (if lm_max_message_bytes (md_limits (as_mediator app)) < length body then None
      else client_ip hs (as_client_ip_header app) peer)"

definition counts :: "('n, 's) app_state \<Rightarrow> post list \<Rightarrow> ip \<Rightarrow> nat" where
  "counts app ps a = length (filter (\<lambda>p. map_option rate_key (counted app p) = Some (rate_key a)) ps)"

fun answer_post :: "('n, 's) app_state \<Rightarrow> post \<Rightarrow> (('n, 's) world, 'e, response) act" where
  "answer_post app (now, peer, hs, body) = post_didcomm app now peer hs body"

text \<open>The store's counts in the window are those of the requests so far.\<close>

definition counting :: "('n, inner) app_state \<Rightarrow> u64 \<Rightarrow> post list \<Rightarrow> ('n, inner) world \<Rightarrow> bool" where
  "counting app win ps w \<longleftrightarrow> mem_inv (w_store w) \<and> \<not> poisoned (w_store w)
     \<and> (\<forall>a. unat (window_count (w_store w) win (rate_key a)) = counts app ps a)"

lemma counts_kept_counting: "counts_kept w w' \<Longrightarrow> counting app win ps w \<Longrightarrow> counting app win ps w'"
  by (simp add: counting_def counts_kept_def window_count_def)

lemma over_limit_counts:
  fixes app :: "('n, inner) app_state" and w :: "('n, inner) world"
  assumes md: "md_store (as_mediator app) = memory_store" and L: "as_rate_limit app \<noteq> 0"
    and c: "counting app (now div RATE_WINDOW_SECS) ps w" and n: "length ps + 1 < 2 ^ 64"
    and a: "counted app p = Some a"
  shows "\<exists>w'. (over_limit app now (Some a) :: (('n, inner) world, 'e, bool) act) w
      = (Inr (unat (as_rate_limit app) \<le> counts app ps a), w') \<and> counting app (now div RATE_WINDOW_SECS) (ps @ [p]) w'"
proof -
  have i: "mem_inv (w_store w)" "\<not> poisoned (w_store w)"
    and u: "\<And>b. unat (window_count (w_store w) (now div RATE_WINDOW_SECS) (rate_key b)) = counts app ps b"
    using c by (simp_all add: counting_def)
  obtain hits s where h: "mem_hit (rate_key a) RATE_WINDOW_SECS now (w_store w) = (Inr hits, s)" and "\<not> poisoned s"
    using i(2) by (auto simp: mem_hit_def locked_def Let_def)
  have w: "max RATE_WINDOW_SECS 1 = RATE_WINDOW_SECS" by (simp add: RATE_WINDOW_SECS_def max_def word_le_nat_alt)
  note hc = hit_counts [OF i(1) h, unfolded w]
  have "counts app ps a < 2 ^ 64 - 1" using n unfolding counts_def
    by (meson le_less_trans length_filter_le less_diff_conv)
  then have ua: "unat (window_count (w_store w) (now div RATE_WINDOW_SECS) (rate_key a) + 1) = counts app ps a + 1"
    using u [of a] by (simp add: unat_word_ariths)
  have over: "as_rate_limit app < hits \<longleftrightarrow> unat (as_rate_limit app) \<le> counts app ps a"
    using hc ua by (simp add: word_less_nat_alt less_Suc_eq_le)
  define w' where "w' = w\<lparr>w_store := s,
      w_metrics := (if as_rate_limit app < hits then count_rate_limited (w_metrics w) else w_metrics w)\<rparr>"
  have "unat (window_count s (now div RATE_WINDOW_SECS) (rate_key b)) = counts app (ps @ [p]) b" for b
    using hc ua u [of b] by (cases "rate_key b = rate_key a") (simp_all add: counts_def a)
  moreover have "mem_inv s" using mem_inv_hit [OF i(1), of "rate_key a" RATE_WINDOW_SECS now] h by simp
  ultimately have "counting app (now div RATE_WINDOW_SECS) (ps @ [p]) w'"
    using \<open>\<not> poisoned s\<close> by (simp add: counting_def w'_def)
  moreover have "(over_limit app now (Some a) :: (('n, inner) world, 'e, bool) act) w = (Inr (as_rate_limit app < hits), w')"
    using L unfolding over_limit_def rate_key_def [symmetric]
    by (simp add: bind_act_def catch_act_def on_store_def md h count_def w'_def)
  ultimately show ?thesis unfolding over by blast
qed

lemma receive_response_429: "rp_status (receive_response X r) \<noteq> 429"
  by (induction X r rule: receive_response.induct) (simp_all add: plain_response_def error_response_def)

lemma counts_kept_receive:
  fixes app :: "('n, inner) app_state"
  assumes "md_store (as_mediator app) = memory_store"
  shows "counts_kept w (snd ((receive (as_mediator app) now text) w))"
  by (rule countE.at [OF countE.receive_steps [OF assms]])

lemma counts_kept_session: "counts_kept w w' \<Longrightarrow> counts_kept (w\<lparr>w_session := x\<rparr>) w' = counts_kept w w'"
  by (simp add: counts_kept_def)

text \<open>What follows the limit is never a 429 and leaves the counts alone.\<close>

lemma answer_post_counting:
  fixes app :: "('n, inner) app_state" and w :: "('n, inner) world"
  assumes md: "md_store (as_mediator app) = memory_store" and L: "as_rate_limit app \<noteq> 0"
    and c: "counting app (fst p div RATE_WINDOW_SECS) ps w" and n: "length ps + 1 < 2 ^ 64"
  shows "\<exists>r w'. (answer_post app p :: (('n, inner) world, 'e, response) act) w = (Inr r, w')
    \<and> counting app (fst p div RATE_WINDOW_SECS) (ps @ [p]) w'
    \<and> (rp_status r = 429 \<longleftrightarrow> (\<exists>a. counted app p = Some a \<and> unat (as_rate_limit app) \<le> counts app ps a))"
proof -
  obtain now peer hs body where p: "p = (now, peer, hs, body)" by (cases p)
  show ?thesis
  proof (cases "lm_max_message_bytes (md_limits (as_mediator app)) < length body")
    case True
    then show ?thesis using c by (simp add: p post_didcomm_def plain_response_def counting_def counts_def)
  next
    case False
    let ?ip = "client_ip hs (as_client_ip_header app) peer"
    define w0 where "w0 = w\<lparr>w_session := None\<rparr>"
    have c0: "counting app (now div RATE_WINDOW_SECS) ps w0" using c by (simp add: p w0_def counting_def)
    have cp: "counted app p = ?ip" using False by (simp add: p)
    obtain over w1 where o: "(over_limit app now ?ip :: (('n, inner) world, 'e, bool) act) w0 = (Inr over, w1)"
      and c1: "counting app (now div RATE_WINDOW_SECS) (ps @ [p]) w1"
      and ov: "over \<longleftrightarrow> (\<exists>a. ?ip = Some a \<and> unat (as_rate_limit app) \<le> counts app ps a)"
    proof (cases ?ip)
      case None
      then show ?thesis using that [of False w0] c0 cp by (simp add: over_limit_def counting_def counts_def)
    next
      case (Some a)
      then show ?thesis
        using over_limit_counts [OF md L c0 n, of p a, where ?'e = 'e] that cp by auto
    qed
    obtain res w2 where r: "receive (as_mediator app) now (the (from_utf8 body)) w1 = (res, w2)" by fastforce
    have c2: "counting app (now div RATE_WINDOW_SECS) (ps @ [p]) w2"
      using counts_kept_counting [OF _ c1] counts_kept_receive [OF md, of w1 now "the (from_utf8 body)"] r by simp
    have e: "(answer_post app p :: (('n, inner) world, 'e, response) act) w = http_receive app now peer hs body w0"
      using False by (simp add: p post_didcomm_def w0_def)
    show ?thesis
      unfolding e http_receive_def Let_def bind_act_def o
      using c1 c2 ov cp r receive_response_429
      by (auto simp: p too_many_requests_def error_response_def catch_act_def split: option.split)
  qed
qed

text \<open>C34: The rate limit is exact: of the requests of one minute, whatever they carry and however they
  are answered, a request is refused with 429 exactly if its client already used up the limit with
  earlier ones. A client's budget is not touched by other clients, nor by requests that are too
  large to be read, and every request is answered.\<close>

theorem rate_limit_exact:
  fixes app :: "('n, inner) app_state" and w :: "('n, inner) world"
  assumes "md_store (as_mediator app) = memory_store" "as_rate_limit app \<noteq> 0"
    and "counting app win [] w" "length posts < 2 ^ 64" "\<forall>p\<in>set posts. fst p div RATE_WINDOW_SECS = win"
  shows "\<exists>rs w'. (mapM_act (answer_post app) posts :: (('n, inner) world, 'e, response list) act) w = (Inr rs, w')
    \<and> length rs = length posts
    \<and> (\<forall>i<length posts. rp_status (rs ! i) = 429 \<longleftrightarrow>
        (\<exists>a. counted app (posts ! i) = Some a \<and> unat (as_rate_limit app) \<le> counts app (take i posts) a))"
proof -
  have "\<exists>rs w'. (mapM_act (answer_post app) qs :: (('n, inner) world, 'e, response list) act) w = (Inr rs, w')
    \<and> length rs = length qs
    \<and> (\<forall>i<length qs. rp_status (rs ! i) = 429 \<longleftrightarrow>
        (\<exists>a. counted app (qs ! i) = Some a \<and> unat (as_rate_limit app) \<le> counts app (ps @ take i qs) a))"
    if "counting app win ps w" "length ps + length qs < 2 ^ 64" "\<forall>p\<in>set qs. fst p div RATE_WINDOW_SECS = win"
    for ps qs and w :: "('n, inner) world"
    using that
  proof (induction qs arbitrary: ps w)
    case (Cons p qs)
    have win: "fst p div RATE_WINDOW_SECS = win" using Cons.prems(3) by simp
    obtain r w1 where 1: "(answer_post app p :: (('n, inner) world, 'e, response) act) w = (Inr r, w1)"
      "counting app win (ps @ [p]) w1"
      "rp_status r = 429 \<longleftrightarrow> (\<exists>a. counted app p = Some a \<and> unat (as_rate_limit app) \<le> counts app ps a)"
      using answer_post_counting [OF assms(1,2), of p ps w, where ?'e = 'e] Cons.prems win by auto
    obtain rs w2 where 2: "(mapM_act (answer_post app) qs :: (('n, inner) world, 'e, response list) act) w1 = (Inr rs, w2)"
      "length rs = length qs"
      "\<And>i. i < length qs \<Longrightarrow> rp_status (rs ! i) = 429 \<longleftrightarrow>
        (\<exists>a. counted app (qs ! i) = Some a \<and> unat (as_rate_limit app) \<le> counts app (ps @ p # take i qs) a)"
      using Cons.IH [OF 1(2)] Cons.prems by auto
    have "rp_status ((r # rs) ! i) = 429 \<longleftrightarrow>
        (\<exists>a. counted app ((p # qs) ! i) = Some a \<and> unat (as_rate_limit app) \<le> counts app (ps @ take i (p # qs)) a)"
      if "i < length (p # qs)" for i
      using that 1(3) 2(3) by (cases i) simp_all
    moreover have "(mapM_act (answer_post app) (p # qs) :: (('n, inner) world, 'e, response list) act) w = (Inr (r # rs), w2)"
      by (simp add: bind_act_def 1(1) 2(1))
    ultimately show ?case using 2(2) by (intro exI [of _ "r # rs"] exI [of _ w2]) simp
  qed simp
  from this [OF assms(3) _ assms(5)] show ?thesis using assms(4) by simp
qed

text \<open>A request with a body that is not a DIDComm envelope, from one address.\<close>

definition sample_app :: "(unit, inner) app_state" where
  "sample_app = \<lparr>as_mediator = sample_mediator, as_rate_limit = 1, as_client_ip_header = None, as_public_url = ''https://m''\<rparr>"

definition sample_post :: post where
  "sample_post = (7, Some \<lparr>sa_ip = V4 10 0 0 1, sa_port = 4000\<rparr>, [], ''x'')"

theorem rate_limit_exact_witness:
  "\<exists>rs w'. (mapM_act (answer_post sample_app) [sample_post, sample_post]
      :: ((unit, inner) world, error, response list) act) sample_world = (Inr rs, w')
    \<and> rp_status (rs ! 0) \<noteq> 429 \<and> rp_status (rs ! 1) = 429"
proof -
  have c: "counted sample_app sample_post = Some (V4 10 0 0 1)"
    by (simp add: sample_app_def sample_post_def sample_limits_def client_ip_def)
  have "counting sample_app (7 div RATE_WINDOW_SECS) [] sample_world"
    by (simp add: counting_def counts_def sample_world_def mem_inv_new) (simp add: mem_new_def window_count_def)
  then have "\<exists>rs w'. (mapM_act (answer_post sample_app) [sample_post, sample_post]
      :: ((unit, inner) world, error, response list) act) sample_world = (Inr rs, w')
    \<and> length rs = length [sample_post, sample_post]
    \<and> (\<forall>i<length [sample_post, sample_post]. rp_status (rs ! i) = 429 \<longleftrightarrow>
        (\<exists>a. counted sample_app ([sample_post, sample_post] ! i) = Some a
          \<and> unat (as_rate_limit sample_app) \<le> counts sample_app (take i [sample_post, sample_post]) a))"
    by (intro rate_limit_exact [where win = "7 div RATE_WINDOW_SECS"]) (simp_all add: sample_app_def sample_post_def)
  then obtain rs w' where m: "(mapM_act (answer_post sample_app) [sample_post, sample_post]
      :: ((unit, inner) world, error, response list) act) sample_world = (Inr rs, w')"
    and r: "\<And>i. i < 2 \<Longrightarrow> rp_status (rs ! i) = 429 \<longleftrightarrow>
        (\<exists>a. counted sample_app ([sample_post, sample_post] ! i) = Some a
          \<and> unat (as_rate_limit sample_app) \<le> counts sample_app (take i [sample_post, sample_post]) a)"
    by auto
  have "rp_status (rs ! 0) \<noteq> 429" "rp_status (rs ! 1) = 429"
    using r [of 0] r [of 1] by (simp_all add: c counts_def) (simp_all add: sample_app_def)
  then show ?thesis using m by blast
qed

section \<open>The client behind a proxy\<close>

lemma map_filter_append: "List.map_filter f (xs @ ys) = List.map_filter f xs @ List.map_filter f ys"
  by (simp add: List.map_filter_def)

lemma to_str_append: "to_str (s @ t) = (if to_str s \<noteq> None \<and> to_str t \<noteq> None then Some (s @ t) else None)"
  by (simp add: to_str_def)

lemma header_addresses_last:
  assumes "parse_ip (trim t) = Some a" "CHR '','' \<notin> set t" "to_str line = Some line"
    and "line = t \<or> line = sent @ CHR '','' # t" "header_values name hs = lines @ [line]"
  shows "\<exists>as. header_addresses name hs = as @ [a]"
proof -
  have "split CHR '','' t = [t]" using assms(2) by (simp add: split_none)
  then have "\<exists>parts. split CHR '','' line = parts @ [t]" using assms(4) by (auto simp: split_append)
  then obtain parts where "split CHR '','' line = parts @ [t]" by blast
  then show ?thesis using assms(1)
    by (simp add: header_addresses_def assms(3,5) map_filter_append map_filter_simps)
qed

lemma char_of_digits:
  "char_of (48 :: nat) = CHR ''0''" "char_of (49 :: nat) = CHR ''1''" "char_of (50 :: nat) = CHR ''2''"
  "char_of (51 :: nat) = CHR ''3''" "char_of (52 :: nat) = CHR ''4''"
  by (simp_all add: char_of_eq_iff)

text \<open>C35: Behind a reverse proxy that adds the address \<open>a\<close> it sees, IPv4 or IPv6 in any notation that
  Rust reads, to the configured header, the client is \<open>a\<close>, whatever the peer of the connection is: if
  the proxy adds a line of its own, whatever bytes the client's lines hold; if it appends to the
  client's last line after a comma, with or without spaces, whatever visible ASCII (or spaces and tabs) that
  line holds and whatever the lines before it hold. (With other bytes in the line it appended to, the line is
  not read at all: \<open>unreadable_header_unlimited\<close>.)\<close>

theorem client_ip_last:
  assumes "parse_ip (trim t) = Some a" "to_str t = Some t" "CHR '','' \<notin> set t"
    and "header_values name hs = lines @ [t]
      \<or> (\<exists>sent. header_values name hs = lines @ [sent @ '','' @ t] \<and> to_str sent = Some sent)"
  shows "client_ip hs (Some name) peer = Some a"
proof -
  obtain line sent where "header_values name hs = lines @ [line]" "to_str line = Some line" "line = t \<or> line = sent @ CHR '','' # t"
    using assms(2,4) by (auto simp: to_str_append [of _ "CHR '','' # t"]) (auto simp: to_str_def split: if_splits)
  from header_addresses_last [OF assms(1,3) this(2,3,1)] show ?thesis by (auto simp: client_ip_def)
qed

theorem client_ip_last_witness:
  "client_ip [(''x-forwarded-for'', ''1.2.3.4, 10.0.0.1'')] (Some ''x-forwarded-for'') None = Some (V4 10 0 0 1)"
proof (rule client_ip_last)
  have "''10.0.0.1'' = show_v4 10 0 0 1" by (simp add: show_v4_def show_octet_def show_nat.simps char_of_digits)
  then show "parse_ip (trim '' 10.0.0.1'') = Some (V4 10 0 0 1)" using parse_show_v4 [of 10 0 0 1] by simp
  show "header_values ''x-forwarded-for'' [(''x-forwarded-for'', ''1.2.3.4, 10.0.0.1'')] = [] @ ['' 10.0.0.1'']
    \<or> (\<exists>sent. header_values ''x-forwarded-for'' [(''x-forwarded-for'', ''1.2.3.4, 10.0.0.1'')] = [] @ [sent @ '','' @ '' 10.0.0.1'']
        \<and> to_str sent = Some sent)"
    by (intro disjI2 exI [of _ "''1.2.3.4''"]) (simp add: header_values_def to_str_def)
qed (simp_all add: to_str_def)

text \<open>A header with a byte that is not visible ASCII is skipped as a whole, so a client that sends one
  through such a proxy is nobody, and not limited.\<close>

lemma unreadable_header_unlimited:
  assumes "header_values name hs = [line]" "\<exists>c\<in>set line. 127 \<le> (of_char c :: nat)"
  shows "client_ip hs (Some name) peer = None"
    and "over_limit app now (client_ip hs (Some name) peer) w = (Inr False, w)"
proof -
  have "to_str line = None" using assms(2) by (force simp: to_str_def list_all_iff Let_def)
  then show n: "client_ip hs (Some name) peer = None" by (simp add: client_ip_def header_addresses_def assms(1) map_filter_simps)
  show "over_limit app now (client_ip hs (Some name) peer) w = (Inr False, w)" by (simp add: n over_limit_def)
qed

text \<open>An entry that does not parse, such as an address with a port, gives way to one of the client's.\<close>

lemma unparsed_entry_falls_back:
  "client_ip [(''x-forwarded-for'', ''1.2.3.4, 10.0.0.1:4000'')] (Some ''x-forwarded-for'') None = Some (V4 1 2 3 4)"
proof -
  have n: "show_v4 10 0 0 1 = ''10.0.0.1''" "show_v4 1 2 3 4 = ''1.2.3.4''"
    by (simp_all add: show_v4_def show_octet_def show_nat.simps char_of_digits)
  have s: "split CHR '','' ''1.2.3.4, 10.0.0.1:4000'' = [''1.2.3.4'', '' 10.0.0.1:4000'']" by simp
  have "trim '' 10.0.0.1:4000'' = ''10.0.0.1:4000''"
    using trim_start_digit [of "CHR ''1''" "''0.0.0.1:4000''"] trim_end_digit [of "CHR ''0''" "''10.0.0.1:400''"]
    by (simp add: trim_def trim_start_space is_ascii_digit_def)
  moreover have "parse_ip ''10.0.0.1:4000'' = None"
    using read_show_v4 [of "'':4000''" 10 0 0 1] n by (simp add: parse_ip_def number_ends_def to_digit_def)
  moreover have "trim ''1.2.3.4'' = ''1.2.3.4''" "parse_ip ''1.2.3.4'' = Some (V4 1 2 3 4)"
    using trim_show_v4(1) [of 1 2 3 4] parse_show_v4 [of 1 2 3 4] n by simp_all
  ultimately have "List.map_filter (\<lambda>v. parse_ip (trim v)) (split CHR '','' ''1.2.3.4, 10.0.0.1:4000'') = [V4 1 2 3 4]"
    unfolding s by (simp only: map_filter_simps option.case)
  moreover have "to_str ''1.2.3.4, 10.0.0.1:4000'' = Some ''1.2.3.4, 10.0.0.1:4000''" by (simp add: to_str_def)
  ultimately show ?thesis
    by (simp add: client_ip_def header_addresses_def header_values_def map_filter_simps del: split.simps)
qed

section \<open>The end of a WebSocket session\<close>

text \<open>C36: A WebSocket session leaves nothing behind, however it ends and whatever happened on it: no
  mediation lists it any more, its channel is closed, and the hub still agrees with all the
  other open sessions, so that their live deliveries go on.\<close>

theorem websocket_session_closes:
  fixes w :: "('n, 's) world" and r :: "'e + ws_out list"
  assumes "hub_ok S (w_hub w)" "unat (next_id (w_hub w)) + 1 < 2 ^ 64"
    and "websocket_session app ip turns w = (r, w')"
  shows "hub_ok S (w_hub w') \<and> w_session w' = None \<and> (\<exists>out. r = Inr out)
    \<and> (\<forall>m. next_id (w_hub w) \<notin> set (subscribers (w_hub w') m))
    \<and> (\<exists>c. channels (w_hub w') (next_id (w_hub w)) = Some c \<and> \<not> ch_open c)"
  using websocket_session_closed [OF assms] by blast

theorem websocket_session_closes_witness:
  "\<exists>w'. (websocket_session sample_app None [Turn 7 FramePing True, Turn 7 FrameEnd True]
      :: ((unit, inner) world, error, ws_out list) act) sample_world = (Inr [], w')
    \<and> hub_ok {} (w_hub w') \<and> (\<forall>m. 0 \<notin> set (subscribers (w_hub w') m))"
proof -
  let ?s = "websocket_session sample_app None [Turn 7 FramePing True, Turn 7 FrameEnd True]
      :: ((unit, inner) world, error, ws_out list) act"
  have "fst (?s sample_world) = Inr []"
    by (simp add: websocket_session_def bind_act_def open_session_def hub_open_def ws_close_def close_session_def split_beta)
  then obtain w' where r: "?s sample_world = (Inr [], w')" by (cases "?s sample_world") auto
  have h: "w_hub sample_world = hub_new" "next_id hub_new = 0" by (simp_all add: sample_world_def hub_new_def)
  show ?thesis using websocket_session_closes [OF _ _ r, of "{}"] r by (simp add: h hub_ok_new)
qed

end
