(* ===== verification/Config.thy ===== *)
theory Config
  imports Mediator Net
begin

text \<open>
  The configuration, \<open>crates/mediator/src/config.rs\<close>, read from a lookup of \<open>ALMENA_*\<close> variables,
  and the limits \<open>main.rs\<close> makes of it. A path is its text. \<open>HeaderName::from_str\<close> is a library's
  and a parameter; \<open>did_from_origin\<close> is the DIDComm library's. An error is its outermost message.
\<close>

datatype log_format = Pretty | LogJson

datatype push_mode = PushOff | PushDirect

record apns_config =
  ac_key_path :: string
  ac_key_id :: string
  ac_team_id :: string
  ac_topic :: string
  ac_sandbox :: bool

record push_config =
  pc_mode :: push_mode
  pc_min_interval_secs :: u64
  pc_fcm_service_account :: "string option"
  pc_apns :: "apns_config option"

datatype secret = Secret string

record config =
  cf_bind :: socket_addr
  cf_metrics_addr :: "socket_addr option"
  cf_log_format :: log_format
  cf_public_url :: string
  cf_keys_path :: string
  cf_redis_url :: string
  cf_redis_password :: "secret option"
  cf_max_message_bytes :: nat
  cf_queue_ttl_secs :: u64
  cf_queue_max_messages :: nat
  cf_queue_max_bytes :: u64
  cf_max_recipient_dids :: nat
  cf_mediation_ttl_secs :: u64
  cf_recipient_proof :: bool
  cf_rate_limit :: u64
  cf_client_ip_header :: "string option"
  cf_federation :: bool
  cf_outbound_allow_insecure :: bool
  cf_push :: push_config

definition default_push :: push_config where
  "default_push = \<lparr>pc_mode = PushOff, pc_min_interval_secs = 60, pc_fcm_service_account = None, pc_apns = None\<rparr>"

definition default_config :: config where
  "default_config = \<lparr>
     cf_bind = \<lparr>sa_ip = V4 0 0 0 0, sa_port = 8080\<rparr>, cf_metrics_addr = None, cf_log_format = Pretty,
     cf_public_url = ''http://localhost:8080'', cf_keys_path = ''data/keys.json'',
     cf_redis_url = ''redis://localhost:6379'', cf_redis_password = None,
     cf_max_message_bytes = 1024 * 1024, cf_queue_ttl_secs = 30 * 24 * 3600,
     cf_queue_max_messages = 10000, cf_queue_max_bytes = 100 * 1024 * 1024, cf_max_recipient_dids = 100,
     cf_mediation_ttl_secs = 90 * 24 * 3600, cf_recipient_proof = True, cf_rate_limit = 60,
     cf_client_ip_header = None, cf_federation = True, cf_outbound_allow_insecure = False,
     cf_push = default_push\<rparr>"

text \<open>\<open>Debug\<close> of a secret.\<close>

definition secret_debug :: "secret \<Rightarrow> string" where
  "secret_debug s = ''<redacted>''"

section \<open>Single settings\<close>

type_synonym 'a setting = "string + 'a"

definition invalid :: "string \<Rightarrow> string \<Rightarrow> string" where
  "invalid key v = ''invalid '' @ key @ '': '' @ v"

text \<open>A value that is parsed if it is set.\<close>

definition parsed :: "(string \<Rightarrow> string option) \<Rightarrow> string \<Rightarrow> (string \<Rightarrow> 'a option) \<Rightarrow> 'a \<Rightarrow> 'a setting" where
  "parsed lookup key parse dflt =
     (case lookup key of Some v \<Rightarrow> ok_or (invalid key v) (parse v) | None \<Rightarrow> Inr dflt)"

definition parse_u16 :: "string \<Rightarrow> u16 option" where
  "parse_u16 s = Option.bind (parse_u64 s) (\<lambda>n. if n < 65536 then Some (ucast n) else None)"

definition config_bool :: "(string \<Rightarrow> string option) \<Rightarrow> string \<Rightarrow> bool \<Rightarrow> bool setting" where
  "config_bool lookup key dflt =
     (case map_option trim (lookup key) of
        None \<Rightarrow> Inr dflt
      | Some v \<Rightarrow>
          if v = ''true'' \<or> v = ''1'' then Inr True
          else if v = ''false'' \<or> v = ''0'' then Inr False
          else Inl (invalid key v @ '' (expected true or false)''))"

definition positive :: "(string \<Rightarrow> string option) \<Rightarrow> string \<Rightarrow> u64 \<Rightarrow> u64 setting" where
  "positive lookup key dflt =
     (case lookup key of
        Some v \<Rightarrow>
          ok_or (invalid key v @ '' (expected a number above zero)'')
            (Option.bind (parse_u64 v) (\<lambda>n. if 0 < n then Some n else None))
      | None \<Rightarrow> Inr dflt)"

text \<open>\<open>positive\<close> at \<open>usize\<close>, which has 64 bits.\<close>

definition positive_usize :: "(string \<Rightarrow> string option) \<Rightarrow> string \<Rightarrow> nat \<Rightarrow> nat setting" where
  "positive_usize lookup key dflt = map_sum id unat (positive lookup key (of_nat dflt))"

definition not_blank :: "(string \<Rightarrow> string option) \<Rightarrow> string \<Rightarrow> string option" where
  "not_blank lookup key = Option.bind (lookup key) (\<lambda>v. if trim v = [] then None else Some v)"

function trim_end_char :: "char \<Rightarrow> string \<Rightarrow> string" where
  "trim_end_char c s = (if s \<noteq> [] \<and> last s = c then trim_end_char c (butlast s) else s)"
  by pat_completeness auto

termination trim_end_char
  by (relation "measure (\<lambda>(c, s). length s)") auto

declare trim_end_char.simps [simp del]

section \<open>Push\<close>

definition apns_keys :: "string list" where
  "apns_keys = [''ALMENA_APNS_KEY_PATH'', ''ALMENA_APNS_KEY_ID'', ''ALMENA_APNS_TEAM_ID'', ''ALMENA_APNS_TOPIC'']"

definition apns_setting :: "(string \<Rightarrow> string option) \<Rightarrow> apns_config option setting" where
  "apns_setting lookup =
     (case map (not_blank lookup) apns_keys of
        [Some key_path, Some key_id, Some team_id, Some topic] \<Rightarrow>
          bind_res (config_bool lookup ''ALMENA_APNS_SANDBOX'' False) (\<lambda>sandbox.
          Inr (Some \<lparr>ac_key_path = key_path, ac_key_id = key_id, ac_team_id = team_id, ac_topic = topic,
            ac_sandbox = sandbox\<rparr>))
      | [None, None, None, None] \<Rightarrow> Inr None
      | _ \<Rightarrow> Inl (''APNs needs all of '' @ join '', '' apns_keys))"

definition push_mode_of :: "(string \<Rightarrow> string option) \<Rightarrow> push_mode setting" where
  "push_mode_of lookup =
     (case map_option trim (lookup ''ALMENA_PUSH_MODE'') of
        None \<Rightarrow> Inr PushOff
      | Some v \<Rightarrow>
          if v = ''off'' then Inr PushOff
          else if v = ''direct'' then Inr PushDirect
          else Inl (invalid ''ALMENA_PUSH_MODE'' v @ '' (expected off or direct)''))"

definition push_setting :: "(string \<Rightarrow> string option) \<Rightarrow> push_config \<Rightarrow> push_config setting" where
  "push_setting lookup dflt =
     bind_res (push_mode_of lookup) (\<lambda>pm.
     bind_res (apns_setting lookup) (\<lambda>apns.
     bind_res (parsed lookup ''ALMENA_PUSH_MIN_INTERVAL'' parse_u64 (pc_min_interval_secs dflt)) (\<lambda>interval.
     let push = \<lparr>pc_mode = pm, pc_min_interval_secs = interval,
           pc_fcm_service_account = not_blank lookup ''ALMENA_FCM_SERVICE_ACCOUNT'', pc_apns = apns\<rparr>
     in if pc_mode push = PushDirect \<and> pc_fcm_service_account push = None \<and> pc_apns push = None
        then Inl ''ALMENA_PUSH_MODE=direct needs ALMENA_FCM_SERVICE_ACCOUNT or the ALMENA_APNS_* settings''
        else Inr push)))"

section \<open>The configuration\<close>

definition log_format_of :: "(string \<Rightarrow> string option) \<Rightarrow> log_format setting" where
  "log_format_of lookup =
     (case lookup ''ALMENA_LOG_FORMAT'' of
        None \<Rightarrow> Inr Pretty
      | Some v \<Rightarrow>
          if v = ''pretty'' then Inr Pretty
          else if v = ''json'' then Inr LogJson
          else Inl (invalid ''ALMENA_LOG_FORMAT'' v @ '' (expected pretty or json)''))"

definition client_ip_header_of :: "(string \<Rightarrow> bool) \<Rightarrow> (string \<Rightarrow> string option) \<Rightarrow> string option setting" where
  "client_ip_header_of header_name lookup =
     (case lookup ''ALMENA_CLIENT_IP_HEADER'' of
        None \<Rightarrow> Inr None
      | Some v \<Rightarrow>
          if trim v = [] then Inr None
          else
            (let name = to_ascii_lowercase (trim v)
             in if header_name name then Inr (Some name) else Inl (invalid ''ALMENA_CLIENT_IP_HEADER'' v)))"

definition recipient_proof_of :: "(string \<Rightarrow> string option) \<Rightarrow> bool setting" where
  "recipient_proof_of lookup =
     (case map_option trim (lookup ''ALMENA_RECIPIENT_PROOF'') of
        None \<Rightarrow> Inr True
      | Some v \<Rightarrow>
          if v = ''required'' then Inr True
          else if v = ''off'' then Inr False
          else Inl (invalid ''ALMENA_RECIPIENT_PROOF'' v @ '' (expected required or off)''))"

definition from_lookup :: "(string \<Rightarrow> bool) \<Rightarrow> (string \<Rightarrow> string option) \<Rightarrow> config setting" where
  "from_lookup header_name lookup =
     (let d = default_config in
      bind_res (parsed lookup ''ALMENA_HOST'' parse_ip (sa_ip (cf_bind d))) (\<lambda>host.
      bind_res (parsed lookup ''ALMENA_PORT'' parse_u16 (sa_port (cf_bind d))) (\<lambda>port.
      bind_res (log_format_of lookup) (\<lambda>log_format.
      let public_url = trim_end_char (CHR ''/'') (case lookup ''ALMENA_PUBLIC_URL'' of Some v \<Rightarrow> v | None \<Rightarrow> cf_public_url d) in
      bind_res (map_err (\<lambda>_. invalid ''ALMENA_PUBLIC_URL'' public_url) (did_from_origin public_url)) (\<lambda>_.
      bind_res (client_ip_header_of header_name lookup) (\<lambda>client_ip_header.
      bind_res (case not_blank lookup ''ALMENA_METRICS_ADDR'' of
          Some v \<Rightarrow> map_sum id Some (ok_or (invalid ''ALMENA_METRICS_ADDR'' v) (parse_socket_addr (trim v)))
        | None \<Rightarrow> Inr None) (\<lambda>metrics_addr.
      bind_res (positive_usize lookup ''ALMENA_MAX_MESSAGE_BYTES'' (cf_max_message_bytes d)) (\<lambda>max_message_bytes.
      bind_res (positive lookup ''ALMENA_QUEUE_TTL'' (cf_queue_ttl_secs d)) (\<lambda>queue_ttl_secs.
      bind_res (positive_usize lookup ''ALMENA_QUEUE_MAX_MESSAGES'' (cf_queue_max_messages d)) (\<lambda>queue_max_messages.
      bind_res (positive lookup ''ALMENA_QUEUE_MAX_BYTES'' (cf_queue_max_bytes d)) (\<lambda>queue_max_bytes.
      bind_res (positive_usize lookup ''ALMENA_MAX_RECIPIENT_DIDS'' (cf_max_recipient_dids d)) (\<lambda>max_recipient_dids.
      bind_res (parsed lookup ''ALMENA_MEDIATION_TTL'' parse_u64 (cf_mediation_ttl_secs d)) (\<lambda>mediation_ttl_secs.
      bind_res (recipient_proof_of lookup) (\<lambda>recipient_proof.
      bind_res (parsed lookup ''ALMENA_RATE_LIMIT'' parse_u64 (cf_rate_limit d)) (\<lambda>rate_limit.
      bind_res (config_bool lookup ''ALMENA_FEDERATION'' (cf_federation d)) (\<lambda>federation.
      bind_res (config_bool lookup ''ALMENA_OUTBOUND_ALLOW_INSECURE'' (cf_outbound_allow_insecure d)) (\<lambda>insecure.
      bind_res (push_setting lookup (cf_push d)) (\<lambda>push.
      let config = \<lparr>
        cf_bind = \<lparr>sa_ip = host, sa_port = port\<rparr>, cf_metrics_addr = metrics_addr, cf_log_format = log_format,
        cf_public_url = public_url,
        cf_keys_path = (case lookup ''ALMENA_KEYS_PATH'' of Some v \<Rightarrow> v | None \<Rightarrow> cf_keys_path d),
        cf_redis_url = (case lookup ''ALMENA_REDIS_URL'' of Some v \<Rightarrow> v | None \<Rightarrow> cf_redis_url d),
        cf_redis_password = Option.bind (lookup ''ALMENA_REDIS_PASSWORD'') (\<lambda>p. if p = [] then None else Some (Secret p)),
        cf_max_message_bytes = max_message_bytes, cf_queue_ttl_secs = queue_ttl_secs,
        cf_queue_max_messages = queue_max_messages, cf_queue_max_bytes = queue_max_bytes,
        cf_max_recipient_dids = max_recipient_dids, cf_mediation_ttl_secs = mediation_ttl_secs,
        cf_recipient_proof = recipient_proof, cf_rate_limit = rate_limit,
        cf_client_ip_header = client_ip_header, cf_federation = federation,
        cf_outbound_allow_insecure = insecure, cf_push = push\<rparr>
      in if of_nat (cf_max_message_bytes config) \<le> cf_queue_max_bytes config then Inr config
         else Inl (''ALMENA_QUEUE_MAX_BYTES ('' @ show_u64 (cf_queue_max_bytes config)
           @ '') is below ALMENA_MAX_MESSAGE_BYTES ('' @ show_nat (cf_max_message_bytes config)
           @ ''): no message would fit'')))))))))))))))))))"

text \<open>The limits of the mediator, and its transport to others.\<close>

definition limits_of :: "config \<Rightarrow> limits" where
  "limits_of c = \<lparr>lm_max_message_bytes = cf_max_message_bytes c,
     lm_queue = \<lparr>ql_ttl_secs = cf_queue_ttl_secs c, ql_max_messages = cf_queue_max_messages c,
       ql_max_bytes = cf_queue_max_bytes c\<rparr>,
     lm_max_recipient_dids = cf_max_recipient_dids c,
     lm_push_min_interval_secs = pc_min_interval_secs (cf_push c),
     lm_recipient_proof = cf_recipient_proof c, lm_mediation_ttl_secs = cf_mediation_ttl_secs c\<rparr>"

end
