(* ===== verification/Config_Properties.thy ===== *)
theory Config_Properties
  imports Config Memory_Store
begin

text \<open>What an accepted configuration guarantees.\<close>

lemma positive_Inr: "positive lookup key d = Inr n \<Longrightarrow> 0 < d \<Longrightarrow> 0 < n"
  by (auto simp: positive_def ok_or_Inr bind_eq_Some_conv split: option.splits if_splits)

lemma positive_usize_Inr: "positive_usize lookup key d = Inr n \<Longrightarrow> 0 < (of_nat d :: u64) \<Longrightarrow> 0 < n"
  by (auto simp: positive_usize_def map_sum_def dest: positive_Inr split: sum.splits)
    (metis positive_Inr unat_gt_0 word_neq_0_conv)

lemma positive_usize_bound: "positive_usize lookup key d = Inr n \<Longrightarrow> n < 2 ^ 64"
  by (cases "positive lookup key (of_nat d)") (auto simp: positive_usize_def unat_u64_less [simplified])

lemma push_setting_Inr:
  "push_setting lookup d = Inr p \<Longrightarrow> pc_mode p = PushDirect \<Longrightarrow> pc_fcm_service_account p \<noteq> None \<or> pc_apns p \<noteq> None"
  by (auto simp: push_setting_def bind_res_Inr Let_def split: if_splits)

lemma apns_setting_Inr:
  "apns_setting lookup = Inr (Some a) \<Longrightarrow> trim (ac_key_path a) \<noteq> [] \<and> trim (ac_key_id a) \<noteq> [] \<and> trim (ac_team_id a) \<noteq> [] \<and> trim (ac_topic a) \<noteq> []"
  by (auto simp: apns_setting_def apns_keys_def bind_res_Inr not_blank_def bind_eq_Some_conv split: option.splits if_splits)

lemma client_ip_header_Inr:
  "client_ip_header_of hn lookup = Inr (Some name) \<Longrightarrow> hn name"
  by (auto simp: client_ip_header_of_def Let_def split: option.splits if_splits)

lemma default_push_accepted [simp]: "push_setting (\<lambda>_. None) default_push = Inr default_push"
  by (simp add: push_setting_def push_mode_of_def apns_setting_def apns_keys_def not_blank_def parsed_def default_push_def)

text \<open>Without any variable the defaults are accepted as they are.\<close>

lemma default_url: "did_from_origin ''http://localhost:8080'' = Inr ''did:web:localhost%3A8080''"
  by (simp add: did_from_origin_def ok_or_def ensure_def strip_prefix_def strip_suffix_def starts_with_def ends_with_def
      to_ascii_lowercase_def replace_def)

lemma default_config_accepted: "from_lookup hn (\<lambda>_. None) = Inr default_config"
proof -
  have t: "trim_end_char (CHR ''/'') ''http://localhost:8080'' = ''http://localhost:8080''"
    by (subst trim_end_char.simps) simp
  have p: "push_setting (\<lambda>_. None) (cf_push default_config) = Inr default_push"
    by (simp add: default_config_def)
  have n: "parsed (\<lambda>_. None) k f d = Inr d" "config_bool (\<lambda>_. None) k b = Inr b" "not_blank (\<lambda>_. None) k = None"
    "log_format_of (\<lambda>_. None) = Inr Pretty" "client_ip_header_of hn (\<lambda>_. None) = Inr None"
    "recipient_proof_of (\<lambda>_. None) = Inr True" "positive (\<lambda>_. None) k u = Inr u"
    "positive_usize (\<lambda>_. None) k m = Inr (unat (of_nat m :: u64))" for k f b u m and d :: 'z
    by (simp_all add: parsed_def config_bool_def not_blank_def log_format_of_def client_ip_header_of_def
        recipient_proof_of_def positive_def positive_usize_def)
  have "cf_public_url default_config = ''http://localhost:8080''" by (simp add: default_config_def)
  then show ?thesis
    unfolding from_lookup_def Let_def n bind_res_simps option.case p
    by (simp add: t default_url map_err_def n) (simp add: default_config_def default_push_def)
qed

lemma from_lookup_facts:
  assumes "from_lookup hn lookup = Inr c"
  shows "(\<exists>d. did_from_origin (cf_public_url c) = Inr d) \<and>
    client_ip_header_of hn lookup = Inr (cf_client_ip_header c) \<and>
    push_setting lookup default_push = Inr (cf_push c) \<and>
    of_nat (cf_max_message_bytes c) \<le> cf_queue_max_bytes c \<and>
    positive_usize lookup ''ALMENA_MAX_MESSAGE_BYTES'' (1024 * 1024) = Inr (cf_max_message_bytes c) \<and>
    positive_usize lookup ''ALMENA_QUEUE_MAX_MESSAGES'' 10000 = Inr (cf_queue_max_messages c) \<and>
    positive lookup ''ALMENA_QUEUE_TTL'' (30 * 24 * 3600) = Inr (cf_queue_ttl_secs c) \<and>
    positive_usize lookup ''ALMENA_MAX_RECIPIENT_DIDS'' 100 = Inr (cf_max_recipient_dids c)"
  using assms unfolding from_lookup_def Let_def bind_res_Inr map_err_Inr
  by (elim exE conjE) (clarsimp simp: default_config_def split: if_splits)

lemma from_lookup_Inr:
  assumes "from_lookup hn lookup = Inr c"
  shows "\<exists>d. did_from_origin (cf_public_url c) = Inr d"
    "client_ip_header_of hn lookup = Inr (cf_client_ip_header c)"
    "push_setting lookup default_push = Inr (cf_push c)"
    "of_nat (cf_max_message_bytes c) \<le> cf_queue_max_bytes c"
    "positive_usize lookup ''ALMENA_MAX_MESSAGE_BYTES'' (1024 * 1024) = Inr (cf_max_message_bytes c)"
    "positive_usize lookup ''ALMENA_QUEUE_MAX_MESSAGES'' 10000 = Inr (cf_queue_max_messages c)"
    "positive lookup ''ALMENA_QUEUE_TTL'' (30 * 24 * 3600) = Inr (cf_queue_ttl_secs c)"
    "positive_usize lookup ''ALMENA_MAX_RECIPIENT_DIDS'' 100 = Inr (cf_max_recipient_dids c)"
  using from_lookup_facts [OF assms] by blast+

lemma from_lookup_url:
  assumes "from_lookup hn lookup = Inr c"
  shows "\<exists>u. cf_public_url c = trim_end_char (CHR ''/'') u"
  using assms unfolding from_lookup_def Let_def bind_res_Inr
  by (elim exE conjE) (simp only: split: if_splits, drule Inr_inject, drule sym, rule exI, simp only: config.select_convs, simp)

lemma trim_end_char_end: "trim_end_char c s = [] \<or> last (trim_end_char c s) \<noteq> c"
proof (induction c s rule: trim_end_char.induct)
  case (1 c s)
  then show ?case by (cases "s \<noteq> [] \<and> last s = c") (auto simp: trim_end_char.simps [of c s])
qed

lemma enqueue_fits:
  assumes "\<not> poisoned s" "queue_of s m = []" "0 < ql_max_messages lims" "length t \<le> unat (ql_max_bytes lims)"
  shows "\<exists>i s'. mem_enqueue m r t now lims s = (Inr (Some i), s')"
proof -
  have "length t < 2 ^ 64" using assms(4) unat_u64_less [of "ql_max_bytes lims"] by simp
  then have "\<not> ql_max_bytes lims < of_nat (length t)"
    using assms(4) by (simp add: word_less_nat_alt unat_of_nat take_bit_eq_mod)
  then show ?thesis using assms(1-3)
    by (simp add: mem_enqueue_cases live_part_def message_bytes_def)
qed

lemma accepted_config:
  assumes "from_lookup hn lookup = Inr c"
  shows "(\<exists>did. did_from_origin (cf_public_url c) = Inr did) \<and> last (cf_public_url c) \<noteq> CHR ''/''
    \<and> (pc_mode (cf_push c) = PushDirect \<longrightarrow> pc_fcm_service_account (cf_push c) \<noteq> None \<or> pc_apns (cf_push c) \<noteq> None)
    \<and> (\<forall>name. cf_client_ip_header c = Some name \<longrightarrow> hn name)
    \<and> 0 < cf_max_message_bytes c \<and> 0 < cf_queue_ttl_secs c \<and> 0 < cf_queue_max_messages c \<and> 0 < cf_max_recipient_dids c
    \<and> (\<forall>m r t now s. \<not> poisoned s \<and> queue_of s m = [] \<and> length t \<le> lm_max_message_bytes (limits_of c)
        \<longrightarrow> (\<exists>i s'. mem_enqueue m r t now (lm_queue (limits_of c)) s = (Inr (Some i), s')))"
proof -
  note c = from_lookup_Inr [OF assms]
  have pos: "0 < cf_max_message_bytes c" "0 < cf_queue_max_messages c" "0 < cf_max_recipient_dids c" "0 < cf_queue_ttl_secs c"
    using positive_usize_Inr [OF c(5)] positive_usize_Inr [OF c(6)] positive_usize_Inr [OF c(8)] positive_Inr [OF c(7)]
    by (simp_all add: word_less_nat_alt)
  have "cf_max_message_bytes c < 2 ^ 64" by (rule positive_usize_bound [OF c(5)])
  then have "cf_max_message_bytes c \<le> unat (cf_queue_max_bytes c)"
    using c(4) by (simp add: word_le_nat_alt unat_of_nat take_bit_eq_mod)
  then have fits: "\<exists>i s'. mem_enqueue m r t now (lm_queue (limits_of c)) s = (Inr (Some i), s')"
    if "\<not> poisoned s" "queue_of s m = []" "length t \<le> lm_max_message_bytes (limits_of c)" for m r t now s
    using that pos(2) by (intro enqueue_fits) (simp_all add: limits_of_def)
  have "cf_public_url c \<noteq> []" using c(1) by (auto simp: did_from_origin_def strip_prefix_def starts_with_def ok_or_def)
  then have "last (cf_public_url c) \<noteq> CHR ''/''" using from_lookup_url [OF assms] trim_end_char_end by metis
  then show ?thesis using c(1) push_setting_Inr [OF c(3)] client_ip_header_Inr [of hn lookup] c(2) pos fits by auto
qed

text \<open>C38: A configuration that is accepted works: the public URL is an origin with a DID and
  no slash at its end, direct push has
  credentials, a client header is a header name, all limits are positive, and any message the
  endpoint takes fits into an empty queue, so that no wallet is silently unable to receive.\<close>

theorem config_valid:
  assumes "from_lookup hn lookup = Inr c"
  shows "(\<exists>did. did_from_origin (cf_public_url c) = Inr did) \<and> last (cf_public_url c) \<noteq> CHR ''/''
    \<and> (pc_mode (cf_push c) = PushDirect \<longrightarrow> pc_fcm_service_account (cf_push c) \<noteq> None \<or> pc_apns (cf_push c) \<noteq> None)
    \<and> (\<forall>name. cf_client_ip_header c = Some name \<longrightarrow> hn name)
    \<and> 0 < cf_max_message_bytes c \<and> 0 < cf_queue_ttl_secs c \<and> 0 < cf_queue_max_messages c \<and> 0 < cf_max_recipient_dids c
    \<and> (\<forall>m r t now s. \<not> poisoned s \<and> queue_of s m = [] \<and> length t \<le> lm_max_message_bytes (limits_of c)
        \<longrightarrow> (\<exists>i s'. mem_enqueue m r t now (lm_queue (limits_of c)) s = (Inr (Some i), s')))"
  using assms by (rule accepted_config)

theorem config_valid_witness:
  "\<exists>c. from_lookup (\<lambda>_. True) (\<lambda>_. None) = Inr c \<and> 0 < cf_max_message_bytes c"
  using config_valid [OF default_config_accepted [of "\<lambda>_. True"]] default_config_accepted by blast

end
