(* ===== verification/Key_File.thy ===== *)
theory Key_File
  imports Mediator
begin

text \<open>
  The mediator's keys on disk, \<open>Keys\<close> and \<open>Identity::load_or_create\<close> and \<open>rotate\<close> of
  \<open>crates/mediator/src/identity.rs\<close>. A disk is a map from paths to files; any operation on it may
  fail, and a failing \<open>write_all\<close> may have written part of its bytes. A crash between two operations
  leaves the same disk as a failure of the second. The pretty printer of \<open>serde_json\<close> is a parameter.
\<close>

section \<open>Files\<close>

record disk_file =
  fl_bytes :: bytes
  fl_mode :: nat

type_synonym files = "string \<rightharpoonup> disk_file"

datatype fs_op =
    CreateDirAll string
  | OpenTruncate string nat
  | WriteAll string bytes
  | Rename string string
  | ReadFile string

text \<open>The mode of \<open>OpenOptions\<close> (\<open>0o600\<close>, 384) applies to a file that is created, not to one that is there.\<close>

fun fs_apply :: "fs_op \<Rightarrow> files \<Rightarrow> files" where
  "fs_apply (CreateDirAll d) fs = fs"
| "fs_apply (OpenTruncate p mode) fs =
     fs(p \<mapsto> \<lparr>fl_bytes = [], fl_mode = (case fs p of Some f \<Rightarrow> fl_mode f | None \<Rightarrow> mode)\<rparr>)"
| "fs_apply (WriteAll p bs) fs =
     (case fs p of Some f \<Rightarrow> fs(p \<mapsto> f\<lparr>fl_bytes := fl_bytes f @ bs\<rparr>) | None \<Rightarrow> fs)"
| "fs_apply (Rename p q) fs = (if p = q then fs else fs(p := None, q := fs p))"
| "fs_apply (ReadFile p) fs = fs"

text \<open>Which operations fail, with which error and how far a write got.\<close>

type_synonym faults = "fs_op \<Rightarrow> files \<Rightarrow> (string \<times> nat) option"

fun fs_partial :: "fs_op \<Rightarrow> nat \<Rightarrow> files \<Rightarrow> files" where
  "fs_partial (WriteAll p bs) k fs = fs_apply (WriteAll p (take k bs)) fs"
| "fs_partial _ k fs = fs"

definition fs_do :: "faults \<Rightarrow> fs_op \<Rightarrow> (files, string, unit) act" where
  "fs_do faults oper fs =
     (case faults oper fs of
        None \<Rightarrow> (Inr (), fs_apply oper fs)
      | Some (e, k) \<Rightarrow> (Inl e, fs_partial oper k fs))"

definition fs_read :: "faults \<Rightarrow> string \<Rightarrow> (files, string, bytes) act" where
  "fs_read faults p =
     bind_act (fs_do faults (ReadFile p)) (\<lambda>_ fs.
     (ok_or ''No such file or directory'' (map_option fl_bytes (fs p)), fs))"

section \<open>Paths\<close>

text \<open>A path without its trailing separators and \<open>.\<close> components, which \<open>Path\<close> skips.\<close>

function path_end :: "string \<Rightarrow> string" where
  "path_end p =
     (if p \<noteq> [] \<and> last p = CHR ''/'' then path_end (butlast p)
      else if ends_with p ''/.'' then path_end (take (length p - 2) p)
      else p)"
  by pat_completeness auto

termination path_end
  by (relation "measure length") (auto simp: ends_with_def)

declare path_end.simps [simp del]

text \<open>The directory part, with its separator, and the last component.\<close>

definition path_split :: "string \<Rightarrow> string \<times> string" where
  "path_split p =
     (case rsplit_once (CHR ''/'') (path_end p) of
        None \<Rightarrow> ([], path_end p)
      | Some (d, n) \<Rightarrow> (d @ ''/'', n))"

definition file_stem :: "string \<Rightarrow> string" where
  "file_stem n =
     (case rsplit_once (CHR ''.'') n of
        None \<Rightarrow> n
      | Some (before, after) \<Rightarrow> if before = [] then n else before)"

definition with_extension :: "string \<Rightarrow> string \<Rightarrow> string" where
  "with_extension p extension =
     (case path_split p of
        (d, n) \<Rightarrow> if n = [] \<or> n = ''.'' \<or> n = ''..'' then p else d @ file_stem n @ ''.'' @ extension)"

text \<open>\<open>Path::parent\<close>, unless it is empty.\<close>

definition parent_dir :: "string \<Rightarrow> string option" where
  "parent_dir p =
     (case path_split p of
        (d, n) \<Rightarrow> if d = [] then None else Some (if path_end d = [] then ''/'' else path_end d))"

section \<open>The key file\<close>

record key_file =
  kf_ed25519 :: jwk
  kf_x25519 :: jwk
  kf_p384 :: jwk

definition se_key_file :: "key_file \<Rightarrow> json" where
  "se_key_file f = JObj [(''ed25519'', se_jwk (kf_ed25519 f)), (''x25519'', se_jwk (kf_x25519 f)), (''p384'', se_jwk (kf_p384 f))]"

definition de_key_file :: "json \<Rightarrow> key_file option" where
  "de_key_file v =
     Option.bind (de_fields [''ed25519'', ''x25519'', ''p384''] v) (\<lambda>f.
     Option.bind (Option.bind (f ''ed25519'') de_jwk) (\<lambda>ed.
     Option.bind (Option.bind (f ''x25519'') de_jwk) (\<lambda>x.
     Option.bind (Option.bind (f ''p384'') de_jwk) (\<lambda>p.
     Some \<lparr>kf_ed25519 = ed, kf_x25519 = x, kf_p384 = p\<rparr>))))"

text \<open>An \<open>anyhow\<close> error: the library's, or a text.\<close>

datatype key_error = KeyLibrary error | KeyText string

definition key_of :: "ext \<Rightarrow> curve \<Rightarrow> jwk \<Rightarrow> key_error + secret_key" where
  "key_of X c j =
     bind_res (map_err KeyLibrary (secret_from_jwk X j)) (\<lambda>key.
     if sk_curve key = c then Inr key else Inl (KeyText (''expected a '' @ jwk_crv c @ '' key'')))"

definition parse_keys :: "ext \<Rightarrow> bytes \<Rightarrow> key_error + mediator_keys" where
  "parse_keys X bs =
     bind_res (map_err KeyLibrary (from_str_as X de_key_file bs)) (\<lambda>file.
     bind_res (key_of X Ed25519 (kf_ed25519 file)) (\<lambda>ed.
     bind_res (key_of X X25519 (kf_x25519 file)) (\<lambda>x.
     bind_res (key_of X P384 (kf_p384 file)) (\<lambda>p.
     Inr \<lparr>mk_ed25519 = ed, mk_x25519 = x, mk_p384 = p\<rparr>))))"

definition keys_read :: "ext \<Rightarrow> faults \<Rightarrow> string \<Rightarrow> (files, key_error, mediator_keys) act" where
  "keys_read X faults path =
     bind_act (map_err_act KeyText (fs_read faults path)) (\<lambda>bs. lift_act (parse_keys X bs))"

definition key_bytes :: "ext \<Rightarrow> (json \<Rightarrow> bytes) \<Rightarrow> mediator_keys \<Rightarrow> bytes" where
  "key_bytes X pretty keys =
     pretty (se_key_file \<lparr>kf_ed25519 = secret_to_jwk X (mk_ed25519 keys),
       kf_x25519 = secret_to_jwk X (mk_x25519 keys), kf_p384 = secret_to_jwk X (mk_p384 keys)\<rparr>)"

definition keys_write ::
  "ext \<Rightarrow> (json \<Rightarrow> bytes) \<Rightarrow> faults \<Rightarrow> mediator_keys \<Rightarrow> string \<Rightarrow> (files, string, unit) act" where
  "keys_write X pretty faults keys path =
     (let tmp = with_extension path ''tmp'' in
      bind_act (case parent_dir path of Some d \<Rightarrow> fs_do faults (CreateDirAll d) | None \<Rightarrow> return_act ()) (\<lambda>_.
      bind_act (fs_do faults (OpenTruncate tmp 384)) (\<lambda>_.
      bind_act (fs_do faults (WriteAll tmp (key_bytes X pretty keys))) (\<lambda>_.
      fs_do faults (Rename tmp path)))))"

section \<open>Loading, creating and rotating\<close>

text \<open>The process: its generator, and the disk.\<close>

record 'r host = "'r node" +
  ho_files :: files

definition on_disk :: "(files, 'e, 'a) act \<Rightarrow> ('r host, 'e, 'a) act" where
  "on_disk f h = (case f (ho_files h) of (r, fs) \<Rightarrow> (r, h\<lparr>ho_files := fs\<rparr>))"

definition new_keys :: "ext \<Rightarrow> ('r host, key_error, mediator_keys) act" where
  "new_keys X = map_err_act KeyLibrary (keys_generate X)"

definition load_or_create ::
  "ext \<Rightarrow> (json \<Rightarrow> bytes) \<Rightarrow> faults \<Rightarrow> string \<Rightarrow> string \<Rightarrow> ('r host, key_error, identity) act" where
  "load_or_create X pretty faults path public_url h =
     bind_act
       (if ho_files h path \<noteq> None
        then map_err_act (\<lambda>_. KeyText (''reading mediator keys from '' @ path)) (on_disk (keys_read X faults path))
        else
          bind_act (new_keys X) (\<lambda>keys.
          bind_act (map_err_act (\<lambda>_. KeyText (''writing mediator keys to '' @ path))
            (on_disk (keys_write X pretty faults keys path))) (\<lambda>_.
          return_act keys)))
       (\<lambda>keys. lift_act (map_err KeyLibrary (identity_new X keys public_url))) h"

definition rotate_keys :: "ext \<Rightarrow> (json \<Rightarrow> bytes) \<Rightarrow> faults \<Rightarrow> string \<Rightarrow> ('r host, key_error, unit) act" where
  "rotate_keys X pretty faults path h =
     (if ho_files h path = None then (Inl (KeyText (''no mediator keys at '' @ path @ '' to rotate'')), h)
      else
        bind_act (new_keys X) (\<lambda>keys.
        map_err_act (\<lambda>_. KeyText (''writing mediator keys to '' @ path))
          (on_disk (keys_write X pretty faults keys path))) h)"

end
