(* ===== verification/Key_File_Properties.thy ===== *)
theory Key_File_Properties
  imports Key_File Sample_Mediator
begin

text \<open>What survives when the key file is replaced, and what is read back.\<close>

section \<open>What is written is read back\<close>

definition secret_ok :: "ext \<Rightarrow> curve \<Rightarrow> secret_key \<Rightarrow> bool" where
  "secret_ok X c k \<longleftrightarrow> sk_curve k = c \<and> secret_from_bytes X c (secret_to_bytes k) = Inr k"

definition keys_ok :: "ext \<Rightarrow> mediator_keys \<Rightarrow> bool" where
  "keys_ok X keys \<longleftrightarrow> secret_ok X Ed25519 (mk_ed25519 keys) \<and> secret_ok X X25519 (mk_x25519 keys)
     \<and> secret_ok X P384 (mk_p384 keys)"

text \<open>Documented behaviour: the bytes a scalar is exported as are read back as that scalar, and the
  pretty printer writes JSON.\<close>

definition scalar_law :: "ext \<Rightarrow> bool" where
  "scalar_law X \<longleftrightarrow> (\<forall>c bs k. sk_decode X c bs = Some k \<longrightarrow> sk_decode X c k = Some k)"

definition pretty_law :: "ext \<Rightarrow> (json \<Rightarrow> bytes) \<Rightarrow> bool" where
  "pretty_law X pretty \<longleftrightarrow> (\<forall>v. json_plain v \<longrightarrow> json_parse X (pretty v) = Inr v)"

lemma secret_jwk_round_trip:
  assumes "text_laws X" "secret_ok X c k"
  shows "secret_from_jwk X (secret_to_jwk X k) = Inr k"
proof -
  have c: "j_crv (public_to_jwk X (public_key_of X k)) = jwk_crv c"
    using assms(2) by (simp add: public_to_jwk_def Let_def secret_ok_def split_beta)
  show ?thesis using assms by (simp add: secret_from_jwk_def secret_to_jwk_def c secret_ok_def ok_or_def)
qed

lemma key_of_round_trip:
  "text_laws X \<Longrightarrow> secret_ok X c k \<Longrightarrow> key_of X c (secret_to_jwk X k) = Inr k"
  by (simp add: key_of_def secret_jwk_round_trip map_err_def) (simp add: secret_ok_def)

lemma parse_key_bytes:
  assumes "text_laws X" "pretty_law X pretty" "keys_ok X keys"
  shows "parse_keys X (key_bytes X pretty keys) = Inr keys"
proof -
  let ?f = "\<lparr>kf_ed25519 = secret_to_jwk X (mk_ed25519 keys), kf_x25519 = secret_to_jwk X (mk_x25519 keys),
    kf_p384 = secret_to_jwk X (mk_p384 keys)\<rparr>"
  have "json_parse X (key_bytes X pretty keys) = Inr (se_key_file ?f)"
    using assms(2) by (simp add: pretty_law_def key_bytes_def se_key_file_def)
  moreover have "de_key_file (se_key_file ?f) = Some ?f"
    by (simp add: de_key_file_def se_key_file_def de_fields_def)
  ultimately have "from_str_as X de_key_file (key_bytes X pretty keys) = Inr ?f"
    by (simp add: from_str_as_def ok_or_def)
  then show ?thesis using assms(3)
    by (simp add: parse_keys_def map_err_def key_of_round_trip [OF assms(1)] keys_ok_def)
qed

lemma secret_from_bytes_ok:
  "scalar_law X \<Longrightarrow> secret_from_bytes X c bs = Inr k \<Longrightarrow> secret_ok X c k"
  by (cases c) (auto simp: secret_ok_def secret_from_bytes_def Let_def scalar_law_def ensure_def ok_or_def
      split: if_splits option.splits)

lemma generate_fuel_ok: "scalar_law X \<Longrightarrow> generate_fuel n X c s = (Inr k, s') \<Longrightarrow> secret_ok X c k"
proof (induction n arbitrary: s)
  case (Suc n)
  then obtain bs t where step: "(case secret_from_bytes X c (mask_p521 c bs) of
      Inr key \<Rightarrow> return_act key | Inl _ \<Rightarrow> generate_fuel n X c) t = (Inr k, s')"
    by (auto simp: bind_act_Inr)
  then show ?case
    by (cases "secret_from_bytes X c (mask_p521 c bs)")
      (auto dest: secret_from_bytes_ok [OF Suc.prems(1)] Suc.IH [OF Suc.prems(1)])
qed simp

lemma generate_ok: "scalar_law X \<Longrightarrow> keys_generate X s = (Inr keys, s') \<Longrightarrow> keys_ok X keys"
  by (auto simp: keys_generate_def bind_act_Inr keys_ok_def generate_def dest: generate_fuel_ok)

section \<open>Writing\<close>

text \<open>The path changes with the last operation only, and then to the complete file.\<close>

lemma keys_write_spec:
  assumes "with_extension path ''tmp'' \<noteq> path" "keys_write X pretty faults keys path fs = (r, fs')"
  shows "(\<forall>q. q \<noteq> path \<longrightarrow> q \<noteq> with_extension path ''tmp'' \<longrightarrow> fs' q = fs q)
    \<and> (case r of Inl e \<Rightarrow> fs' path = fs path
       | Inr _ \<Rightarrow> map_option fl_bytes (fs' path) = Some (key_bytes X pretty keys))"
proof -
  let ?tmp = "with_extension path ''tmp''"
  have only: "fs_do faults oper s = (x, s') \<Longrightarrow> oper = OpenTruncate ?tmp m \<or> oper = WriteAll ?tmp bs \<or> oper = CreateDirAll d
      \<Longrightarrow> q \<noteq> ?tmp \<Longrightarrow> s' q = s q" for oper s x s' m bs d q
    by (auto simp: fs_do_def split: option.splits)
  have full: "fs_do faults (OpenTruncate ?tmp m) s = (Inr u, s1) \<Longrightarrow> fs_do faults (WriteAll ?tmp bs) s1 = (Inr v, s2)
      \<Longrightarrow> map_option fl_bytes (s2 ?tmp) = Some bs" for s s1 s2 m bs u v
    by (auto simp: fs_do_def split: option.splits)
  obtain r0 s0 where 0: "(case parent_dir path of Some d \<Rightarrow> fs_do faults (CreateDirAll d) | None \<Rightarrow> return_act ()) fs = (r0, s0)"
    by fastforce
  then have k0: "s0 = fs" by (auto simp: fs_do_def split: option.splits)
  obtain r1 s1 where 1: "fs_do faults (OpenTruncate ?tmp 384) s0 = (r1, s1)" by fastforce
  obtain r2 s2 where 2: "fs_do faults (WriteAll ?tmp (key_bytes X pretty keys)) s1 = (r2, s2)" by fastforce
  obtain r3 s3 where 3: "fs_do faults (Rename ?tmp path) s2 = (r3, s3)" by fastforce
  have k1: "q \<noteq> ?tmp \<Longrightarrow> s1 q = fs q" and k2: "q \<noteq> ?tmp \<Longrightarrow> s2 q = fs q" for q
    using only [OF 1] only [OF 2] k0 by auto
  have k3: "(case r3 of Inl e \<Rightarrow> s3 = s2 | Inr _ \<Rightarrow> s3 = s2(?tmp := None, path := s2 ?tmp))"
    using 3 assms(1) by (auto simp: fs_do_def split: option.splits)
  have res: "keys_write X pretty faults keys path fs = (case r0 of Inl e \<Rightarrow> (Inl e, s0) | Inr _ \<Rightarrow> (case r1 of Inl e \<Rightarrow> (Inl e, s1)
      | Inr _ \<Rightarrow> (case r2 of Inl e \<Rightarrow> (Inl e, s2) | Inr _ \<Rightarrow> (r3, s3))))"
    by (cases r0; cases r1; cases r2) (simp_all add: keys_write_def Let_def bind_act_def 0 1 2 3)
  consider (failed) e where "r = Inl e" "fs' \<in> {s0, s1, s2}"
    | (last) "r = r3" "fs' = s3" "r1 = Inr ()" "r2 = Inr ()"
    using assms(2) unfolding res by (cases r0; cases r1; cases r2) auto
  then show ?thesis
  proof cases
    case failed
    then show ?thesis using k0 k1 k2 assms(1) by auto
  next
    case last
    have "map_option fl_bytes (s2 ?tmp) = Some (key_bytes X pretty keys)" by (rule full) (use 1 2 last in simp_all)
    then show ?thesis using k2 k3 assms(1) last by (cases r3) simp_all
  qed
qed

section \<open>Rotation\<close>

text \<open>After a rotation, however it went, the file has the old keys or the complete new ones.\<close>

lemma rotate_keys_spec:
  fixes h :: "'r host"
  assumes laws: "text_laws X" "pretty_law X pretty" "scalar_law X"
    and tmp: "with_extension path ''tmp'' \<noteq> path"
    and old: "ho_files h path = Some f" "parse_keys X (fl_bytes f) = Inr old"
    and r: "rotate_keys X pretty faults path h = (r, h')"
  shows "\<exists>f' keys. ho_files h' path = Some f' \<and> parse_keys X (fl_bytes f') = Inr keys
    \<and> (case r of Inl e \<Rightarrow> keys = old | Inr _ \<Rightarrow> keys_ok X keys \<and> fst (new_keys X h) = Inr keys)
    \<and> (\<forall>q. q \<noteq> path \<longrightarrow> q \<noteq> with_extension path ''tmp'' \<longrightarrow> ho_files h' q = ho_files h q)"
proof -
  obtain n h1 where n: "(new_keys X :: ('r host, key_error, mediator_keys) act) h = (n, h1)" by fastforce
  have "steps node_only (new_keys X :: ('r host, key_error, mediator_keys) act)"
    unfolding new_keys_def keys_generate_def by (intro nodeG.rules node_only_generate)
  from stepsD [OF this n] have "node.more h1 = node.more h" by (simp only: node_only_def)
  then have d: "ho_files h1 = ho_files h" by (cases h; cases h1) simp
  show ?thesis
  proof (cases n)
    case (Inl e)
    then show ?thesis using r n d old by (auto simp: rotate_keys_def bind_act_def)
  next
    case (Inr keys)
    obtain w fs' where w: "keys_write X pretty faults keys path (ho_files h1) = (w, fs')" by fastforce
    have "keys_ok X keys" using generate_ok [OF laws(3)] n Inr
      by (auto simp: new_keys_def map_err_act_def map_err_def split: prod.splits sum.splits)
    then have p: "parse_keys X (key_bytes X pretty keys) = Inr keys" by (rule parse_key_bytes [OF laws(1,2)])
    have k: "(\<forall>q. q \<noteq> path \<longrightarrow> q \<noteq> with_extension path ''tmp'' \<longrightarrow> fs' q = ho_files h1 q)
      \<and> (case w of Inl e \<Rightarrow> fs' path = ho_files h1 path
         | Inr _ \<Rightarrow> map_option fl_bytes (fs' path) = Some (key_bytes X pretty keys))"
      by (rule keys_write_spec [OF tmp w])
    have h': "h' = h1\<lparr>ho_files := fs'\<rparr>" "r = (case w of Inl _ \<Rightarrow> Inl (KeyText (''writing mediator keys to '' @ path)) | Inr u \<Rightarrow> Inr u)"
      using r n Inr old(1) w by (auto simp: rotate_keys_def bind_act_def map_err_act_def map_err_def on_disk_def split: sum.splits)
    show ?thesis
    proof (cases w)
      case (Inl e)
      then show ?thesis using k h' d old by auto
    next
      case (Inr u)
      then obtain f' where "fs' path = Some f'" "fl_bytes f' = key_bytes X pretty keys" using k by auto
      then show ?thesis using k h' d p n \<open>n = Inr keys\<close> \<open>keys_ok X keys\<close> Inr by auto
    qed
  qed
qed

lemma load_existing:
  fixes h :: "'r host"
  assumes "ho_files h path = Some f" "parse_keys X (fl_bytes f) = Inr keys"
  shows "fst ((load_or_create X pretty (\<lambda>_ _. None) path url :: ('r host, key_error, identity) act) h)
    = map_err KeyLibrary (identity_new X keys url)"
  using assms
  by (simp add: load_or_create_def bind_act_def map_err_act_def on_disk_def keys_read_def fs_read_def fs_do_def lift_act_def
      map_err_def split: sum.split)

text \<open>C39: Rotating the keys is atomic. However the rotation ended, and whichever operation on the disk
  failed or was never reached, the next start finds the old keys if it was not reported as done, and
  exactly the new keys if it was; no other file but the temporary one has changed.\<close>

theorem key_rotation_atomic:
  fixes h :: "'r host"
  assumes "text_laws X" "pretty_law X pretty" "scalar_law X" "with_extension path ''tmp'' \<noteq> path"
    and "ho_files h path = Some f" "parse_keys X (fl_bytes f) = Inr old"
    and "rotate_keys X pretty faults path h = (r, h')"
  shows "\<exists>keys. fst ((load_or_create X pretty (\<lambda>_ _. None) path url :: ('r host, key_error, identity) act) h')
        = map_err KeyLibrary (identity_new X keys url)
    \<and> (case r of Inl e \<Rightarrow> keys = old | Inr _ \<Rightarrow> keys_ok X keys \<and> fst (new_keys X h) = Inr keys)
    \<and> (\<forall>q. q \<noteq> path \<longrightarrow> q \<noteq> with_extension path ''tmp'' \<longrightarrow> ho_files h' q = ho_files h q)"
  using rotate_keys_spec [OF assms] load_existing by metis

definition sample_host :: "unit host" where
  "sample_host = \<lparr>resolver_state = (), draws = 0,
     ho_files = [''keys.json'' \<mapsto> \<lparr>fl_bytes = key_bytes sample_ext sample_print sample_keys, fl_mode = 384\<rparr>]\<rparr>"

text \<open>The disk is full: half of the new file is written.\<close>

definition disk_full :: faults where
  "disk_full oper fs = (case oper of WriteAll p bs \<Rightarrow> Some (''No space left on device'', length bs div 2) | _ \<Rightarrow> None)"

lemma keys_write_full: "fst (keys_write X pretty disk_full keys path fs) = Inl ''No space left on device''"
  by (simp add: keys_write_def Let_def bind_act_def fs_do_def disk_full_def split: option.split)

lemma with_extension_sample: "with_extension ''keys.json'' ''tmp'' = ''keys.tmp''"
proof -
  have "path_end ''keys.json'' = ''keys.json''" by (subst path_end.simps) (simp add: ends_with_def)
  then show ?thesis by (simp add: with_extension_def path_split_def rsplit_once_def file_stem_def)
qed

lemma sample_keys_ok: "keys_ok sample_ext sample_keys"
  by (simp add: keys_ok_def secret_ok_def sample_keys_def secret_from_bytes_def ensure_def ok_or_def)

theorem key_rotation_atomic_witness:
  "\<exists>r h'. rotate_keys sample_ext sample_print disk_full ''keys.json'' sample_host = (r, h')
    \<and> fst ((load_or_create sample_ext sample_print (\<lambda>_ _. None) ''keys.json'' ''https://m'' :: (unit host, key_error, identity) act) h')
      = Inr sample_identity"
proof -
  obtain r h' where r: "rotate_keys sample_ext sample_print disk_full ''keys.json'' sample_host = (r, h')" by fastforce
  have laws: "pretty_law sample_ext sample_print" "scalar_law sample_ext"
    using sample_text_laws by (simp_all add: pretty_law_def text_laws_def scalar_law_def)
  have there: "ho_files sample_host ''keys.json'' = Some \<lparr>fl_bytes = key_bytes sample_ext sample_print sample_keys, fl_mode = 384\<rparr>"
    by (simp add: sample_host_def)
  have "parse_keys sample_ext (key_bytes sample_ext sample_print sample_keys) = Inr sample_keys"
    by (rule parse_key_bytes [OF sample_text_laws laws(1) sample_keys_ok])
  then obtain keys where k: "fst ((load_or_create sample_ext sample_print (\<lambda>_ _. None) ''keys.json'' ''https://m''
      :: (unit host, key_error, identity) act) h') = map_err KeyLibrary (identity_new sample_ext keys ''https://m'')"
    "case r of Inl e \<Rightarrow> keys = sample_keys | Inr _ \<Rightarrow> keys_ok sample_ext keys \<and> fst (new_keys sample_ext sample_host) = Inr keys"
    using key_rotation_atomic [OF sample_text_laws laws _ there _ r] with_extension_sample by force
  have "\<exists>e. r = Inl e"
    using r by (auto simp: rotate_keys_def bind_act_def map_err_act_def map_err_def on_disk_def
        split: if_splits prod.splits sum.splits) (metis keys_write_full fst_conv Inl_Inr_False)
  then show ?thesis using k r sample_identity by (auto simp: map_err_def)
qed

text \<open>If the key file itself has the extension \<open>tmp\<close>, the temporary file is the key file, and a
  failing write leaves it torn.\<close>

lemma key_file_named_tmp:
  assumes "with_extension path ''tmp'' = path" "parent_dir path = None" "fs path = Some f"
  shows "keys_write X pretty disk_full keys path fs
    = (Inl ''No space left on device'', fs(path \<mapsto> f\<lparr>fl_bytes := take (length (key_bytes X pretty keys) div 2) (key_bytes X pretty keys)\<rparr>))"
  using assms by (cases f) (simp add: keys_write_def bind_act_def fs_do_def disk_full_def)

end
