(* ===== verification/Providers.thy ===== *)
theory Providers
  imports Push Config
begin

text \<open>
  The push services, \<open>crates/mediator/src/push/apns.rs\<close>, \<open>fcm.rs\<close> and \<open>jwt.rs\<close>: the tokens the mediator
  authenticates with, how long it reuses them, what it sends, and what it makes of the answer. The
  HTTP client, the clocks and the signing keys are parameters; instants are in seconds.
\<close>

section \<open>The client, and what is cached\<close>

text \<open>A request is its URL, bearer token, headers and body; an answer its status and its body as JSON.\<close>

record 'm push_client =
  pc_send :: "string \<Rightarrow> string option \<Rightarrow> (string \<times> string) list \<Rightarrow> string \<Rightarrow> 'm \<Rightarrow> (string + nat \<times> (string + json)) \<times> 'm"
  pc_unix :: "'m \<Rightarrow> u64"
  pc_instant :: "'m \<Rightarrow> nat"
  pc_status :: "nat \<Rightarrow> string"

text \<open>\<open>Mutex<Option<(String, Instant)>>\<close>.\<close>

record token_cache =
  tc_poisoned :: bool
  tc_token :: "(string \<times> nat) option"

record 'm providers =
  pv_net :: 'm
  pv_apns :: token_cache
  pv_fcm :: token_cache

definition cached_token :: "token_cache \<Rightarrow> nat \<Rightarrow> string option" where
  "cached_token c instant =
     (if tc_poisoned c then None
      else case tc_token c of
        Some (t, til) \<Rightarrow> if instant < til then Some t else None
      | None \<Rightarrow> None)"

definition store_token :: "(string \<times> nat) option \<Rightarrow> token_cache \<Rightarrow> token_cache" where
  "store_token v c = (if tc_poisoned c then c else c\<lparr>tc_token := v\<rparr>)"

definition WAKE :: string where "WAKE = ''almena.wake''"
definition TITLE_KEY :: string where "TITLE_KEY = ''almena_wake_title''"
definition BODY_KEY :: string where "BODY_KEY = ''almena_wake_body''"

section \<open>JWTs\<close>

definition jwt_encode :: "ext \<Rightarrow> json \<Rightarrow> json \<Rightarrow> (bytes \<Rightarrow> string + bytes) \<Rightarrow> string + string" where
  "jwt_encode X hdr claims sign =
     (let input = b64_encode X (json_print X hdr) @ ''.'' @ b64_encode X (json_print X claims) in
      bind_res (sign input) (\<lambda>signature. Inr (input @ ''.'' @ b64_encode X signature)))"

section \<open>APNs\<close>

definition PRODUCTION_URL :: string where "PRODUCTION_URL = ''https://api.push.apple.com''"
definition SANDBOX_URL :: string where "SANDBOX_URL = ''https://api.sandbox.push.apple.com''"
definition JWT_LIFETIME :: nat where "JWT_LIFETIME = 50 * 60"

record apns =
  ap_url :: string
  ap_topic :: string
  ap_team_id :: string
  ap_key_id :: string
  ap_sign :: "bytes \<Rightarrow> bytes option"

text \<open>\<open>Apns::new\<close>: \<open>pem\<close> is what reading the key file gave, \<open>ec_key\<close> parses it. Errors show the outermost
  context.\<close>

definition apns_new ::
  "(string \<Rightarrow> string + (bytes \<Rightarrow> bytes option)) \<Rightarrow> string + 'm push_client \<Rightarrow> apns_config \<Rightarrow> string + string
     \<Rightarrow> string + 'm push_client \<times> apns" where
  "apns_new ec_key client cfg pem =
     bind_res (map_err (\<lambda>_. ''reading APNs key '' @ ac_key_path cfg) pem) (\<lambda>pem.
     let url = (if ac_sandbox cfg then SANDBOX_URL else PRODUCTION_URL) in
     map_err (\<lambda>_. ''APNs key '' @ ac_key_path cfg) (
       bind_res (ec_key pem) (\<lambda>key.
       bind_res client (\<lambda>C.
       Inr (C, \<lparr>ap_url = url, ap_topic = ac_topic cfg, ap_team_id = ac_team_id cfg, ap_key_id = ac_key_id cfg, ap_sign = key\<rparr>)))))"

definition apns_payload :: json where
  "apns_payload = JObj [
     (''aps'', JObj [
        (''alert'', JObj [(''title-loc-key'', JStr TITLE_KEY), (''loc-key'', JStr BODY_KEY)]),
        (''sound'', JStr ''default''), (''thread-id'', JStr WAKE)]),
     (''type'', JStr WAKE)]"

definition provider_token :: "ext \<Rightarrow> 'm push_client \<Rightarrow> apns \<Rightarrow> ('m providers, string, string) act" where
  "provider_token X C a p =
     (case cached_token (pv_apns p) (pc_instant C (pv_net p)) of
        Some t \<Rightarrow> (Inr t, p)
      | None \<Rightarrow>
          (case jwt_encode X (JObj [(''alg'', JStr ''ES256''), (''kid'', JStr (ap_key_id a))])
             (JObj [(''iss'', JStr (ap_team_id a)), (''iat'', JU64 (pc_unix C (pv_net p)))])
             (\<lambda>input. ok_or ''ECDSA signing failed'' (ap_sign a input)) of
             Inl e \<Rightarrow> (Inl e, p)
           | Inr t \<Rightarrow>
               (Inr t, p\<lparr>pv_apns := store_token (Some (t, pc_instant C (pv_net p) + JWT_LIFETIME)) (pv_apns p)\<rparr>)))"

definition forget_provider_token :: "'m providers \<Rightarrow> 'm providers" where
  "forget_provider_token p = p\<lparr>pv_apns := store_token None (pv_apns p)\<rparr>"

definition on_push_net :: "('m \<Rightarrow> (string + 'a) \<times> 'm) \<Rightarrow> ('m providers, string, 'a) act" where
  "on_push_net f p = (case f (pv_net p) of (r, m) \<Rightarrow> (r, p\<lparr>pv_net := m\<rparr>))"

definition apns_url :: "apns \<Rightarrow> string \<Rightarrow> string" where
  "apns_url a token = ap_url a @ ''/3/device/'' @ token"

definition apns_answer :: "'m push_client \<Rightarrow> nat \<Rightarrow> string + json \<Rightarrow> ('m providers, string, sent) act" where
  "apns_answer C code body p =
     (if 200 \<le> code \<and> code < 300 then (Inr Delivered, p)
      else
        (let err = (case body of Inr v \<Rightarrow> v | Inl _ \<Rightarrow> JNull);
             reason = (case jget_str ''reason'' err of Some t \<Rightarrow> t | None \<Rightarrow> [])
         in if code = 410 \<or> code = 400 \<and> (reason = ''BadDeviceToken'' \<or> reason = ''DeviceTokenNotForTopic'')
            then (Inr InvalidToken, p)
            else if code = 403 \<and> (reason = ''ExpiredProviderToken'' \<or> reason = ''InvalidProviderToken'')
            then (Inl (''APNs refused the provider token: '' @ reason), forget_provider_token p)
            else (Inl (''APNs answered '' @ pc_status C code @ '': '' @ reason), p)))"

definition apns_wake :: "ext \<Rightarrow> 'm push_client \<Rightarrow> apns \<Rightarrow> 'm providers push_service" where
  "apns_wake X C a token =
     bind_act (provider_token X C a) (\<lambda>jwt.
     bind_act (on_push_net (pc_send C (apns_url a token) (Some jwt)
       [(''apns-topic'', ap_topic a), (''apns-push-type'', ''alert''), (''apns-priority'', ''10''),
        (''apns-collapse-id'', WAKE), (''content-type'', ''application/json'')] (json_print X apns_payload))) (\<lambda>(code, body).
     apns_answer C code body))"

section \<open>FCM\<close>

definition SCOPE :: string where "SCOPE = ''https://www.googleapis.com/auth/firebase.messaging''"
definition FCM_URL :: string where "FCM_URL = ''https://fcm.googleapis.com''"

record service_account =
  sv_project_id :: string
  sv_private_key_id :: string
  sv_private_key :: string
  sv_client_email :: string
  sv_token_uri :: string

definition de_service_account :: "json \<Rightarrow> service_account option" where
  "de_service_account v =
     Option.bind (de_fields [''project_id'', ''private_key_id'', ''private_key'', ''client_email'', ''token_uri''] v) (\<lambda>f.
     Option.bind (req_str f ''project_id'') (\<lambda>project.
     Option.bind (req_str f ''private_key_id'') (\<lambda>key_id.
     Option.bind (req_str f ''private_key'') (\<lambda>key.
     Option.bind (req_str f ''client_email'') (\<lambda>email.
     Option.bind (req_str f ''token_uri'') (\<lambda>uri.
     Some \<lparr>sv_project_id = project, sv_private_key_id = key_id, sv_private_key = key,
       sv_client_email = email, sv_token_uri = uri\<rparr>))))))"

record fcm =
  fc_send_url :: string
  fc_token_uri :: string
  fc_client_email :: string
  fc_key_id :: string
  fc_sign :: "bytes \<Rightarrow> bytes option"

definition fcm_new ::
  "ext \<Rightarrow> (string \<Rightarrow> string + (bytes \<Rightarrow> bytes option)) \<Rightarrow> string + 'm push_client \<Rightarrow> string \<Rightarrow> string
     \<Rightarrow> string + 'm push_client \<times> fcm" where
  "fcm_new X rsa_key client service_account fcm_url =
     bind_res (map_err (\<lambda>_. ''not a service account key file'') (from_str_as X de_service_account service_account)) (\<lambda>account.
     bind_res (rsa_key (sv_private_key account)) (\<lambda>key.
     bind_res client (\<lambda>C.
     Inr (C, \<lparr>fc_send_url = fcm_url @ ''/v1/projects/'' @ sv_project_id account @ ''/messages:send'',
       fc_token_uri = sv_token_uri account, fc_client_email = sv_client_email account,
       fc_key_id = sv_private_key_id account, fc_sign = key\<rparr>))))"

definition fcm_from_file ::
  "ext \<Rightarrow> (string \<Rightarrow> string + (bytes \<Rightarrow> bytes option)) \<Rightarrow> string + 'm push_client \<Rightarrow> string \<Rightarrow> string + string
     \<Rightarrow> string + 'm push_client \<times> fcm" where
  "fcm_from_file X rsa_key client path json_text =
     bind_res (map_err (\<lambda>_. ''reading FCM service account '' @ path) json_text) (\<lambda>t.
     map_err (\<lambda>_. ''FCM service account '' @ path) (fcm_new X rsa_key client t FCM_URL))"

definition fcm_message :: "string \<Rightarrow> json" where
  "fcm_message token = JObj [(''message'', JObj [
     (''token'', JStr token), (''data'', JObj [(''type'', JStr WAKE)]),
     (''android'', JObj [
        (''priority'', JStr ''high''), (''collapse_key'', JStr WAKE),
        (''notification'', JObj [(''title_loc_key'', JStr TITLE_KEY), (''body_loc_key'', JStr BODY_KEY),
           (''tag'', JStr WAKE)])])])]"

definition is_invalid_token :: "json \<Rightarrow> bool" where
  "is_invalid_token err =
     (case as_array (jindex ''details'' (jindex ''error'' err)) of
        None \<Rightarrow> False
      | Some details \<Rightarrow>
          list_ex (\<lambda>d. case as_str (jindex ''errorCode'' d) of
            Some t \<Rightarrow> t = ''UNREGISTERED'' \<or> t = ''INVALID_ARGUMENT'' | None \<Rightarrow> False) details)"

text \<open>The OAuth answer: the access token and for how many seconds it is good.\<close>

definition de_access_token :: "json \<Rightarrow> (string \<times> u64) option" where
  "de_access_token v =
     Option.bind (de_fields [''access_token'', ''expires_in''] v) (\<lambda>f.
     Option.bind (req_str f ''access_token'') (\<lambda>t.
     Option.bind (Option.bind (f ''expires_in'') as_u64) (\<lambda>n. Some (t, n))))"

definition fcm_claims :: "fcm \<Rightarrow> u64 \<Rightarrow> json" where
  "fcm_claims f iat = JObj [(''iss'', JStr (fc_client_email f)), (''scope'', JStr SCOPE), (''aud'', JStr (fc_token_uri f)),
     (''iat'', JU64 iat), (''exp'', JU64 (iat + 3600))]"

definition access_token :: "ext \<Rightarrow> 'm push_client \<Rightarrow> fcm \<Rightarrow> ('m providers, string, string) act" where
  "access_token X C f p =
     (case cached_token (pv_fcm p) (pc_instant C (pv_net p)) of
        Some t \<Rightarrow> (Inr t, p)
      | None \<Rightarrow>
          bind_act (lift_act (jwt_encode X
            (JObj [(''alg'', JStr ''RS256''), (''typ'', JStr ''JWT''), (''kid'', JStr (fc_key_id f))])
            (fcm_claims f (pc_unix C (pv_net p))) (\<lambda>input. ok_or ''RSA signing failed'' (fc_sign f input)))) (\<lambda>assertion.
          bind_act (on_push_net (pc_send C (fc_token_uri f) None [(''content-type'', ''application/x-www-form-urlencoded'')]
            (''grant_type=urn%3Aietf%3Aparams%3Aoauth%3Agrant-type%3Ajwt-bearer&assertion='' @ assertion))) (\<lambda>(code, body).
          if \<not> (200 \<le> code \<and> code < 300) then throw_act (''OAuth token endpoint answered '' @ pc_status C code)
          else
            bind_act (lift_act (ok_or ''reading the OAuth access token''
              (case body of Inr v \<Rightarrow> de_access_token v | Inl _ \<Rightarrow> None))) (\<lambda>(t, expires_in) q.
            (Inr t, q\<lparr>pv_fcm := store_token (Some (t, pc_instant C (pv_net q) + unat (saturating_sub expires_in 60)))
               (pv_fcm q)\<rparr>)))) p)"

definition forget_access_token :: "'m providers \<Rightarrow> 'm providers" where
  "forget_access_token p = p\<lparr>pv_fcm := store_token None (pv_fcm p)\<rparr>"

definition fcm_answer :: "'m push_client \<Rightarrow> nat \<Rightarrow> string + json \<Rightarrow> ('m providers, string, sent) act" where
  "fcm_answer C code body p =
     (if 200 \<le> code \<and> code < 300 then (Inr Delivered, p)
      else
        (let p = (if code = 401 then forget_access_token p else p);
             err = (case body of Inr v \<Rightarrow> v | Inl _ \<Rightarrow> JNull)
         in if is_invalid_token err then (Inr InvalidToken, p)
            else (Inl (''FCM answered '' @ pc_status C code @ '': ''
              @ (case as_str (jindex ''message'' (jindex ''error'' err)) of Some t \<Rightarrow> t | None \<Rightarrow> [])), p)))"

definition fcm_wake :: "ext \<Rightarrow> 'm push_client \<Rightarrow> fcm \<Rightarrow> 'm providers push_service" where
  "fcm_wake X C f token =
     bind_act (access_token X C f) (\<lambda>access.
     bind_act (on_push_net (pc_send C (fc_send_url f) (Some access) [(''content-type'', ''application/json'')]
       (json_print X (fcm_message token)))) (\<lambda>(code, body).
     fcm_answer C code body))"

end
