(* ===== verification/Providers_Properties.thy ===== *)
theory Providers_Properties
  imports Providers Sample_Ext
begin

text \<open>What the push services are asked, and how tokens are reused.\<close>

section \<open>Requests\<close>

lemma parse_device_apns:
  assumes "parse_device Apns body = Some (Some dev)"
  shows "is_apns_token (dv_token dev) \<and> dv_platform dev = None"
proof -
  obtain t where "nullable_str ''device_token'' body = Some (Some t)" "is_apns_token t" "dev = \<lparr>dv_token = t, dv_platform = None\<rparr>"
    using assms unfolding parse_device_def service.case bind_eq_Some_conv by (elim exE conjE) (simp split: option.splits if_splits)
  then show ?thesis by simp
qed

lemma hex_not_special:
  "is_ascii_hexdigit c \<Longrightarrow> c \<notin> set ''/?#%@:''"
  by (auto simp: is_ascii_hexdigit_def is_ascii_digit_def)

text \<open>C40: A device token that was accepted for APNs is safe in the path of the request: it is hexadecimal, so
  the URL has exactly the segments of the API and the token as its last one, without a query or a
  fragment; and whatever a wallet registers, the wake-up asks no other URL of the network.\<close>

theorem apns_request_path:
  assumes "parse_device Apns body = Some (Some dev)"
  shows "split (CHR ''/'') (apns_url a (dv_token dev)) = split (CHR ''/'') (ap_url a) @ [''3'', ''device'', dv_token dev]
    \<and> set (dv_token dev) \<inter> set ''/?#%@:'' = {} \<and> dv_token dev \<noteq> [] \<and> length (dv_token dev) \<le> MAX_APNS_TOKEN
    \<and> (\<forall>X C D p. pc_send D (apns_url a (dv_token dev)) = pc_send C (apns_url a (dv_token dev))
          \<and> pc_unix D = pc_unix C \<and> pc_instant D = pc_instant C \<and> pc_status D = pc_status C
        \<longrightarrow> apns_wake X D a (dv_token dev) p = apns_wake X C a (dv_token dev) p)"
proof -
  let ?t = "dv_token dev"
  have hex: "list_all is_ascii_hexdigit ?t" and t: "?t \<noteq> []" "length ?t \<le> MAX_APNS_TOKEN"
    using parse_device_apns [OF assms] by (simp_all add: is_apns_token_def)
  have clean: "set ?t \<inter> set ''/?#%@:'' = {}" using hex hex_not_special by (auto simp: list_all_iff)
  have "apns_url a ?t = ap_url a @ CHR ''/'' # ''3'' @ CHR ''/'' # ''device'' @ CHR ''/'' # ?t" by (simp add: apns_url_def)
  then have "split (CHR ''/'') (apns_url a ?t) = split (CHR ''/'') (ap_url a) @ [''3'', ''device'', ?t]"
    using clean by (simp only: split_append) (simp add: split_none)
  moreover have "apns_wake X D a ?t p = apns_wake X C a ?t p"
    if "pc_send D (apns_url a ?t) = pc_send C (apns_url a ?t)" "pc_unix D = pc_unix C" "pc_instant D = pc_instant C"
      "pc_status D = pc_status C" for X and C D :: "'a push_client" and p
  proof -
    have "provider_token X D a = provider_token X C a" using that by (intro ext) (simp only: provider_token_def)
    moreover have "apns_answer D = apns_answer C" using that by (intro ext) (simp only: apns_answer_def)
    ultimately show ?thesis using that(1) by (simp add: apns_wake_def)
  qed
  ultimately show ?thesis using clean t by blast
qed

theorem apns_request_path_witness:
  "\<exists>dev. parse_device Apns (JObj [(''device_token'', JStr ''0aF9'')]) = Some (Some dev)
    \<and> split (CHR ''/'') (apns_url \<lparr>ap_url = SANDBOX_URL, ap_topic = ''app'', ap_team_id = ''T'', ap_key_id = ''K'', ap_sign = Some\<rparr> (dv_token dev))
      = split (CHR ''/'') SANDBOX_URL @ [''3'', ''device'', ''0aF9'']"
proof (intro exI conjI)
  let ?dev = "\<lparr>dv_token = ''0aF9'', dv_platform = None\<rparr>"
  show parsed: "parse_device Apns (JObj [(''device_token'', JStr ''0aF9'')]) = Some (Some ?dev)"
    by (simp add: parse_device_def nullable_str_def is_apns_token_def MAX_APNS_TOKEN_def
        is_ascii_hexdigit_def is_ascii_digit_def)
  show "split (CHR ''/'') (apns_url \<lparr>ap_url = SANDBOX_URL, ap_topic = ''app'', ap_team_id = ''T'', ap_key_id = ''K'', ap_sign = Some\<rparr> (dv_token ?dev))
      = split (CHR ''/'') SANDBOX_URL @ [''3'', ''device'', ''0aF9'']"
    using conjunct1 [OF apns_request_path [OF parsed,
      where a = "\<lparr>ap_url = SANDBOX_URL, ap_topic = ''app'', ap_team_id = ''T'', ap_key_id = ''K'', ap_sign = Some\<rparr>"]]
    by simp
qed

section \<open>Tokens\<close>

text \<open>A fresh APNs token is used for all wake-ups of the next 50 minutes; a refused one is not used again.\<close>

lemma provider_token_reused:
  assumes "\<not> tc_poisoned (pv_apns p)" "cached_token (pv_apns p) (pc_instant C (pv_net p)) = None"
    and "provider_token X C a p = (Inr t, p')" "pc_instant C (pv_net q) < pc_instant C (pv_net p) + JWT_LIFETIME"
    and "pv_apns q = pv_apns p'"
  shows "provider_token X C b q = (Inr t, q)"
  using assms by (auto simp: provider_token_def cached_token_def store_token_def split: sum.splits)

lemma refused_token_forgotten:
  assumes "\<not> tc_poisoned (pv_apns p)" "body = Inr v" "jget_str ''reason'' v = Some ''ExpiredProviderToken''"
    and "apns_answer C 403 body p = (r, p')"
  shows "(\<exists>e. r = Inl e) \<and> (\<forall>i. cached_token (pv_apns p') i = None)"
  using assms by (auto simp: apns_answer_def forget_provider_token_def store_token_def cached_token_def)

text \<open>An access token of FCM is never used in its last minute.\<close>

lemma access_token_fresh:
  assumes "access_token X C f p = (Inr t, p')" "cached_token (pv_fcm p) (pc_instant C (pv_net p)) = None"
    "\<not> tc_poisoned (pv_fcm p)"
  shows "\<exists>n. \<forall>i. cached_token (pv_fcm p') i = (if i < pc_instant C (pv_net p') + (unat (n :: u64) - 60) then Some t else None)"
  using assms
  by (auto simp: access_token_def bind_act_def lift_act_def store_token_def cached_token_def on_push_net_def
      unat_saturating_sub split: if_splits sum.splits prod.splits)

end
