(* ===== verification/Redis.thy ===== *)
theory Redis
  imports Memory_Store Message
begin

text \<open>
  The Redis store, \<open>crates/mediator/src/store/redis.rs\<close>: its keys, its Lua scripts and the operations of
  the trait. The Redis server is not part of the repository: \<open>rd_call\<close> runs one command (a list of
  arguments) on its data, \<open>rd_trip\<close> is the connection, which may fail before or after the server has
  worked, and \<open>rd_cjson\<close> is the JSON reader of its Lua. A script is an action made of commands, run in one
  round trip; it stops at the first command that fails and what the earlier ones did stays. Lua's numbers
  are doubles; the model has integers, which agree up to \<open>2 ^ 53\<close>.
\<close>

section \<open>Commands, scripts and round trips\<close>

datatype reply = RNil | RStatus string | RBulk string | RInt int | RArray "reply list" | RErr string

datatype trip = Reached | NotReached string | ReplyLost string

record 'd redis =
  rd_call :: "string list \<Rightarrow> 'd \<Rightarrow> reply \<times> 'd"
  rd_trip :: "'d \<Rightarrow> trip \<times> 'd"
  rd_cjson :: "string \<Rightarrow> json option"

definition redis_call :: "'d redis \<Rightarrow> string list \<Rightarrow> ('d, string, reply) act" where
  "redis_call R args d =
     (case rd_call R args d of
        (RErr e, d') \<Rightarrow> (Inl e, d')
      | (r, d') \<Rightarrow> (Inr r, d'))"

definition round_trip :: "'d redis \<Rightarrow> ('d, string, 'a) act \<Rightarrow> ('d, string, 'a) act" where
  "round_trip R f d =
     (case rd_trip R d of
        (Reached, d) \<Rightarrow> f d
      | (NotReached e, d) \<Rightarrow> (Inl e, d)
      | (ReplyLost e, d) \<Rightarrow> (case f d of (_, d) \<Rightarrow> (Inl e, d)))"

text \<open>\<open>pipe().atomic()\<close>: all commands run, also after one that failed; the first error is reported.\<close>

fun run_all :: "'d redis \<Rightarrow> string list list \<Rightarrow> 'd \<Rightarrow> reply list \<times> 'd" where
  "run_all R [] d = ([], d)"
| "run_all R (c # cs) d =
     (case rd_call R c d of (r, d) \<Rightarrow> (case run_all R cs d of (rs, d) \<Rightarrow> (r # rs, d)))"

fun first_error :: "reply list \<Rightarrow> string option" where
  "first_error [] = None"
| "first_error (RErr e # rs) = Some e"
| "first_error (r # rs) = first_error rs"

definition atomic :: "'d redis \<Rightarrow> string list list \<Rightarrow> ('d, string, reply list) act" where
  "atomic R cs = round_trip R (\<lambda>d.
     case run_all R cs d of (rs, d) \<Rightarrow>
       ((case first_error rs of Some e \<Rightarrow> Inl e | None \<Rightarrow> Inr rs), d))"

text \<open>\<open>FromRedisValue\<close>.\<close>

fun to_text :: "reply \<Rightarrow> string + string" where
  "to_text (RBulk s) = ok_or ''Invalid UTF-8'' (from_utf8 s)"
| "to_text (RStatus s) = Inr s"
| "to_text _ = Inl ''Response type not string compatible.''"

fun to_u64 :: "reply \<Rightarrow> string + u64" where
  "to_u64 (RInt n) = Inr (word_of_int n)"
| "to_u64 (RStatus s) = ok_or ''Could not convert from string.'' (parse_u64 s)"
| "to_u64 (RBulk s) = ok_or ''Could not convert from string.'' (parse_u64 s)"
| "to_u64 _ = Inl ''Response type not convertible to numeric.''"

fun to_bool :: "reply \<Rightarrow> string + bool" where
  "to_bool RNil = Inr False"
| "to_bool (RInt n) = Inr (n \<noteq> 0)"
| "to_bool (RStatus s) = (if s = ''1'' \<or> s = ''OK'' then Inr True else if s = ''0'' then Inr False
     else Inl ''Response status not valid boolean'')"
| "to_bool (RBulk s) = (if s = ''1'' then Inr True else if s = ''0'' then Inr False
     else Inl ''Response type not bool compatible.'')"
| "to_bool _ = Inl ''Response type not bool compatible.''"

definition to_opt :: "(reply \<Rightarrow> string + 'a) \<Rightarrow> reply \<Rightarrow> string + 'a option" where
  "to_opt f r = (if r = RNil then Inr None else map_sum id Some (f r))"

fun to_list :: "(reply \<Rightarrow> string + 'a) \<Rightarrow> reply \<Rightarrow> string + 'a list" where
  "to_list f (RArray rs) = mapM_res f rs"
| "to_list f RNil = Inr []"
| "to_list f r = map_sum id (\<lambda>x. [x]) (f r)"

definition invoke :: "'d redis \<Rightarrow> ('d, string, reply) act \<Rightarrow> (reply \<Rightarrow> string + 'a) \<Rightarrow> ('d, string, 'a) act" where
  "invoke R script decode = bind_act (round_trip R script) (\<lambda>r. lift_act (decode r))"

definition command :: "'d redis \<Rightarrow> string list \<Rightarrow> (reply \<Rightarrow> string + 'a) \<Rightarrow> ('d, string, 'a) act" where
  "command R args = invoke R (redis_call R args)"

text \<open>Values in Lua: the number of a reply, and \<open>tonumber\<close> on the decimal numbers the scripts see.\<close>

definition lua_int :: "reply \<Rightarrow> ('d, string, int) act" where
  "lua_int r = (case r of RInt n \<Rightarrow> return_act n | _ \<Rightarrow> throw_act ''attempt to use a non-number'')"

definition tonumber :: "reply \<Rightarrow> int option" where
  "tonumber r =
     (case r of RInt n \<Rightarrow> Some n | RBulk s \<Rightarrow> map_option uint (parse_u64 s) | _ \<Rightarrow> None)"

definition lua_number :: "int option \<Rightarrow> ('d, string, int) act" where
  "lua_number v = lift_act (ok_or ''attempt to perform arithmetic on a nil value'' v)"

definition lua_list :: "reply \<Rightarrow> ('d, string, reply list) act" where
  "lua_list r = (case r of RArray rs \<Rightarrow> return_act rs | _ \<Rightarrow> throw_act ''bad argument to ipairs'')"

definition lua_string :: "reply \<Rightarrow> ('d, string, string) act" where
  "lua_string r = (case r of RBulk s \<Rightarrow> return_act s | _ \<Rightarrow> throw_act ''attempt to concatenate'')"

definition show_int :: "int \<Rightarrow> string" where
  "show_int n = (if n < 0 then ''-'' @ show_nat (nat (- n)) else show_nat (nat n))"

section \<open>Keys\<close>

definition SEEN :: string where "SEEN = ''mediations:seen''"
definition RELAY_DUE :: string where "RELAY_DUE = ''relay:due''"
definition RELAY_ITEMS :: string where "RELAY_ITEMS = ''relay:items''"

definition mediation_key :: "string \<Rightarrow> string" where
  "mediation_key m = ''mediation:'' @ m"

definition recipients_key :: "string \<Rightarrow> string" where
  "recipients_key m = ''mediation:'' @ m @ '':recipients''"

definition recipient_key :: "string \<Rightarrow> string" where
  "recipient_key r = ''recipient:'' @ r"

definition queue_key :: "string \<Rightarrow> string" where
  "queue_key m = ''mediation:'' @ m @ '':queue''"

definition bytes_key :: "string \<Rightarrow> string" where
  "bytes_key m = ''mediation:'' @ m @ '':bytes''"

definition body_prefix :: "string \<Rightarrow> string" where
  "body_prefix m = ''mediation:'' @ m @ '':msg:''"

definition devices_key :: "string \<Rightarrow> string" where
  "devices_key m = ''push:'' @ m"

definition push_sent_key :: "string \<Rightarrow> string" where
  "push_sent_key m = ''push-sent:'' @ m"

definition min_id :: "u64 \<Rightarrow> u64 \<Rightarrow> string" where
  "min_id now ttl_secs = show_u64 (saturating_sub now ttl_secs * 1000) @ ''-0''"

section \<open>Scripts\<close>

definition ADD_RECIPIENT :: "'d redis \<Rightarrow> string \<Rightarrow> string \<Rightarrow> string \<Rightarrow> string \<Rightarrow> nat \<Rightarrow> ('d, string, reply) act" where
  "ADD_RECIPIENT R key1 key2 mediation recipient mx =
     bind_act (redis_call R [''GET'', key1]) (\<lambda>owner.
     if owner = RBulk mediation then return_act (RBulk ''mine'')
     else if owner \<noteq> RNil then return_act (RBulk ''taken'')
     else
       bind_act (bind_act (redis_call R [''SCARD'', key2]) lua_int) (\<lambda>n.
       if int mx \<le> n then return_act (RBulk ''limit'')
       else
         bind_act (redis_call R [''SET'', key1, mediation]) (\<lambda>_.
         bind_act (redis_call R [''SADD'', key2, recipient]) (\<lambda>_.
         return_act (RBulk ''added'')))))"

definition REMOVE_RECIPIENT :: "'d redis \<Rightarrow> string \<Rightarrow> string \<Rightarrow> string \<Rightarrow> string \<Rightarrow> ('d, string, reply) act" where
  "REMOVE_RECIPIENT R key1 key2 mediation recipient =
     bind_act (redis_call R [''GET'', key1]) (\<lambda>owner.
     if owner = RNil then return_act (RBulk ''none'')
     else if owner \<noteq> RBulk mediation then return_act (RBulk ''theirs'')
     else
       bind_act (redis_call R [''DEL'', key1]) (\<lambda>_.
       bind_act (redis_call R [''SREM'', key2, recipient]) (\<lambda>_.
       return_act (RBulk ''removed''))))"

text \<open>\<open>QUEUE_LUA\<close>. An entry is its id and its fields and values in turn.\<close>

fun fields_size :: "reply list \<Rightarrow> int option" where
  "fields_size (k # v # rest) = (if k = RBulk ''s'' then tonumber v else fields_size rest)"
| "fields_size [k] = (if k = RBulk ''s'' then None else Some 0)"
| "fields_size [] = Some 0"

definition entry_size :: "reply \<Rightarrow> ('d, string, int) act" where
  "entry_size entry =
     (case entry of
        RArray [i, RArray fvs] \<Rightarrow> lua_number (fields_size fvs)
      | _ \<Rightarrow> throw_act ''attempt to get length of a nil value'')"

definition uncount :: "'d redis \<Rightarrow> string \<Rightarrow> int \<Rightarrow> ('d, string, unit) act" where
  "uncount R bytes freed =
     (if 0 < freed then
        bind_act (bind_act (redis_call R [''DECRBY'', bytes, show_int freed]) lua_int) (\<lambda>left.
        if left < 0 then bind_act (redis_call R [''SET'', bytes, ''0'', ''KEEPTTL'']) (\<lambda>_. return_act ())
        else return_act ())
      else return_act ())"

fun sum_sizes :: "reply list \<Rightarrow> int \<Rightarrow> ('d, string, int) act" where
  "sum_sizes [] freed = return_act freed"
| "sum_sizes (e # es) freed = bind_act (entry_size e) (\<lambda>n. sum_sizes es (freed + n))"

definition queue_trim :: "'d redis \<Rightarrow> string \<Rightarrow> string \<Rightarrow> string \<Rightarrow> ('d, string, unit) act" where
  "queue_trim R queue bytes minid =
     bind_act (bind_act (redis_call R [''XRANGE'', queue, ''-'', ''('' @ minid]) lua_list) (\<lambda>entries.
     bind_act (sum_sizes entries 0) (\<lambda>freed.
     bind_act (redis_call R [''XTRIM'', queue, ''MINID'', minid]) (\<lambda>_.
     uncount R bytes freed)))"

text \<open>Expiry times are given in seconds.\<close>

definition ENQUEUE :: "'d redis \<Rightarrow> string \<Rightarrow> string \<Rightarrow> string \<Rightarrow> nat \<Rightarrow> u64 \<Rightarrow> string \<Rightarrow> nat \<Rightarrow> string \<Rightarrow> u64 \<Rightarrow> string
    \<Rightarrow> ('d, string, reply) act" where
  "ENQUEUE R key1 key2 minid max_messages max_bytes recipient size' body ttl prefix =
     bind_act (queue_trim R key1 key2 minid) (\<lambda>_.
     bind_act (bind_act (redis_call R [''XLEN'', key1]) lua_int) (\<lambda>n.
     if int max_messages \<le> n then return_act RNil
     else
       bind_act (redis_call R [''GET'', key2]) (\<lambda>bytes.
       bind_act (lua_number (tonumber (if bytes = RNil then RBulk ''0'' else bytes))) (\<lambda>used.
       if uint max_bytes < used + int size' then return_act RNil
       else
         bind_act (bind_act (redis_call R [''XADD'', key1, ''*'', ''r'', recipient, ''s'', show_nat size']) lua_string) (\<lambda>i.
         bind_act (redis_call R [''SET'', prefix @ i, body, ''EX'', show_u64 ttl]) (\<lambda>_.
         bind_act (redis_call R [''INCRBY'', key2, show_nat size']) (\<lambda>_.
         bind_act (redis_call R [''EXPIRE'', key1, show_u64 ttl]) (\<lambda>_.
         bind_act (redis_call R [''EXPIRE'', key2, show_u64 ttl]) (\<lambda>_.
         return_act (RBulk i))))))))))"

definition TRIM :: "'d redis \<Rightarrow> string \<Rightarrow> string \<Rightarrow> string \<Rightarrow> ('d, string, reply) act" where
  "TRIM R key1 key2 minid = bind_act (queue_trim R key1 key2 minid) (\<lambda>_. return_act (RInt 0))"

fun remove_entries :: "'d redis \<Rightarrow> string \<Rightarrow> string \<Rightarrow> string list \<Rightarrow> int \<times> int \<Rightarrow> ('d, string, int \<times> int) act" where
  "remove_entries R key1 prefix [] acc = return_act acc"
| "remove_entries R key1 prefix (i # ids) (removed, freed) =
     bind_act (bind_act (redis_call R [''XRANGE'', key1, i, i]) lua_list) (\<lambda>entries.
     bind_act (case entries of
         [] \<Rightarrow> return_act (removed, freed)
       | entry # _ \<Rightarrow>
           bind_act (entry_size entry) (\<lambda>n.
           bind_act (bind_act (redis_call R [''XDEL'', key1, i]) lua_int) (\<lambda>k.
           return_act (removed + k, freed + n)))) (\<lambda>acc.
     bind_act (redis_call R [''DEL'', prefix @ i]) (\<lambda>_.
     remove_entries R key1 prefix ids acc)))"

definition REMOVE :: "'d redis \<Rightarrow> string \<Rightarrow> string \<Rightarrow> string \<Rightarrow> string list \<Rightarrow> ('d, string, reply) act" where
  "REMOVE R key1 key2 prefix ids =
     bind_act (remove_entries R key1 prefix ids (0, 0)) (\<lambda>(removed, freed).
     bind_act (uncount R key2 freed) (\<lambda>_.
     return_act (RInt removed)))"

text \<open>\<open>cjson.decode(device).token\<close>: an object or array has fields, a string has none, and anything else
  cannot be indexed.\<close>

definition cjson_field :: "'d redis \<Rightarrow> string \<Rightarrow> string \<Rightarrow> ('d, string, json option) act" where
  "cjson_field R t k =
     (case rd_cjson R t of
        None \<Rightarrow> throw_act ''Expected value but found invalid token''
      | Some (JObj m) \<Rightarrow> return_act (map_of m k)
      | Some (JArr _) \<Rightarrow> return_act None
      | Some (JStr _) \<Rightarrow> return_act None
      | Some _ \<Rightarrow> throw_act ''attempt to index a value'')"

definition REMOVE_DEVICE :: "'d redis \<Rightarrow> string \<Rightarrow> string \<Rightarrow> string \<Rightarrow> ('d, string, reply) act" where
  "REMOVE_DEVICE R key1 service token =
     bind_act (redis_call R [''HGET'', key1, service]) (\<lambda>device.
     bind_act (if device = RNil then return_act ()
       else
         bind_act (bind_act (lua_string device) (\<lambda>t. cjson_field R t ''token'')) (\<lambda>stored.
         if stored = Some (JStr token) then bind_act (redis_call R [''HDEL'', key1, service]) (\<lambda>_. return_act ())
         else return_act ())) (\<lambda>_.
     return_act (RInt 0)))"

definition RELEASE_PUSH :: "'d redis \<Rightarrow> string \<Rightarrow> u64 \<Rightarrow> u64 \<Rightarrow> ('d, string, reply) act" where
  "RELEASE_PUSH R key1 now min_interval =
     bind_act (redis_call R [''GET'', key1]) (\<lambda>sent.
     if sent = RNil then return_act (RInt 0)
     else
       bind_act (lua_number (tonumber sent)) (\<lambda>sent.
       let left = sent + uint min_interval - uint now in
       bind_act (if left \<le> 0 then redis_call R [''DEL'', key1]
         else
           bind_act (bind_act (redis_call R [''TTL'', key1]) lua_int) (\<lambda>ttl.
           if ttl < 0 \<or> left < ttl then redis_call R [''EXPIRE'', key1, show_int left] else return_act RNil)) (\<lambda>_.
       return_act (RInt 0))))"

definition TOUCH :: "'d redis \<Rightarrow> string \<Rightarrow> string \<Rightarrow> string \<Rightarrow> u64 \<Rightarrow> ('d, string, reply) act" where
  "TOUCH R key1 key2 mediation now =
     bind_act (redis_call R [''EXISTS'', key1]) (\<lambda>n.
     bind_act (if n = RInt 1 then redis_call R [''ZADD'', key2, show_u64 now, mediation] else return_act RNil) (\<lambda>_.
     return_act (RInt 0)))"

text \<open>\<open>seen and tonumber(seen) > cutoff\<close>.\<close>

definition REMOVE_MEDIATION ::
  "'d redis \<Rightarrow> string list \<Rightarrow> string \<Rightarrow> string \<Rightarrow> u64 \<Rightarrow> string \<Rightarrow> string \<Rightarrow> ('d, string, reply) act" where
  "REMOVE_MEDIATION R keys seen_set mediation cutoff recipient_prefix entry_prefix =
     bind_act (redis_call R [''ZSCORE'', seen_set, mediation]) (\<lambda>last.
     bind_act (if last = RNil then return_act 0 else lua_number (tonumber last)) (\<lambda>score.
     if last \<noteq> RNil \<and> uint cutoff < score then return_act (RInt 0)
     else
       bind_act (bind_act (redis_call R [''SMEMBERS'', keys ! 1]) lua_list) (\<lambda>recips.
       bind_act (for_act recips (\<lambda>r.
         bind_act (lua_string r) (\<lambda>recipient.
         bind_act (redis_call R [''GET'', recipient_prefix @ recipient]) (\<lambda>owner.
         if owner = RBulk mediation
         then bind_act (redis_call R [''DEL'', recipient_prefix @ recipient]) (\<lambda>_. return_act ())
         else return_act ())))) (\<lambda>_.
       bind_act (bind_act (redis_call R [''XRANGE'', keys ! 2, ''-'', ''+'']) lua_list) (\<lambda>entries.
       bind_act (for_act entries (\<lambda>entry.
         bind_act (case entry of RArray (i # _) \<Rightarrow> lua_string i | _ \<Rightarrow> throw_act ''attempt to concatenate'') (\<lambda>i.
         bind_act (redis_call R [''DEL'', entry_prefix @ i]) (\<lambda>_. return_act ())))) (\<lambda>_.
       bind_act (redis_call R (''DEL'' # keys)) (\<lambda>_.
       bind_act (redis_call R [''ZREM'', seen_set, mediation]) (\<lambda>_.
       return_act (RInt 1)))))))))"

definition SCHEDULE_RELAY ::
  "'d redis \<Rightarrow> string \<Rightarrow> string \<Rightarrow> string \<Rightarrow> u64 \<Rightarrow> string \<Rightarrow> nat \<Rightarrow> ('d, string, reply) act" where
  "SCHEDULE_RELAY R key1 key2 i due relay max_pending =
     bind_act (redis_call R [''HEXISTS'', key2, i]) (\<lambda>there.
     bind_act (if there = RInt 0
       then bind_act (bind_act (redis_call R [''HLEN'', key2]) lua_int) (\<lambda>n. return_act (int max_pending \<le> n))
       else return_act False) (\<lambda>full.
     if full then return_act (RInt 0)
     else
       bind_act (redis_call R [''HSET'', key2, i, relay]) (\<lambda>_.
       bind_act (redis_call R [''ZADD'', key1, show_u64 due, i]) (\<lambda>_.
       return_act (RInt 1)))))"

fun lease_relays :: "'d redis \<Rightarrow> string \<Rightarrow> string \<Rightarrow> u64 \<Rightarrow> reply list \<Rightarrow> ('d, string, reply list) act" where
  "lease_relays R key1 key2 lease_end [] = return_act []"
| "lease_relays R key1 key2 lease_end (r # ids) =
     bind_act (lua_string r) (\<lambda>i.
     bind_act (redis_call R [''HGET'', key2, i]) (\<lambda>relay.
     if relay \<noteq> RNil then
       bind_act (redis_call R [''ZADD'', key1, show_u64 lease_end, i]) (\<lambda>_.
       bind_act (lease_relays R key1 key2 lease_end ids) (\<lambda>relays.
       return_act (relay # relays)))
     else
       bind_act (redis_call R [''ZREM'', key1, i]) (\<lambda>_.
       lease_relays R key1 key2 lease_end ids)))"

definition DUE_RELAYS :: "'d redis \<Rightarrow> string \<Rightarrow> string \<Rightarrow> u64 \<Rightarrow> u64 \<Rightarrow> nat \<Rightarrow> ('d, string, reply) act" where
  "DUE_RELAYS R key1 key2 now lease_end limit =
     bind_act (bind_act (redis_call R [''ZRANGE'', key1, ''-inf'', show_u64 now, ''BYSCORE'', ''LIMIT'', ''0'', show_nat limit])
       lua_list) (\<lambda>ids.
     bind_act (lease_relays R key1 key2 lease_end ids) (\<lambda>relays.
     return_act (RArray relays)))"

section \<open>What is stored as JSON\<close>

definition se_relay :: "pending_relay \<Rightarrow> json" where
  "se_relay r = JObj [(''id'', JStr (pr_id r)), (''uri'', JStr (pr_uri r)), (''message'', JStr (pr_message r)),
     (''retries'', JNum (PosInt (ucast (pr_retries r))))]"

definition de_relay :: "json \<Rightarrow> pending_relay option" where
  "de_relay v =
     Option.bind (de_fields [''id'', ''uri'', ''message'', ''retries''] v) (\<lambda>f.
     Option.bind (req_str f ''id'') (\<lambda>i.
     Option.bind (req_str f ''uri'') (\<lambda>uri.
     Option.bind (req_str f ''message'') (\<lambda>message.
     Option.bind (Option.bind (f ''retries'') as_u64) (\<lambda>n.
     if n < 2 ^ 32 then Some \<lparr>pr_id = i, pr_uri = uri, pr_message = message, pr_retries = ucast n\<rparr> else None)))))"

definition se_device :: "device \<Rightarrow> json" where
  "se_device d = JObj ([(''token'', JStr (dv_token d))] @ opt_member ''platform'' JStr (dv_platform d))"

definition de_device :: "json \<Rightarrow> device option" where
  "de_device v =
     Option.bind (de_fields [''token'', ''platform''] v) (\<lambda>f.
     Option.bind (req_str f ''token'') (\<lambda>token.
     Option.bind (opt_field as_str f ''platform'') (\<lambda>platform.
     Some \<lparr>dv_token = token, dv_platform = platform\<rparr>)))"

definition read_json :: "ext \<Rightarrow> (json \<Rightarrow> 'a option) \<Rightarrow> string \<Rightarrow> string + 'a" where
  "read_json X de t = map_err (\<lambda>_. ''JSON error'') (from_str_as X de t)"

section \<open>The operations\<close>

definition red_ping :: "'d redis \<Rightarrow> ('d, string, unit) act" where
  "red_ping R = bind_act (command R [''PING''] to_text) (\<lambda>_. return_act ())"

definition red_grant_mediation :: "'d redis \<Rightarrow> string \<Rightarrow> u64 \<Rightarrow> ('d, string, unit) act" where
  "red_grant_mediation R m now =
     bind_act (atomic R [[''SET'', mediation_key m, show_u64 now, ''NX''], [''ZADD'', SEEN, show_u64 now, m]]) (\<lambda>_.
     return_act ())"

definition red_touch_mediation :: "'d redis \<Rightarrow> string \<Rightarrow> u64 \<Rightarrow> ('d, string, unit) act" where
  "red_touch_mediation R m now =
     bind_act (invoke R (TOUCH R (mediation_key m) SEEN m now) to_u64) (\<lambda>_. return_act ())"

fun remove_idle_each :: "'d redis \<Rightarrow> u64 \<Rightarrow> string list \<Rightarrow> ('d, string, string list) act" where
  "remove_idle_each R cutoff [] = return_act []"
| "remove_idle_each R cutoff (m # ms) =
     bind_act (invoke R (REMOVE_MEDIATION R
       [mediation_key m, recipients_key m, queue_key m, bytes_key m, devices_key m, push_sent_key m]
       SEEN m cutoff (recipient_key []) (body_prefix m)) to_u64) (\<lambda>gone.
     bind_act (remove_idle_each R cutoff ms) (\<lambda>removed.
     return_act (if gone = 1 then m # removed else removed)))"

definition red_remove_idle_mediations :: "'d redis \<Rightarrow> u64 \<Rightarrow> nat \<Rightarrow> ('d, string, string list) act" where
  "red_remove_idle_mediations R cutoff limit =
     bind_act (command R [''ZRANGE'', SEEN, ''-inf'', show_u64 cutoff, ''BYSCORE'', ''LIMIT'', ''0'', show_nat limit]
       (to_list to_text)) (\<lambda>idle.
     remove_idle_each R cutoff idle)"

definition red_has_mediation :: "'d redis \<Rightarrow> string \<Rightarrow> ('d, string, bool) act" where
  "red_has_mediation R m = command R [''EXISTS'', mediation_key m] to_bool"

definition red_add_recipient :: "'d redis \<Rightarrow> string \<Rightarrow> string \<Rightarrow> nat \<Rightarrow> ('d, string, add_recipient) act" where
  "red_add_recipient R m r mx =
     bind_act (invoke R (ADD_RECIPIENT R (recipient_key r) (recipients_key m) m r mx) to_text) (\<lambda>result.
     if result = ''added'' then return_act Added
     else if result = ''mine'' then return_act AlreadyYours
     else if result = ''taken'' then return_act TakenByOther
     else if result = ''limit'' then return_act LimitReached
     else throw_act (''unexpected add-recipient result '' @ result))"

definition red_remove_recipient :: "'d redis \<Rightarrow> string \<Rightarrow> string \<Rightarrow> ('d, string, remove_recipient) act" where
  "red_remove_recipient R m r =
     bind_act (invoke R (REMOVE_RECIPIENT R (recipient_key r) (recipients_key m) m r) to_text) (\<lambda>result.
     if result = ''removed'' then return_act Removed
     else if result = ''none'' then return_act NotRegistered
     else if result = ''theirs'' then return_act NotYours
     else throw_act (''unexpected remove-recipient result '' @ result))"

definition red_recipients :: "'d redis \<Rightarrow> string \<Rightarrow> ('d, string, string list) act" where
  "red_recipients R m =
     bind_act (command R [''SMEMBERS'', recipients_key m] (to_list to_text)) (\<lambda>rs.
     return_act (sort (remdups rs)))"

definition red_mediation_of :: "'d redis \<Rightarrow> string \<Rightarrow> ('d, string, string option) act" where
  "red_mediation_of R r = command R [''GET'', recipient_key r] (to_opt to_text)"

definition red_enqueue ::
  "'d redis \<Rightarrow> string \<Rightarrow> string \<Rightarrow> string \<Rightarrow> u64 \<Rightarrow> queue_limits \<Rightarrow> ('d, string, string option) act" where
  "red_enqueue R m r message now lims =
     invoke R (ENQUEUE R (queue_key m) (bytes_key m) (min_id now (ql_ttl_secs lims)) (ql_max_messages lims)
       (ql_max_bytes lims) r (length message) message (max (ql_ttl_secs lims) 1) (body_prefix m)) (to_opt to_text)"

text \<open>\<open>StreamRangeReply\<close>, and what \<open>entries\<close> takes from it.\<close>

fun field_pairs :: "reply list \<Rightarrow> (string \<times> reply) list" where
  "field_pairs (k # v # rest) = (case to_text k of Inr t \<Rightarrow> [(t, v)] | Inl _ \<Rightarrow> []) @ field_pairs rest"
| "field_pairs _ = []"

definition queue_entry :: "reply \<Rightarrow> string + string \<times> string \<times> u64" where
  "queue_entry e =
     (case e of
        RArray [i, RArray fvs] \<Rightarrow>
          bind_res (to_text i) (\<lambda>i.
          let f = map_of (rev (field_pairs fvs)) in
          Inr (i,
            (case f ''r'' of Some v \<Rightarrow> (case to_text v of Inr t \<Rightarrow> t | Inl _ \<Rightarrow> []) | None \<Rightarrow> []),
            (case f ''s'' of Some v \<Rightarrow> (case to_u64 v of Inr n \<Rightarrow> n | Inl _ \<Rightarrow> 0) | None \<Rightarrow> 0)))
      | _ \<Rightarrow> Inl ''not a stream entry'')"

definition queue_entries :: "'d redis \<Rightarrow> string \<Rightarrow> u64 \<Rightarrow> u64 \<Rightarrow> ('d, string, (string \<times> string \<times> u64) list) act" where
  "queue_entries R m now ttl_secs =
     bind_act (invoke R (TRIM R (queue_key m) (bytes_key m) (min_id now ttl_secs)) to_u64) (\<lambda>_.
     command R [''XRANGE'', queue_key m, ''-'', ''+''] (to_list queue_entry))"

definition count_entry :: "string \<times> string \<times> u64 \<Rightarrow> queue_summary \<Rightarrow> queue_summary" where
  "count_entry e sm =
     (case e of (i, _, n) \<Rightarrow>
       let received = id_millis i div 1000 in
       \<lparr>qs_count = qs_count sm + 1,
        qs_oldest = Some (case qs_oldest sm of None \<Rightarrow> received | Some t \<Rightarrow> min t received),
        qs_newest = Some (case qs_newest sm of None \<Rightarrow> received | Some t \<Rightarrow> max t received),
        qs_total_bytes = qs_total_bytes sm + n\<rparr>)"

definition wanted :: "string option \<Rightarrow> string \<times> string \<times> u64 \<Rightarrow> bool" where
  "wanted recipient e = (case recipient of None \<Rightarrow> True | Some r \<Rightarrow> r = fst (snd e))"

definition red_summary ::
  "'d redis \<Rightarrow> string \<Rightarrow> string option \<Rightarrow> u64 \<Rightarrow> u64 \<Rightarrow> ('d, string, queue_summary) act" where
  "red_summary R m r now ttl_secs =
     bind_act (queue_entries R m now ttl_secs) (\<lambda>entries.
     return_act (fold count_entry (filter (wanted r) entries) default_summary))"

definition red_remove :: "'d redis \<Rightarrow> string \<Rightarrow> string list \<Rightarrow> ('d, string, nat) act" where
  "red_remove R m ids =
     (let ids = filter is_queue_id ids in
      if ids = [] then return_act 0
      else invoke R (REMOVE R (queue_key m) (bytes_key m) (body_prefix m) ids) (\<lambda>r. map_sum id unat (to_u64 r)))"

definition queued_of :: "(string \<times> string \<times> u64) \<times> string option \<Rightarrow> queued list" where
  "queued_of e =
     (case e of
        ((i, r, _), Some message) \<Rightarrow>
          [\<lparr>q_id = i, q_recipient = r, q_received = id_millis i div 1000, q_message = message\<rparr>]
      | (_, None) \<Rightarrow> [])"

definition orphans :: "((string \<times> string \<times> u64) \<times> string option) list \<Rightarrow> string list" where
  "orphans es = map (\<lambda>e. fst (fst e)) (filter (\<lambda>e. snd e = None) es)"

definition red_peek ::
  "'d redis \<Rightarrow> string \<Rightarrow> string option \<Rightarrow> nat \<Rightarrow> u64 \<Rightarrow> u64 \<Rightarrow> ('d, string, queued list) act" where
  "red_peek R m r limit now ttl_secs =
     bind_act (queue_entries R m now ttl_secs) (\<lambda>all.
     let entries = take limit (filter (wanted r) all) in
     if entries = [] then return_act []
     else
       bind_act (command R (''MGET'' # map (\<lambda>e. body_prefix m @ fst e) entries) (to_list (to_opt to_text))) (\<lambda>bodies.
       let found = zip entries bodies in
       bind_act (if orphans found = [] then return_act 0 else red_remove R m (orphans found)) (\<lambda>_.
       return_act (concat (map queued_of found)))))"

definition red_hit :: "'d redis \<Rightarrow> string \<Rightarrow> u64 \<Rightarrow> u64 \<Rightarrow> ('d, string, u64) act" where
  "red_hit R key window_secs now =
     (let window_secs = max window_secs 1;
          key = ''rate:'' @ key @ '':'' @ show_u64 (now div window_secs) in
      bind_act (atomic R [[''INCRBY'', key, ''1''], [''EXPIRE'', key, show_nat (min (unat window_secs) (2 ^ 63 - 1))]]) (\<lambda>rs.
      lift_act (to_u64 (hd rs))))"

definition red_schedule_relay :: "ext \<Rightarrow> 'd redis \<Rightarrow> pending_relay \<Rightarrow> u64 \<Rightarrow> nat \<Rightarrow> ('d, string, bool) act" where
  "red_schedule_relay X R relay due max_pending =
     bind_act (invoke R (SCHEDULE_RELAY R RELAY_DUE RELAY_ITEMS (pr_id relay) due (json_print X (se_relay relay)) max_pending)
       to_u64) (\<lambda>stored.
     return_act (stored = 1))"

definition red_due_relays :: "ext \<Rightarrow> 'd redis \<Rightarrow> u64 \<Rightarrow> u64 \<Rightarrow> nat \<Rightarrow> ('d, string, pending_relay list) act" where
  "red_due_relays X R now lease_secs limit =
     bind_act (invoke R (DUE_RELAYS R RELAY_DUE RELAY_ITEMS now (now + lease_secs) limit) (to_list to_text)) (\<lambda>relays.
     lift_act (mapM_res (read_json X de_relay) relays))"

definition red_finish_relay :: "'d redis \<Rightarrow> string \<Rightarrow> ('d, string, unit) act" where
  "red_finish_relay R i =
     bind_act (atomic R [[''ZREM'', RELAY_DUE, i], [''HDEL'', RELAY_ITEMS, i]]) (\<lambda>_. return_act ())"

definition red_set_device ::
  "ext \<Rightarrow> 'd redis \<Rightarrow> string \<Rightarrow> service \<Rightarrow> device option \<Rightarrow> ('d, string, unit) act" where
  "red_set_device X R m sv dev =
     command R (case dev of
         Some d \<Rightarrow> [''HSET'', devices_key m, service_str sv, json_print X (se_device d)]
       | None \<Rightarrow> [''HDEL'', devices_key m, service_str sv]) (\<lambda>_. Inr ())"

fun to_pairs :: "reply list \<Rightarrow> string + (string \<times> string) list" where
  "to_pairs (k # v # rest) =
     bind_res (to_text k) (\<lambda>k. bind_res (to_text v) (\<lambda>v. bind_res (to_pairs rest) (\<lambda>ps. Inr ((k, v) # ps))))"
| "to_pairs [] = Inr []"
| "to_pairs [k] = Inl ''Response type not hashmap compatible''"

text \<open>Of a key that comes twice a \<open>HashMap\<close> keeps the last value.\<close>

definition red_devices :: "ext \<Rightarrow> 'd redis \<Rightarrow> string \<Rightarrow> ('d, string, (service \<times> device) list) act" where
  "red_devices X R m =
     bind_act (command R [''HGETALL'', devices_key m] (\<lambda>r.
       case r of RArray rs \<Rightarrow> to_pairs rs | RNil \<Rightarrow> Inr [] | _ \<Rightarrow> Inl ''Response type not hashmap compatible'')) (\<lambda>all.
     bind_act (lift_act (mapM_res (\<lambda>(sv, t). bind_res (read_json X de_device t) (\<lambda>d. Inr (sv, d)))
       (concat (map (\<lambda>(k, t). case service_parse k of Some sv \<Rightarrow> [(sv, t)] | None \<Rightarrow> [])
         (AList.clearjunk (rev all)))))) (\<lambda>ds.
     return_act (sort_key fst ds)))"

definition red_remove_device :: "'d redis \<Rightarrow> string \<Rightarrow> service \<Rightarrow> string \<Rightarrow> ('d, string, unit) act" where
  "red_remove_device R m sv token =
     bind_act (invoke R (REMOVE_DEVICE R (devices_key m) (service_str sv) token) to_u64) (\<lambda>_. return_act ())"

definition red_claim_push :: "'d redis \<Rightarrow> string \<Rightarrow> u64 \<Rightarrow> u64 \<Rightarrow> ('d, string, bool) act" where
  "red_claim_push R m now hold_secs =
     bind_act (command R [''SET'', push_sent_key m, show_u64 now, ''NX'', ''EX'', show_u64 (max hold_secs 1)]
       (to_opt to_text)) (\<lambda>reply.
     return_act (reply \<noteq> None))"

definition red_release_push :: "'d redis \<Rightarrow> string \<Rightarrow> u64 \<Rightarrow> u64 \<Rightarrow> ('d, string, unit) act" where
  "red_release_push R m now min_interval_secs =
     bind_act (invoke R (RELEASE_PUSH R (push_sent_key m) now min_interval_secs) to_u64) (\<lambda>_. return_act ())"

definition redis_store :: "ext \<Rightarrow> 'd redis \<Rightarrow> 'd store_ops" where
  "redis_store X R = \<lparr>
     ping = red_ping R, kind = ''redis'',
     grant_mediation = red_grant_mediation R, touch_mediation = red_touch_mediation R,
     remove_idle_mediations = red_remove_idle_mediations R, has_mediation = red_has_mediation R,
     add_recipient = red_add_recipient R, remove_recipient = red_remove_recipient R,
     recipients = red_recipients R, mediation_of = red_mediation_of R, enqueue = red_enqueue R,
     summary = red_summary R, peek = red_peek R, remove = red_remove R, hit = red_hit R,
     schedule_relay = red_schedule_relay X R, due_relays = red_due_relays X R,
     finish_relay = red_finish_relay R, set_device = red_set_device X R, devices = red_devices X R,
     remove_device = red_remove_device R, claim_push = red_claim_push R, release_push = red_release_push R\<rparr>"

section \<open>Connecting\<close>

text \<open>The URL parser, and opening a client and its connection, are libraries'. Errors show the outermost
  context.\<close>

record 'u url_lib =
  ul_parse :: "string \<Rightarrow> 'u option"
  ul_set_password :: "string option \<Rightarrow> 'u \<Rightarrow> 'u option"
  ul_show :: "'u \<Rightarrow> string"

definition redis_connect ::
  "'u url_lib \<Rightarrow> (string \<Rightarrow> 'c option) \<Rightarrow> ('c \<Rightarrow> 'k option) \<Rightarrow> string \<Rightarrow> string option \<Rightarrow> string + 'k" where
  "redis_connect U open_client manager url password =
     bind_res (ok_or ''invalid Redis URL'' (ul_parse U url)) (\<lambda>parsed.
     let parsed = (case ul_set_password U None parsed of Some u \<Rightarrow> u | None \<Rightarrow> parsed);
         shown = ul_show U parsed in
     bind_res (case password of
         Some p \<Rightarrow>
           map_sum id (ul_show U)
             (ok_or (''Redis URL '' @ shown @ '' cannot carry a password'') (ul_set_password U (Some p) parsed))
       | None \<Rightarrow> Inr url) (\<lambda>url.
     bind_res (ok_or (''invalid Redis URL '' @ shown) (open_client url)) (\<lambda>client.
     ok_or (''connecting to Redis at '' @ shown) (manager client))))"

text \<open>\<open>store::open\<close>: the in-process store, or a connection to Redis.\<close>

definition open_store ::
  "'u url_lib \<Rightarrow> (string \<Rightarrow> 'c option) \<Rightarrow> ('c \<Rightarrow> 'k option) \<Rightarrow> string \<Rightarrow> string option \<Rightarrow> string + (inner + 'k)" where
  "open_store U open_client manager url password =
     (if url = ''memory://'' then Inr (Inl mem_new)
      else map_sum id Inr (redis_connect U open_client manager url password))"

end
