(* ===== verification/Redis_Refinement.thy ===== *)
theory Redis_Refinement
  imports Redis Sample_Ext "HOL-Library.Multiset"
begin

text \<open>
  The Redis store keeps registrations as the in-process store does. \<open>redis_does\<close> is the documented effect of
  the commands the registrations use, on the keys of the server; every value carries whether its key
  expires. \<open>redis_laws\<close> says that a server does what is documented, in whatever order it lists the members
  of a set, and that time takes away only keys that expire.
\<close>

section \<open>What the commands do\<close>

datatype rvalue = VStr string | VSet "string list" | VZSet "string \<rightharpoonup> u64"

type_synonym keyspace = "string \<rightharpoonup> rvalue \<times> bool"

text \<open>A set is given by its sorted members; an empty set has no key.\<close>

definition set_members :: "keyspace \<Rightarrow> string \<Rightarrow> (string list \<times> bool) option" where
  "set_members kv k =
     (case kv k of None \<Rightarrow> Some ([], False) | Some (VSet xs, b) \<Rightarrow> Some (xs, b) | _ \<Rightarrow> None)"

definition put_set :: "string \<Rightarrow> string list \<Rightarrow> bool \<Rightarrow> keyspace \<Rightarrow> keyspace" where
  "put_set k xs b kv = kv(k := if xs = [] then None else Some (VSet xs, b))"

definition does2 :: "string \<Rightarrow> string \<Rightarrow> keyspace \<Rightarrow> (reply \<times> keyspace) option" where
  "does2 c k kv =
     (if c = ''GET'' then
        (case kv k of None \<Rightarrow> Some (RNil, kv) | Some (VStr v, _) \<Rightarrow> Some (RBulk v, kv) | _ \<Rightarrow> None)
      else if c = ''DEL'' then Some (RInt (if kv k = None then 0 else 1), kv(k := None))
      else if c = ''EXISTS'' then Some (RInt (if kv k = None then 0 else 1), kv)
      else if c = ''SCARD'' then map_option (\<lambda>(xs, _). (RInt (int (length xs)), kv)) (set_members kv k)
      else if c = ''SMEMBERS'' then map_option (\<lambda>(xs, _). (RArray (map RBulk xs), kv)) (set_members kv k)
      else None)"

definition does3 :: "string \<Rightarrow> string \<Rightarrow> string \<Rightarrow> keyspace \<Rightarrow> (reply \<times> keyspace) option" where
  "does3 c k v kv =
     (if c = ''SET'' then Some (RStatus ''OK'', kv(k \<mapsto> (VStr v, False)))
      else if c = ''SADD'' then
        map_option (\<lambda>(xs, b). (RInt (if v \<in> set xs then 0 else 1), put_set k (List.insort_insert v xs) b kv)) (set_members kv k)
      else if c = ''SREM'' then
        map_option (\<lambda>(xs, b). (RInt (if v \<in> set xs then 1 else 0), put_set k (removeAll v xs) b kv)) (set_members kv k)
      else None)"

text \<open>A score is a double, exact for whole numbers up to \<open>2 ^ 53\<close>; nothing is said about larger ones.\<close>

definition score_of :: "string \<Rightarrow> u64 option" where
  "score_of v = Option.bind (parse_u64 v) (\<lambda>n. if unat n \<le> 2 ^ 53 then Some n else None)"

definition does4 :: "string \<Rightarrow> string \<Rightarrow> string \<Rightarrow> string \<Rightarrow> keyspace \<Rightarrow> (reply \<times> keyspace) option" where
  "does4 c k v w kv =
     (if c = ''SET'' \<and> w = ''NX'' then
        Some (if kv k = None then (RStatus ''OK'', kv(k \<mapsto> (VStr v, False))) else (RNil, kv))
      else if c = ''ZADD'' then
        (case (score_of v, kv k) of
           (Some n, None) \<Rightarrow> Some (RInt 1, kv(k \<mapsto> (VZSet [w \<mapsto> n], False)))
         | (Some n, Some (VZSet z, b)) \<Rightarrow> Some (RInt (if z w = None then 1 else 0), kv(k \<mapsto> (VZSet (z(w \<mapsto> n)), b)))
         | _ \<Rightarrow> None)
      else None)"

definition redis_does :: "string list \<Rightarrow> keyspace \<Rightarrow> (reply \<times> keyspace) option" where
  "redis_does cmd kv =
     (case cmd of
        [c, k] \<Rightarrow> does2 c k kv
      | [c, k, v] \<Rightarrow> does3 c k v kv
      | [c, k, v, w] \<Rightarrow> does4 c k v w kv
      | _ \<Rightarrow> None)"

definition same_reply :: "reply \<Rightarrow> reply \<Rightarrow> bool" where
  "same_reply a b \<longleftrightarrow>
     (case a of RArray xs \<Rightarrow> (\<exists>ys. b = RArray ys \<and> mset xs = mset ys) | _ \<Rightarrow> b = a)"

definition redis_laws :: "'d redis \<Rightarrow> ('d \<Rightarrow> keyspace) \<Rightarrow> bool" where
  "redis_laws R view \<longleftrightarrow>
     (\<forall>c d r kv. redis_does c (view d) = Some (r, kv) \<longrightarrow>
        (\<exists>r' d'. rd_call R c d = (r', d') \<and> same_reply r r' \<and> view d' = kv))
     \<and> (\<forall>d t d' k. rd_trip R d = (t, d') \<longrightarrow>
        (view d k = None \<longrightarrow> view d' k = None) \<and> (\<forall>v. view d k = Some (v, False) \<longrightarrow> view d' k = Some (v, False)))"

lemma rd_call_does:
  assumes "redis_laws R view" "redis_does c (view d) = Some (r, kv)"
  obtains r' d' where "rd_call R c d = (r', d')" "same_reply r r'" "view d' = kv"
  using assms unfolding redis_laws_def by metis

lemma redis_call_does:
  assumes "redis_laws R view" "redis_does c (view d) = Some (r, kv)" "\<nexists>e. r = RErr e"
  obtains r' d' where "redis_call R c d = (Inr r', d')" "same_reply r r'" "view d' = kv"
proof -
  obtain r' d' where r': "rd_call R c d = (r', d')" "same_reply r r'" "view d' = kv"
    by (rule rd_call_does [OF assms(1,2)])
  moreover have "redis_call R c d = (Inr r', d')"
    using r' assms(3) by (cases r; cases r') (auto simp: redis_call_def same_reply_def split: reply.splits)
  ultimately show thesis using that by blast
qed

section \<open>Registrations in both stores\<close>

definition is_utf8 :: "string \<Rightarrow> bool" where
  "is_utf8 t \<longleftrightarrow> from_utf8 t = Some t"

text \<open>A DID whose key is not that of another one's recipients.\<close>

definition plain_did :: "string \<Rightarrow> bool" where
  "plain_did m \<longleftrightarrow> is_utf8 m \<and> \<not> ends_with m '':recipients''"

definition registered :: "keyspace \<Rightarrow> inner \<Rightarrow> bool" where
  "registered kv s \<longleftrightarrow>
     (\<forall>r. kv (recipient_key r) = map_option (\<lambda>m. (VStr m, False)) (owners s r))
   \<and> (\<forall>m. plain_did m \<longrightarrow> kv (recipients_key m) = (if recips_of s m = [] then None else Some (VSet (recips_of s m), False)))
   \<and> (\<forall>m. plain_did m \<longrightarrow> (if m \<in> mediations s then \<exists>t. kv (mediation_key m) = Some (VStr t, False) else kv (mediation_key m) = None))
   \<and> kv SEEN = (if seen s = [] then None else Some (VZSet (map_of (seen s)), False))"

definition stores_agree :: "('d \<Rightarrow> keyspace) \<Rightarrow> 'd \<Rightarrow> inner \<Rightarrow> bool" where
  "stores_agree view d s \<longleftrightarrow>
     \<not> poisoned s \<and> own_inv s \<and> (\<forall>r m. owners s r = Some m \<longrightarrow> is_utf8 r \<and> is_utf8 m) \<and> registered (view d) s"

text \<open>An operation that succeeds gives the same result in both stores, and one that fails did all of its work
  or nothing.\<close>

definition simulates :: "('d \<Rightarrow> inner \<Rightarrow> bool) \<Rightarrow> ('d, string, 'a) act \<Rightarrow> (inner, string, 'a) act \<Rightarrow> bool" where
  "simulates rel f g \<longleftrightarrow>
     (\<forall>d s. rel d s \<longrightarrow>
        (case f d of
           (Inr a, d') \<Rightarrow> fst (g s) = Inr a \<and> rel d' (snd (g s))
         | (Inl e, d') \<Rightarrow> rel d' s \<or> rel d' (snd (g s))))"

lemma keys_differ [simp]:
  "recipient_key r \<noteq> recipients_key m" "recipients_key m \<noteq> recipient_key r"
  "recipient_key r \<noteq> mediation_key m" "mediation_key m \<noteq> recipient_key r"
  "recipient_key r \<noteq> SEEN" "SEEN \<noteq> recipient_key r" "recipients_key m \<noteq> SEEN" "SEEN \<noteq> recipients_key m"
  "mediation_key m \<noteq> SEEN" "SEEN \<noteq> mediation_key m"
  "recipient_key r = recipient_key r' \<longleftrightarrow> r = r'" "recipients_key m = recipients_key m' \<longleftrightarrow> m = m'"
  "mediation_key m = mediation_key m' \<longleftrightarrow> m = m'"
  by (simp_all add: recipient_key_def recipients_key_def mediation_key_def SEEN_def)

text \<open>Two keys may be the same: a DID that ends in \<open>:recipients\<close> has the key of the recipients of another.\<close>

lemma mediation_key_collides: "mediation_key (m @ '':recipients'') = recipients_key m"
  by (simp add: mediation_key_def recipients_key_def)

lemma plain_key [simp]:
  "plain_did m \<Longrightarrow> mediation_key m \<noteq> recipients_key m'" "plain_did m \<Longrightarrow> recipients_key m' \<noteq> mediation_key m"
  by (auto simp: plain_did_def ends_with_def mediation_key_def recipients_key_def)

lemma registered_mediation:
  "registered kv s \<Longrightarrow> plain_did m \<Longrightarrow> m \<in> mediations s \<Longrightarrow> \<exists>t. kv (mediation_key m) = Some (VStr t, False)"
  "registered kv s \<Longrightarrow> plain_did m \<Longrightarrow> m \<notin> mediations s \<Longrightarrow> kv (mediation_key m) = None"
  by (auto simp: registered_def split: if_splits)

lemma registered_trip:
  assumes "redis_laws R view" "rd_trip R d = (t, d')" "registered (view d) s"
  shows "registered (view d') s"
proof -
  have keep: "view d k = None \<Longrightarrow> view d' k = None" "view d k = Some (v, False) \<Longrightarrow> view d' k = Some (v, False)" for k v
    using assms(1,2) by (auto simp: redis_laws_def)
  have "view d' (recipient_key r) = map_option (\<lambda>m. (VStr m, False)) (owners s r)" for r
    using assms(3) by (cases "owners s r") (auto simp: registered_def intro: keep)
  moreover have "view d' (recipients_key m) = (if recips_of s m = [] then None else Some (VSet (recips_of s m), False))"
    if "plain_did m" for m
    using assms(3) that by (cases "recips_of s m") (auto simp: registered_def intro: keep)
  moreover have "if m \<in> mediations s then \<exists>t. view d' (mediation_key m) = Some (VStr t, False) else view d' (mediation_key m) = None"
    if plain: "plain_did m" for m
  proof (cases "m \<in> mediations s")
    case True
    then obtain t where "view d (mediation_key m) = Some (VStr t, False)"
      using registered_mediation(1) [OF assms(3) plain] by blast
    then show ?thesis using True keep(2) by auto
  next
    case False
    then show ?thesis using registered_mediation(2) [OF assms(3) plain] keep(1) by simp
  qed
  moreover have "view d' SEEN = (if seen s = [] then None else Some (VZSet (map_of (seen s)), False))"
    using assms(3) by (auto simp: registered_def intro: keep)
  ultimately show ?thesis by (simp add: registered_def)
qed

lemma agree_trip: "redis_laws R view \<Longrightarrow> rd_trip R d = (t, d') \<Longrightarrow> stores_agree view d s \<Longrightarrow> stores_agree view d' s"
  by (auto simp: stores_agree_def dest: registered_trip)

text \<open>An operation that is one round trip: only its work has to be compared.\<close>

lemma simulates_round_trip:
  assumes laws: "redis_laws R view"
    and work: "\<And>d s. stores_agree view d s \<Longrightarrow>
      \<exists>r a d'. f d = (Inr r, d') \<and> k r d' = (Inr a, d') \<and> fst (g s) = Inr a \<and> stores_agree view d' (snd (g s))"
  shows "simulates (stores_agree view) (bind_act (round_trip R f) k) g"
  unfolding simulates_def
proof (intro allI impI)
  fix d s
  assume agree: "stores_agree view d s"
  obtain t d1 where t: "rd_trip R d = (t, d1)" by fastforce
  have a1: "stores_agree view d1 s" by (rule agree_trip [OF laws t agree])
  from work [OF a1] obtain r a d2 where w: "f d1 = (Inr r, d2)" "k r d2 = (Inr a, d2)" "fst (g s) = Inr a"
    "stores_agree view d2 (snd (g s))" by blast
  then show "case bind_act (round_trip R f) k d of
      (Inr a, d') \<Rightarrow> fst (g s) = Inr a \<and> stores_agree view d' (snd (g s))
    | (Inl e, d') \<Rightarrow> stores_agree view d' s \<or> stores_agree view d' (snd (g s))"
    using a1 t by (cases t) (simp_all add: bind_act_def round_trip_def)
qed


section \<open>Operations\<close>

lemma set_members_recips:
  "registered kv s \<Longrightarrow> plain_did m \<Longrightarrow> set_members kv (recipients_key m) = Some (recips_of s m, False)"
  by (auto simp: registered_def set_members_def)

lemma registered_add:
  assumes "registered kv s" "plain_did m"
  shows "registered (put_set (recipients_key m) (List.insort_insert r (recips_of s m)) False (kv(recipient_key r \<mapsto> (VStr m, False))))
    (s\<lparr>in_recipients := (in_recipients s)(m \<mapsto> List.insort_insert r (recips_of s m)), owners := (owners s)(r \<mapsto> m)\<rparr>)"
  using assms by (auto simp: registered_def put_set_def)

lemma registered_limit:
  "registered kv s \<Longrightarrow> registered kv (s\<lparr>in_recipients := (in_recipients s)(m \<mapsto> recips_of s m)\<rparr>)"
  by (auto simp: registered_def)

lemma recips_of_removed:
  "recips_of (s\<lparr>owners := w, in_recipients := (case in_recipients s m of Some rs \<Rightarrow> (in_recipients s)(m \<mapsto> removeAll r rs)
      | None \<Rightarrow> in_recipients s)\<rparr>) m' = (if m' = m then removeAll r (recips_of s m) else recips_of s m')"
  by (auto simp: recips_of_def split: option.splits)

lemma registered_remove:
  assumes "registered kv s" "plain_did m"
  shows "registered (put_set (recipients_key m) (removeAll r (recips_of s m)) False (kv(recipient_key r := None)))
    (s\<lparr>owners := (owners s)(r := None), in_recipients := (case in_recipients s m of
        Some rs \<Rightarrow> (in_recipients s)(m \<mapsto> removeAll r rs) | None \<Rightarrow> in_recipients s)\<rparr>)"
  using assms unfolding registered_def recips_of_removed by (auto simp: put_set_def)

lemma registered_seen:
  assumes "registered kv s" "m \<in> mediations s"
  shows "registered (kv(SEEN \<mapsto> (VZSet ((map_of (seen s))(m \<mapsto> now)), False))) (s\<lparr>seen := AList.update m now (seen s)\<rparr>)"
  using assms by (auto simp: registered_def update_conv' recips_of_def)

lemma registered_grant:
  assumes "registered kv s" "plain_did m"
    and "kv' = (if kv (mediation_key m) = None then kv(mediation_key m \<mapsto> (VStr t, False)) else kv)"
  shows "registered kv' (s\<lparr>mediations := insert m (mediations s)\<rparr>)"
proof (cases "m \<in> mediations s")
  case True
  then show ?thesis using registered_mediation(1) [OF assms(1,2) True] assms(1,3)
    by (auto simp: insert_absorb)
next
  case False
  then have "kv' = kv(mediation_key m \<mapsto> (VStr t, False))"
    using registered_mediation(2) [OF assms(1,2)] assms(3) by simp
  then show ?thesis using assms(1,2) by (auto simp: registered_def recips_of_def)
qed

fun scalar :: "reply \<Rightarrow> bool" where
  "scalar (RArray _) \<longleftrightarrow> False"
| "scalar (RErr _) \<longleftrightarrow> False"
| "scalar _ \<longleftrightarrow> True"

lemma call_scalar:
  assumes "redis_laws R view" "redis_does c (view d) = Some (r, kv)" "scalar r"
  shows "\<exists>d'. redis_call R c d = (Inr r, d') \<and> view d' = kv"
proof -
  have "\<nexists>e. r = RErr e" using assms(3) by auto
  then obtain r' d' where r': "redis_call R c d = (Inr r', d')" "same_reply r r'" "view d' = kv"
    by (rule redis_call_does [OF assms(1,2)])
  have "r' = r" using r'(2) assms(3) by (cases r) (simp_all add: same_reply_def)
  then show ?thesis using r' by simp
qed

lemma do_call:
  "redis_laws R view \<Longrightarrow> view d = kv \<Longrightarrow> redis_does c kv = Some (r, kv') \<Longrightarrow> scalar r \<Longrightarrow>
    \<exists>d'. redis_call R c d = (Inr r, d') \<and> view d' = kv'"
  by (rule call_scalar) simp_all

lemma scalars: "scalar (RInt n)" "scalar RNil" "scalar (RBulk b)" "scalar (RStatus b)"
  "scalar (case v of None \<Rightarrow> RNil | Some m \<Rightarrow> RBulk m)"
  by (simp_all split: option.split)

text \<open>What each command of the scripts answers, and the keys after it.\<close>

lemma does_simps [simp]:
  "redis_does [''DEL'', k] kv = Some (RInt (if kv k = None then 0 else 1), kv(k := None))"
  "redis_does [''EXISTS'', k] kv = Some (RInt (if kv k = None then 0 else 1), kv)"
  "redis_does [''SET'', k, v] kv = Some (RStatus ''OK'', kv(k \<mapsto> (VStr v, False)))"
  "redis_does [''SET'', k, v, ''NX''] kv =
     Some (if kv k = None then (RStatus ''OK'', kv(k \<mapsto> (VStr v, False))) else (RNil, kv))"
  by (simp_all add: redis_does_def does2_def does3_def does4_def)

lemma does_get: "registered kv s \<Longrightarrow> redis_does [''GET'', recipient_key r] kv
    = Some (case owners s r of None \<Rightarrow> RNil | Some m \<Rightarrow> RBulk m, kv)"
  by (cases "owners s r") (auto simp: redis_does_def does2_def registered_def)

lemma does_set:
  assumes "set_members kv k = Some (xs, b)"
  shows "redis_does [''SCARD'', k] kv = Some (RInt (int (length xs)), kv)"
    "redis_does [''SMEMBERS'', k] kv = Some (RArray (map RBulk xs), kv)"
    "redis_does [''SADD'', k, v] kv = Some (RInt (if v \<in> set xs then 0 else 1), put_set k (List.insort_insert v xs) b kv)"
    "redis_does [''SREM'', k, v] kv = Some (RInt (if v \<in> set xs then 1 else 0), put_set k (removeAll v xs) b kv)"
  using assms by (simp_all add: redis_does_def does2_def does3_def)

lemma does_seen:
  assumes "registered kv s" and now: "unat now \<le> 2 ^ 53"
  shows "redis_does [''ZADD'', SEEN, show_u64 now, m] kv
    = Some (RInt (if map_of (seen s) m = None then 1 else 0), kv(SEEN \<mapsto> (VZSet ((map_of (seen s))(m \<mapsto> now)), False)))"
  using assms by (cases "seen s") (auto simp: redis_does_def does4_def score_of_def registered_def)

lemma set_members_other: "k' \<noteq> k \<Longrightarrow> set_members (kv(k' := x)) k = set_members kv k"
  by (simp add: set_members_def)

lemma agree_view: "stores_agree view d s \<Longrightarrow> view d' = view d \<Longrightarrow> stores_agree view d' s"
  by (simp add: stores_agree_def)

lemma agreeD:
  assumes "stores_agree view d s"
  shows "\<not> poisoned s" "own_inv s" "registered (view d) s" "owners s r = Some m \<Longrightarrow> is_utf8 r" "owners s r = Some m \<Longrightarrow> is_utf8 m"
  using assms by (auto simp: stores_agree_def)

lemma to_text_bulk: "is_utf8 t \<Longrightarrow> to_text (RBulk t) = Inr t"
  by (simp add: is_utf8_def)

lemma to_text_words [simp]:
  "from_utf8 ''added'' = Some ''added''" "from_utf8 ''mine'' = Some ''mine''" "from_utf8 ''taken'' = Some ''taken''"
  "from_utf8 ''limit'' = Some ''limit''" "from_utf8 ''removed'' = Some ''removed''" "from_utf8 ''none'' = Some ''none''"
  "from_utf8 ''theirs'' = Some ''theirs''"
  by (simp_all add: from_utf8_ascii)


lemma own_add:
  assumes "own_inv s" "owners s r = None"
  shows "own_inv (s\<lparr>in_recipients := (in_recipients s)(m \<mapsto> List.insort_insert r (recips_of s m)), owners := (owners s)(r \<mapsto> m)\<rparr>)"
proof -
  have "r \<notin> set (recips_of s m')" for m' using own_inv_owner [OF assms(1), of r m'] assms(2) by simp
  then show ?thesis
    using assms by (auto simp: own_inv_def set_insort_insert sorted_insort_insert distinct_insort_insert)
qed

lemma own_remove:
  assumes "own_inv s" "owners s r = Some m"
  shows "own_inv (s\<lparr>owners := (owners s)(r := None), in_recipients := (case in_recipients s m of
      Some rs \<Rightarrow> (in_recipients s)(m \<mapsto> removeAll r rs) | None \<Rightarrow> in_recipients s)\<rparr>)"
proof -
  have "r \<in> set (recips_of s m') \<longleftrightarrow> m' = m" for m' using own_inv_owner [OF assms(1), of r m'] assms(2) by auto
  then show ?thesis
    using assms unfolding own_inv_def recips_of_removed
    by (auto simp: sorted_removeAll distinct_removeAll)
qed

lemma add_simulates:
  assumes laws: "redis_laws R view" and m: "plain_did m" and r: "is_utf8 r"
  shows "simulates (stores_agree view) (red_add_recipient R m r mx) (mem_add_recipient m r mx)"
  unfolding red_add_recipient_def invoke_def bind_act_assoc
proof (rule simulates_round_trip [OF laws])
  fix d s
  assume agree: "stores_agree view d s"
  note a = agreeD [OF agree]
  obtain d1 where 1: "redis_call R [''GET'', recipient_key r] d = (Inr (case owners s r of None \<Rightarrow> RNil | Some m \<Rightarrow> RBulk m), d1)"
    "view d1 = view d"
    using do_call [OF laws refl does_get [OF a(3)] scalars(5)] by blast
  obtain d2 where 2: "redis_call R [''SCARD'', recipients_key m] d1 = (Inr (RInt (int (length (recips_of s m)))), d2)" "view d2 = view d"
    using do_call [OF laws 1(2) does_set(1) [OF set_members_recips [OF a(3) m]] scalars(1)] by blast
  obtain d3 where 3: "redis_call R [''SET'', recipient_key r, m] d2 = (Inr (RStatus ''OK''), d3)"
    "view d3 = (view d)(recipient_key r \<mapsto> (VStr m, False))"
    using do_call [OF laws 2(2) does_simps(3) scalars(4)] by blast
  have "set_members (view d3) (recipients_key m) = Some (recips_of s m, False)"
    using set_members_recips [OF a(3) m] 3(2) by (simp add: set_members_other)
  then have mem: "set_members ((view d)(recipient_key r \<mapsto> (VStr m, False))) (recipients_key m) = Some (recips_of s m, False)"
    by (simp only: 3(2))
  obtain n d4 where 4: "redis_call R [''SADD'', recipients_key m, r] d3 = (Inr (RInt n), d4)"
    "view d4 = put_set (recipients_key m) (List.insort_insert r (recips_of s m)) False ((view d)(recipient_key r \<mapsto> (VStr m, False)))"
    using do_call [OF laws 3(2) does_set(3) [OF mem] scalars(1)] by blast
  have added: "stores_agree view d4 (s\<lparr>in_recipients := (in_recipients s)(m \<mapsto> List.insort_insert r (recips_of s m)), owners := (owners s)(r \<mapsto> m)\<rparr>)"
    if "owners s r = None"
    using registered_add [OF a(3) m] own_add [OF a(2) that] a(1,4,5) r m 4(2)
    by (auto simp: stores_agree_def plain_did_def)
  have limit: "stores_agree view d2 (s\<lparr>in_recipients := (in_recipients s)(m \<mapsto> recips_of s m)\<rparr>)"
    using registered_limit [OF a(3)] a(1,2,4,5) 2(2) by (auto simp: stores_agree_def own_inv_def)
  have same: "stores_agree view d1 s" by (rule agree_view [OF agree 1(2)])
  show "\<exists>x res d'. ADD_RECIPIENT R (recipient_key r) (recipients_key m) m r mx d = (Inr x, d')
     \<and> bind_act (lift_act (to_text x)) (\<lambda>result.
          if result = ''added'' then return_act Added
          else if result = ''mine'' then return_act AlreadyYours
          else if result = ''taken'' then return_act TakenByOther
          else if result = ''limit'' then return_act LimitReached
          else throw_act (''unexpected add-recipient result '' @ result)) d' = (Inr res, d')
     \<and> fst (mem_add_recipient m r mx s) = Inr res \<and> stores_agree view d' (snd (mem_add_recipient m r mx s))"
    using a(1) 1(1) 2(1) 3(1) 4(1) added limit same
    by (cases "owners s r")
      (auto simp: ADD_RECIPIENT_def bind_act_def lua_int_def mem_add_recipient_def locked_def Let_def)
qed

lemma remove_simulates:
  assumes laws: "redis_laws R view" and m: "plain_did m"
  shows "simulates (stores_agree view) (red_remove_recipient R m r) (mem_remove_recipient m r)"
  unfolding red_remove_recipient_def invoke_def bind_act_assoc
proof (rule simulates_round_trip [OF laws])
  fix d s
  assume agree: "stores_agree view d s"
  note a = agreeD [OF agree]
  obtain d1 where 1: "redis_call R [''GET'', recipient_key r] d = (Inr (case owners s r of None \<Rightarrow> RNil | Some m \<Rightarrow> RBulk m), d1)"
    "view d1 = view d"
    using do_call [OF laws refl does_get [OF a(3)] scalars(5)] by blast
  obtain n d2 where 2: "redis_call R [''DEL'', recipient_key r] d1 = (Inr (RInt n), d2)" "view d2 = (view d)(recipient_key r := None)"
    using do_call [OF laws 1(2) does_simps(1) scalars(1)] by blast
  have "set_members (view d2) (recipients_key m) = Some (recips_of s m, False)"
    using set_members_recips [OF a(3) m] 2(2) by (simp add: set_members_other)
  then have mem: "set_members ((view d)(recipient_key r := None)) (recipients_key m) = Some (recips_of s m, False)"
    by (simp only: 2(2))
  obtain k d3 where 3: "redis_call R [''SREM'', recipients_key m, r] d2 = (Inr (RInt k), d3)"
    "view d3 = put_set (recipients_key m) (removeAll r (recips_of s m)) False ((view d)(recipient_key r := None))"
    using do_call [OF laws 2(2) does_set(4) [OF mem] scalars(1)] by blast
  have removed: "stores_agree view d3 (s\<lparr>owners := (owners s)(r := None), in_recipients := (case in_recipients s m of
      Some rs \<Rightarrow> (in_recipients s)(m \<mapsto> removeAll r rs) | None \<Rightarrow> in_recipients s)\<rparr>)" if "owners s r = Some m"
    using registered_remove [OF a(3) m] own_remove [OF a(2) that] a(1,4,5) 3(2) by (auto simp: stores_agree_def)
  have same: "stores_agree view d1 s" by (rule agree_view [OF agree 1(2)])
  show "\<exists>x res d'. REMOVE_RECIPIENT R (recipient_key r) (recipients_key m) m r d = (Inr x, d')
     \<and> bind_act (lift_act (to_text x)) (\<lambda>result.
          if result = ''removed'' then return_act Removed
          else if result = ''none'' then return_act NotRegistered
          else if result = ''theirs'' then return_act NotYours
          else throw_act (''unexpected remove-recipient result '' @ result)) d' = (Inr res, d')
     \<and> fst (mem_remove_recipient m r s) = Inr res \<and> stores_agree view d' (snd (mem_remove_recipient m r s))"
    using a(1) 1(1) 2(1) 3(1) removed same
    by (cases "owners s r")
      (auto simp: REMOVE_RECIPIENT_def bind_act_def mem_remove_recipient_def locked_def)
qed


lemma mediation_of_simulates:
  assumes laws: "redis_laws R view"
  shows "simulates (stores_agree view) (red_mediation_of R r) (mem_mediation_of r)"
  unfolding red_mediation_of_def command_def invoke_def
proof (rule simulates_round_trip [OF laws])
  fix d s
  assume agree: "stores_agree view d s"
  note a = agreeD [OF agree]
  obtain d1 where 1: "redis_call R [''GET'', recipient_key r] d = (Inr (case owners s r of None \<Rightarrow> RNil | Some m \<Rightarrow> RBulk m), d1)"
    "view d1 = view d"
    using do_call [OF laws refl does_get [OF a(3)] scalars(5)] by blast
  have "to_opt to_text (case owners s r of None \<Rightarrow> RNil | Some m \<Rightarrow> RBulk m) = Inr (owners s r)"
    using a(5) by (cases "owners s r") (simp_all add: to_opt_def to_text_bulk del: to_text.simps(1))
  then show "\<exists>x res d'. redis_call R [''GET'', recipient_key r] d = (Inr x, d')
     \<and> lift_act (to_opt to_text x) d' = (Inr res, d')
     \<and> fst (mem_mediation_of r s) = Inr res \<and> stores_agree view d' (snd (mem_mediation_of r s))"
    using a(1) 1 agree_view [OF agree 1(2)] by (simp add: mem_mediation_of_def locked_def)
qed

lemma bulk_permutation:
  assumes "mset (map RBulk xs) = mset ys"
  shows "\<exists>zs. ys = map RBulk zs \<and> mset zs = mset xs"
proof -
  have ys: "map RBulk (map (\<lambda>r. case r of RBulk t \<Rightarrow> t | _ \<Rightarrow> []) ys) = ys"
  proof (rule map_idI [of ys "\<lambda>r. RBulk (case r of RBulk t \<Rightarrow> t | _ \<Rightarrow> [])", unfolded map_map [symmetric, unfolded comp_def]])
    fix y assume "y \<in> set ys"
    then have "y \<in> set (map RBulk xs)" using mset_eq_setD [OF assms] by simp
    then show "RBulk (case y of RBulk t \<Rightarrow> t | _ \<Rightarrow> []) = y" by auto
  qed
  have "mset (map (\<lambda>r. case r of RBulk t \<Rightarrow> t | _ \<Rightarrow> []) ys) = image_mset (\<lambda>r. case r of RBulk t \<Rightarrow> t | _ \<Rightarrow> []) (mset (map RBulk xs))"
    using assms by simp
  also have "\<dots> = mset xs" by (simp add: image_mset.compositionality comp_def)
  finally show ?thesis using ys by metis
qed

lemma to_list_bulks: "(\<And>t. t \<in> set zs \<Longrightarrow> is_utf8 t) \<Longrightarrow> to_list to_text (RArray (map RBulk zs)) = Inr zs"
  by (induction zs) (auto simp: to_text_bulk simp del: to_text.simps(1))

lemma recipients_simulates:
  assumes laws: "redis_laws R view" and m: "plain_did m"
  shows "simulates (stores_agree view) (red_recipients R m) (mem_recipients m)"
  unfolding red_recipients_def command_def invoke_def bind_act_assoc
proof (rule simulates_round_trip [OF laws])
  fix d s
  assume agree: "stores_agree view d s"
  note a = agreeD [OF agree]
  let ?xs = "recips_of s m"
  have "\<nexists>e. RArray (map RBulk ?xs) = RErr e" by simp
  with redis_call_does [OF laws does_set(2) [OF set_members_recips [OF a(3) m]]]
  obtain r' d1 where 1: "redis_call R [''SMEMBERS'', recipients_key m] d = (Inr r', d1)" "same_reply (RArray (map RBulk ?xs)) r'"
    "view d1 = view d" by metis
  then obtain zs where zs: "r' = RArray (map RBulk zs)" "mset zs = mset ?xs"
    using bulk_permutation by (auto simp: same_reply_def)
  have set: "set zs = set ?xs" using zs(2) by (rule mset_eq_setD)
  have "is_utf8 t" if "t \<in> set zs" for t using a(4) own_inv_owner [OF a(2), of t m] that set by auto
  then have "to_list to_text r' = Inr zs" unfolding zs(1) by (rule to_list_bulks)
  moreover have "sort (remdups zs) = ?xs"
    by (rule sorted_distinct_set_unique) (use a(2) set in \<open>auto simp: own_inv_def\<close>)
  ultimately show "\<exists>x res d'. redis_call R [''SMEMBERS'', recipients_key m] d = (Inr x, d')
     \<and> bind_act (lift_act (to_list to_text x)) (\<lambda>rs. return_act (sort (remdups rs))) d' = (Inr res, d')
     \<and> fst (mem_recipients m s) = Inr res \<and> stores_agree view d' (snd (mem_recipients m s))"
    using a(1) 1 agree_view [OF agree 1(3)] by (simp add: mem_recipients_def locked_def bind_act_def)
qed

lemma granted_exists:
  assumes "stores_agree view d s" "plain_did m"
  shows "view d (mediation_key m) = None \<longleftrightarrow> m \<notin> mediations s"
  using registered_mediation [OF agreeD(3) [OF assms(1)] assms(2)] by force

lemma has_mediation_simulates:
  assumes laws: "redis_laws R view" and m: "plain_did m"
  shows "simulates (stores_agree view) (red_has_mediation R m) (mem_has_mediation m)"
  unfolding red_has_mediation_def command_def invoke_def
proof (rule simulates_round_trip [OF laws])
  fix d s
  assume agree: "stores_agree view d s"
  obtain d1 where 1: "redis_call R [''EXISTS'', mediation_key m] d = (Inr (RInt (if view d (mediation_key m) = None then 0 else 1)), d1)"
    "view d1 = view d"
    using do_call [OF laws refl does_simps(2) scalars(1)] by blast
  show "\<exists>x res d'. redis_call R [''EXISTS'', mediation_key m] d = (Inr x, d') \<and> lift_act (to_bool x) d' = (Inr res, d')
     \<and> fst (mem_has_mediation m s) = Inr res \<and> stores_agree view d' (snd (mem_has_mediation m s))"
    using agreeD(1) [OF agree] 1 agree_view [OF agree 1(2)] granted_exists [OF agree m]
    by (auto simp: mem_has_mediation_def locked_def)
qed

lemma agree_seen:
  assumes "stores_agree view d s" "m \<in> mediations s"
    and "view d' = (view d)(SEEN \<mapsto> (VZSet ((map_of (seen s))(m \<mapsto> now)), False))"
  shows "stores_agree view d' (s\<lparr>seen := AList.update m now (seen s)\<rparr>)"
  using assms registered_seen [OF agreeD(3) [OF assms(1)] assms(2)]
  by (auto simp: stores_agree_def own_inv_def recips_of_def)

lemma touch_simulates:
  assumes laws: "redis_laws R view" and m: "plain_did m" and now: "unat now \<le> 2 ^ 53"
  shows "simulates (stores_agree view) (red_touch_mediation R m now) (mem_touch_mediation m now)"
  unfolding red_touch_mediation_def invoke_def bind_act_assoc
proof (rule simulates_round_trip [OF laws])
  fix d s
  assume agree: "stores_agree view d s"
  obtain d1 where 1: "redis_call R [''EXISTS'', mediation_key m] d = (Inr (RInt (if view d (mediation_key m) = None then 0 else 1)), d1)"
    "view d1 = view d"
    using do_call [OF laws refl does_simps(2) scalars(1)] by blast
  obtain n d2 where 2: "redis_call R [''ZADD'', SEEN, show_u64 now, m] d1 = (Inr (RInt n), d2)"
    "view d2 = (view d)(SEEN \<mapsto> (VZSet ((map_of (seen s))(m \<mapsto> now)), False))"
    using do_call [OF laws 1(2) does_seen [OF agreeD(3) [OF agree] now] scalars(1)] by blast
  show "\<exists>x res d'. TOUCH R (mediation_key m) SEEN m now d = (Inr x, d')
     \<and> bind_act (lift_act (to_u64 x)) (\<lambda>_. return_act ()) d' = (Inr res, d')
     \<and> fst (mem_touch_mediation m now s) = Inr res \<and> stores_agree view d' (snd (mem_touch_mediation m now s))"
    using agreeD(1) [OF agree] 1 2(1) agree_view [OF agree 1(2)] granted_exists [OF agree m] agree_seen [OF agree _ 2(2)]
    by (auto simp: TOUCH_def mem_touch_mediation_def locked_def bind_act_def)
qed


lemma rd_call_scalar:
  assumes "redis_laws R view" "view d = kv" "redis_does c kv = Some (r, kv')" "scalar r"
  shows "\<exists>d'. rd_call R c d = (r, d') \<and> view d' = kv'"
proof -
  obtain r' d' where "rd_call R c d = (r', d')" "same_reply r r'" "view d' = kv'"
    using rd_call_does [OF assms(1)] assms(2,3) by metis
  then show ?thesis using assms(4) by (cases r) (simp_all add: same_reply_def)
qed

lemma grant_simulates:
  assumes laws: "redis_laws R view" and m: "plain_did m" and now: "unat now \<le> 2 ^ 53"
  shows "simulates (stores_agree view) (red_grant_mediation R m now) (mem_grant_mediation m now)"
  unfolding red_grant_mediation_def atomic_def
proof (rule simulates_round_trip [OF laws])
  fix d s
  assume agree: "stores_agree view d s"
  note a = agreeD [OF agree]
  let ?kv = "if view d (mediation_key m) = None then (view d)(mediation_key m \<mapsto> (VStr (show_u64 now), False)) else view d"
  let ?s = "s\<lparr>mediations := insert m (mediations s)\<rparr>"
  let ?r = "if view d (mediation_key m) = None then RStatus ''OK'' else RNil"
  have nx: "redis_does [''SET'', mediation_key m, show_u64 now, ''NX''] (view d) = Some (?r, ?kv)"
    and ok: "scalar ?r" by simp_all
  obtain x d1 where 1: "rd_call R [''SET'', mediation_key m, show_u64 now, ''NX''] d = (x, d1)" "scalar x" "view d1 = ?kv"
    using rd_call_scalar [OF laws refl nx ok] ok by blast
  have reg: "registered ?kv ?s" by (rule registered_grant [OF a(3) m refl])
  obtain n d2 where 2: "rd_call R [''ZADD'', SEEN, show_u64 now, m] d1 = (RInt n, d2)"
    "view d2 = ?kv(SEEN \<mapsto> (VZSet ((map_of (seen ?s))(m \<mapsto> now)), False))"
    using rd_call_scalar [OF laws 1(3) does_seen [OF reg now] scalars(1)] by blast
  have "registered (view d2) (?s\<lparr>seen := AList.update m now (seen ?s)\<rparr>)"
    unfolding 2(2) by (rule registered_seen [OF reg]) simp
  then have "stores_agree view d2 (snd (mem_grant_mediation m now s))"
    using a(1,2,4,5) by (simp add: stores_agree_def own_inv_def recips_of_def mem_grant_mediation_def locked_def)
  moreover have "first_error [x, RInt n] = None" using 1(2) by (cases x) simp_all
  ultimately show "\<exists>rs res d'. (case run_all R [[''SET'', mediation_key m, show_u64 now, ''NX''], [''ZADD'', SEEN, show_u64 now, m]] d of
        (rs, d) \<Rightarrow> (case first_error rs of Some e \<Rightarrow> Inl e | None \<Rightarrow> Inr rs, d)) = (Inr rs, d')
     \<and> return_act () d' = (Inr res, d')
     \<and> fst (mem_grant_mediation m now s) = Inr res \<and> stores_agree view d' (snd (mem_grant_mediation m now s))"
    using a(1) 1(1) 2(1) by (simp add: mem_grant_mediation_def locked_def)
qed

text \<open>The collision at work: once a mediation has a recipient, the DID with the suffix counts as granted
  although it never asked.\<close>

lemma collision_counts_as_granted:
  assumes laws: "redis_laws R view" and agree: "stores_agree view d s" and m: "plain_did m"
    and "recips_of s m \<noteq> []" "rd_trip R d = (Reached, d)"
  shows "fst (red_has_mediation R (m @ '':recipients'') d) = Inr True"
proof -
  have "view d (recipients_key m) \<noteq> None" using agreeD(3) [OF agree] m assms(4) by (simp add: registered_def)
  then obtain d1 where "redis_call R [''EXISTS'', recipients_key m] d = (Inr (RInt 1), d1)"
    using do_call [OF laws refl does_simps(2) [where k = "recipients_key m"] scalars(1), of d] by auto
  then show ?thesis
    using assms(5) by (simp add: red_has_mediation_def command_def invoke_def round_trip_def bind_act_def mediation_key_collides)
qed

section \<open>The refinement\<close>

text \<open>C7: Registrations in Redis refine registrations in memory: on a server that does what Redis documents, for
  DIDs whose key is not another one's and at a time that a score can hold, granting, touching and looking up
  a mediation, and adding, removing, listing and looking up recipient DIDs, give the result of the in-process
  store and keep the two stores in agreement. When one of these seven operations fails, on whichever side of
  the connection, it did all of its work or nothing. (The clean-up of idle mediations is one script for each
  of them and may stop half way; it is not among the seven.)\<close>

theorem redis_refines_memory:
  assumes "redis_laws R view" "plain_did m" "is_utf8 r" "unat now \<le> 2 ^ 53"
  shows "simulates (stores_agree view) (grant_mediation (redis_store X R) m now) (grant_mediation memory_store m now)
    \<and> simulates (stores_agree view) (touch_mediation (redis_store X R) m now) (touch_mediation memory_store m now)
    \<and> simulates (stores_agree view) (has_mediation (redis_store X R) m) (has_mediation memory_store m)
    \<and> simulates (stores_agree view) (add_recipient (redis_store X R) m r mx) (add_recipient memory_store m r mx)
    \<and> simulates (stores_agree view) (remove_recipient (redis_store X R) m r) (remove_recipient memory_store m r)
    \<and> simulates (stores_agree view) (recipients (redis_store X R) m) (recipients memory_store m)
    \<and> simulates (stores_agree view) (mediation_of (redis_store X R) r) (mediation_of memory_store r)"
  using grant_simulates [OF assms(1,2,4)] touch_simulates [OF assms(1,2,4)] has_mediation_simulates [OF assms(1,2)]
    add_simulates [OF assms(1-3)] remove_simulates [OF assms(1,2)] recipients_simulates [OF assms(1,2)]
    mediation_of_simulates [OF assms(1)]
  by (simp add: redis_store_def memory_store_def)

text \<open>A server that does just what is documented.\<close>

definition sample_redis :: "keyspace redis" where
  "sample_redis = \<lparr>
     rd_call = (\<lambda>c kv. case redis_does c kv of Some x \<Rightarrow> x | None \<Rightarrow> (RErr ''ERR unknown command'', kv)),
     rd_trip = (\<lambda>kv. (Reached, kv)), rd_cjson = (\<lambda>_. None)\<rparr>"

lemma sample_redis_laws: "redis_laws sample_redis id"
  by (auto simp: redis_laws_def sample_redis_def same_reply_def split: reply.split)

lemma stores_agree_new: "stores_agree id Map.empty mem_new"
  by (simp add: stores_agree_def mem_new_def own_inv_def recips_of_def registered_def)

theorem redis_refines_memory_witness:
  "\<exists>kv. add_recipient (redis_store sample_ext sample_redis) ''did:key:w'' ''did:key:r'' 1 Map.empty = (Inr Added, kv)
     \<and> kv (recipient_key ''did:key:r'') = Some (VStr ''did:key:w'', False)"
proof -
  have plain: "plain_did ''did:key:w''" "is_utf8 ''did:key:r''"
    by (simp_all add: plain_did_def is_utf8_def ends_with_def from_utf8_ascii)
  have sim: "simulates (stores_agree id) (add_recipient (redis_store sample_ext sample_redis) ''did:key:w'' ''did:key:r'' 1)
      (add_recipient memory_store ''did:key:w'' ''did:key:r'' 1)"
    using redis_refines_memory [OF sample_redis_laws plain, of 0] by simp
  have mem: "add_recipient memory_store ''did:key:w'' ''did:key:r'' 1 mem_new
      = (Inr Added, mem_new\<lparr>in_recipients := [''did:key:w'' \<mapsto> [''did:key:r'']], owners := [''did:key:r'' \<mapsto> ''did:key:w'']\<rparr>)"
    by (simp add: memory_store_def mem_add_recipient_def locked_def mem_new_def recips_of_def insort_insert_key_def)
  obtain x kv where x: "add_recipient (redis_store sample_ext sample_redis) ''did:key:w'' ''did:key:r'' 1 Map.empty = (x, kv)" by fastforce
  have "\<exists>a. x = Inr a" using x
    by (auto simp: redis_store_def red_add_recipient_def invoke_def round_trip_def sample_redis_def ADD_RECIPIENT_def
        redis_call_def redis_does_def does2_def does3_def set_members_def bind_act_def lua_int_def)
  then have "x = Inr Added \<and> stores_agree id kv (mem_new\<lparr>in_recipients := [''did:key:w'' \<mapsto> [''did:key:r'']], owners := [''did:key:r'' \<mapsto> ''did:key:w'']\<rparr>)"
    using sim stores_agree_new mem x by (force simp: simulates_def)
  then show ?thesis using x by (auto simp: stores_agree_def registered_def)
qed

end
