(* ===== verification/Redis_Queue.thy ===== *)
theory Redis_Queue
  imports Redis_Refinement
begin

text \<open>
  The queue scripts of the Redis store keep the byte counter in step with the stream, and keep a queue
  within its limits. \<open>queue_does\<close> is the documented effect of the commands the scripts use on streams and
  counters, within one script; \<open>queue_laws\<close> says that a server does it and that \<open>XADD\<close> gives a new entry an
  id above all others while the stream's ids, which begin with the time, are not used up. Numbers stay below \<open>2 ^ 53\<close>, where Lua's doubles are exact.
\<close>

section \<open>What the commands do\<close>

datatype qvalue = QStr string | QStream "(string \<times> string list) list"

type_synonym qspace = "string \<rightharpoonup> qvalue"

definition stream_of :: "qspace \<Rightarrow> string \<Rightarrow> (string \<times> string list) list option" where
  "stream_of kv k = (case kv k of None \<Rightarrow> Some [] | Some (QStream es) \<Rightarrow> Some es | _ \<Rightarrow> None)"

definition counter_of :: "qspace \<Rightarrow> string \<Rightarrow> nat option" where
  "counter_of kv k = (case kv k of None \<Rightarrow> Some 0 | Some (QStr t) \<Rightarrow> map_option unat (parse_u64 t) | _ \<Rightarrow> None)"

text \<open>Stream ids are ordered by their time and then their sequence number.\<close>

definition stream_pos :: "string \<Rightarrow> nat \<times> nat" where
  "stream_pos i = (case split_once (CHR ''-'') i of Some (a, b) \<Rightarrow> (digits_val a, digits_val b) | None \<Rightarrow> (digits_val i, 0))"

definition earlier :: "string \<Rightarrow> string \<Rightarrow> bool" where
  "earlier i j \<longleftrightarrow> fst (stream_pos i) < fst (stream_pos j)
     \<or> fst (stream_pos i) = fst (stream_pos j) \<and> snd (stream_pos i) < snd (stream_pos j)"

definition stream_id :: "string \<Rightarrow> bool" where
  "stream_id i \<longleftrightarrow> is_queue_id i \<and> fst (stream_pos i) < 2 ^ 64 \<and> snd (stream_pos i) < 2 ^ 64"

definition entry_reply :: "string \<times> string list \<Rightarrow> reply" where
  "entry_reply e = RArray [RBulk (fst e), RArray (map RBulk (snd e))]"

definition small :: "string \<Rightarrow> nat option" where
  "small t = Option.bind (parse_u64 t) (\<lambda>n. if unat n < 2 ^ 53 then Some (unat n) else None)"

definition queue_does2 :: "string \<Rightarrow> string \<Rightarrow> qspace \<Rightarrow> (reply \<times> qspace) option" where
  "queue_does2 c k kv =
     (if c = ''GET'' then
        (case kv k of None \<Rightarrow> Some (RNil, kv) | Some (QStr t) \<Rightarrow> Some (RBulk t, kv) | _ \<Rightarrow> None)
      else if c = ''DEL'' then Some (RInt (if kv k = None then 0 else 1), kv(k := None))
      else if c = ''XLEN'' then map_option (\<lambda>es. (RInt (int (length es)), kv)) (stream_of kv k)
      else None)"

definition queue_does3 :: "string \<Rightarrow> string \<Rightarrow> string \<Rightarrow> qspace \<Rightarrow> (reply \<times> qspace) option" where
  "queue_does3 c k v kv =
     (if c = ''DECRBY'' then
        (case (counter_of kv k, small v) of
           (Some n, Some m) \<Rightarrow> if m \<le> n then Some (RInt (int (n - m)), kv(k \<mapsto> QStr (show_nat (n - m)))) else None
         | _ \<Rightarrow> None)
      else if c = ''INCRBY'' then
        (case (counter_of kv k, small v) of
           (Some n, Some m) \<Rightarrow> if n + m < 2 ^ 63 then Some (RInt (int (n + m)), kv(k \<mapsto> QStr (show_nat (n + m)))) else None
         | _ \<Rightarrow> None)
      else if c = ''EXPIRE'' then map_option (\<lambda>_. (RInt (if kv k = None then 0 else 1), kv)) (small v)
      else if c = ''XDEL'' \<and> stream_id v then
        map_option (\<lambda>es. (RInt (int (length (filter (\<lambda>e. stream_pos (fst e) = stream_pos v) es))),
          if kv k = None then kv else kv(k \<mapsto> QStream (filter (\<lambda>e. stream_pos (fst e) \<noteq> stream_pos v) es)))) (stream_of kv k)
      else None)"

definition queue_does4 :: "string \<Rightarrow> string \<Rightarrow> string \<Rightarrow> string \<Rightarrow> qspace \<Rightarrow> (reply \<times> qspace) option" where
  "queue_does4 c k v w kv =
     (if c = ''XRANGE'' \<and> v = ''-'' \<and> w \<noteq> [] \<and> hd w = CHR ''('' \<and> stream_id (tl w) then
        map_option (\<lambda>es. (RArray (map entry_reply (filter (\<lambda>e. earlier (fst e) (tl w)) es)), kv)) (stream_of kv k)
      else if c = ''XRANGE'' \<and> v = w \<and> stream_id v then
        map_option (\<lambda>es. (RArray (map entry_reply (filter (\<lambda>e. stream_pos (fst e) = stream_pos v) es)), kv)) (stream_of kv k)
      else if c = ''XTRIM'' \<and> v = ''MINID'' \<and> stream_id w then
        map_option (\<lambda>es. (RInt (int (length (filter (\<lambda>e. earlier (fst e) w) es))),
          if kv k = None then kv else kv(k \<mapsto> QStream (filter (\<lambda>e. \<not> earlier (fst e) w) es)))) (stream_of kv k)
      else None)"

definition queue_does :: "string list \<Rightarrow> qspace \<Rightarrow> (reply \<times> qspace) option" where
  "queue_does cmd kv =
     (case cmd of
        [c, k] \<Rightarrow> queue_does2 c k kv
      | [c, k, v] \<Rightarrow> queue_does3 c k v kv
      | [c, k, v, w] \<Rightarrow> queue_does4 c k v w kv
      | [c, k, v, w, t] \<Rightarrow>
          if c = ''SET'' \<and> w = ''EX'' \<and> small t \<noteq> None \<and> small t \<noteq> Some 0
          then Some (RStatus ''OK'', kv(k \<mapsto> QStr v)) else None
      | _ \<Rightarrow> None)"

definition queue_laws :: "'d redis \<Rightarrow> ('d \<Rightarrow> qspace) \<Rightarrow> bool" where
  "queue_laws R view \<longleftrightarrow>
     (\<forall>c d r kv. queue_does c (view d) = Some (r, kv) \<longrightarrow> (\<exists>d'. rd_call R c d = (r, d') \<and> view d' = kv))
     \<and> (\<forall>k vs d es. stream_of (view d) k = Some es \<longrightarrow> (\<forall>e\<in>set es. fst (stream_pos (fst e)) < 2 ^ 64 - 1) \<longrightarrow>
         (\<exists>i d'. rd_call R (''XADD'' # k # ''*'' # vs) d = (RBulk i, d') \<and> stream_id i \<and> is_utf8 i
            \<and> (\<forall>e\<in>set es. earlier (fst e) i) \<and> view d' = (view d)(k \<mapsto> QStream (es @ [(i, vs)]))))"

lemma queue_call:
  assumes "queue_laws R view" "view d = kv" "queue_does c kv = Some (r, kv')" "\<nexists>e. r = RErr e"
  shows "\<exists>d'. redis_call R c d = (Inr r, d') \<and> view d' = kv'"
proof -
  obtain d' where "rd_call R c d = (r, d')" "view d' = kv'" using assms(1-3) unfolding queue_laws_def by metis
  then show ?thesis using assms(4) by (cases r) (auto simp: redis_call_def)
qed

section \<open>A queue whose counter is in step\<close>

definition size_of :: "string list \<Rightarrow> nat" where
  "size_of vs = (case vs of [_, _, _, n] \<Rightarrow> digits_val n | _ \<Rightarrow> 0)"

definition total_size :: "(string \<times> string list) list \<Rightarrow> nat" where
  "total_size es = sum_list (map (size_of \<circ> snd) es)"

definition entry_ok :: "string \<times> string list \<Rightarrow> bool" where
  "entry_ok e \<longleftrightarrow> (\<exists>r n. snd e = [''r'', r, ''s'', show_nat n])"

definition queue_at :: "qspace \<Rightarrow> string \<Rightarrow> (string \<times> string list) list \<Rightarrow> bool" where
  "queue_at kv m es \<longleftrightarrow>
     stream_of kv (queue_key m) = Some es \<and> counter_of kv (bytes_key m) = Some (total_size es)
     \<and> total_size es < 2 ^ 53 \<and> (\<forall>e\<in>set es. entry_ok e) \<and> distinct (map (stream_pos \<circ> fst) es)"

lemma parse_show_nat: "n < 2 ^ 64 \<Longrightarrow> parse_u64 (show_nat n) = Some (of_nat n)"
  using parse_show_u64 [of "of_nat n"] by (simp add: show_u64_def unat_of_nat take_bit_eq_mod)

lemma tonumber_show_nat: "n < 2 ^ 64 \<Longrightarrow> tonumber (RBulk (show_nat n)) = Some (int n)"
  by (simp add: tonumber_def parse_show_nat take_bit_eq_mod unsigned_of_nat)

lemma small_show_nat: "n < 2 ^ 53 \<Longrightarrow> small (show_nat n) = Some n"
  by (simp add: small_def parse_show_nat unat_of_nat take_bit_eq_mod)

lemma size_le_total: "e \<in> set es \<Longrightarrow> size_of (snd e) \<le> total_size es"
  by (simp add: total_size_def member_le_sum_list)

lemma total_size_split: "total_size (filter P es) + total_size (filter (\<lambda>e. \<not> P e) es) = total_size es"
  by (induction es) (auto simp: total_size_def)

lemma entry_size_reply:
  assumes "entry_ok e" "size_of (snd e) < 2 ^ 64"
  shows "entry_size (entry_reply e) d = (Inr (int (size_of (snd e))), d)"
  using assms by (auto simp: entry_ok_def entry_size_def entry_reply_def size_of_def lua_number_def tonumber_show_nat)

lemma sum_sizes_reply:
  "\<forall>e\<in>set es. entry_ok e \<and> size_of (snd e) < 2 ^ 64 \<Longrightarrow>
    sum_sizes (map entry_reply es) n d = (Inr (n + int (total_size es)), d)"
  by (induction es arbitrary: n) (auto simp: total_size_def bind_act_def entry_size_reply)

lemma keys_apart [simp]:
  "queue_key m \<noteq> bytes_key m" "bytes_key m \<noteq> queue_key m" "body_prefix m @ i \<noteq> queue_key m" "body_prefix m @ i \<noteq> bytes_key m"
  "queue_key m \<noteq> body_prefix m @ i" "bytes_key m \<noteq> body_prefix m @ i"
  by (simp_all add: queue_key_def bytes_key_def body_prefix_def)

lemma queue_atD:
  assumes "queue_at kv m es"
  shows "stream_of kv (queue_key m) = Some es" "counter_of kv (bytes_key m) = Some (total_size es)"
    "\<And>e. e \<in> set es \<Longrightarrow> entry_ok e \<and> size_of (snd e) < 2 ^ 64" "total_size es < 2 ^ 53"
  using assms size_le_total by (fastforce simp: queue_at_def)+

text \<open>Taking bytes off the counter.\<close>

lemma uncount_ok:
  assumes laws: "queue_laws R view" and c: "counter_of (view d) b = Some n" and "m \<le> n" "n < 2 ^ 53"
  shows "\<exists>d'. uncount R b (int m) d = (Inr (), d') \<and> (view d' = view d \<and> m = 0 \<or> view d' = (view d)(b \<mapsto> QStr (show_nat (n - m))))"
proof (cases "m = 0")
  case False
  have "queue_does [''DECRBY'', b, show_int (int m)] (view d)
      = Some (RInt (int (n - m)), (view d)(b \<mapsto> QStr (show_nat (n - m))))"
    using assms by (simp add: queue_does_def queue_does3_def show_int_def small_show_nat)
  from queue_call [OF laws refl this]
  obtain d' where "redis_call R [''DECRBY'', b, show_int (int m)] d = (Inr (RInt (int (n - m))), d')"
    "view d' = (view d)(b \<mapsto> QStr (show_nat (n - m)))" by auto
  then show ?thesis using False by (simp add: uncount_def bind_act_def lua_int_def)
qed (simp add: uncount_def)

lemma queue_at_smaller:
  assumes q: "queue_at kv m es" and e: "es' = filter P es"
    and s: "stream_of kv' (queue_key m) = Some es'" and c: "counter_of kv' (bytes_key m) = Some (total_size es')"
  shows "queue_at kv' m es'"
proof -
  have "total_size es' \<le> total_size es" using total_size_split [of P es] e by simp
  then show ?thesis using q s c by (auto simp: queue_at_def e intro: distinct_map_filter)
qed


lemma stream_of_upd [simp]:
  "stream_of (kv(k \<mapsto> QStream es)) k' = (if k' = k then Some es else stream_of kv k')"
  "stream_of (kv(k \<mapsto> QStr t)) k' = (if k' = k then None else stream_of kv k')"
  by (simp_all add: stream_of_def)

lemma counter_of_upd [simp]:
  "counter_of (kv(k \<mapsto> QStream es)) k' = (if k' = k then None else counter_of kv k')"
  "counter_of (kv(k \<mapsto> QStr t)) k' = (if k' = k then map_option unat (parse_u64 t) else counter_of kv k')"
  by (simp_all add: counter_of_def)

lemma counter_show_nat: "n < 2 ^ 53 \<Longrightarrow> map_option unat (parse_u64 (show_nat n)) = Some n"
  by (simp add: parse_show_nat unat_of_nat take_bit_eq_mod)

text \<open>Trimming takes what is older off the stream and its bytes off the counter.\<close>

lemma queue_trim_ok:
  assumes laws: "queue_laws R view" and q: "queue_at (view d) m es" and minid: "stream_id minid"
  shows "\<exists>d'. queue_trim R (queue_key m) (bytes_key m) minid d = (Inr (), d')
    \<and> queue_at (view d') m (filter (\<lambda>e. \<not> earlier (fst e) minid) es)"
proof -
  note a = queue_atD [OF q]
  let ?old = "filter (\<lambda>e. earlier (fst e) minid) es" and ?new = "filter (\<lambda>e. \<not> earlier (fst e) minid) es"
  have sum: "total_size ?old + total_size ?new = total_size es" by (rule total_size_split)
  have "queue_does [''XRANGE'', queue_key m, ''-'', ''('' @ minid] (view d) = Some (RArray (map entry_reply ?old), view d)"
    using a(1) minid by (simp add: queue_does_def queue_does4_def)
  from queue_call [OF laws refl this]
  obtain d1 where 1: "redis_call R [''XRANGE'', queue_key m, ''-'', ''('' @ minid] d = (Inr (RArray (map entry_reply ?old)), d1)"
    "view d1 = view d" by auto
  have "\<forall>e\<in>set ?old. entry_ok e \<and> size_of (snd e) < 2 ^ 64"
    by (intro ballI a(3)) simp
  from sum_sizes_reply [OF this, of 0 d1]
  have sizes: "sum_sizes (map entry_reply ?old) 0 d1 = (Inr (int (total_size ?old)), d1)" by simp
  let ?kv = "if view d (queue_key m) = None then view d else (view d)(queue_key m \<mapsto> QStream ?new)"
  have "queue_does [''XTRIM'', queue_key m, ''MINID'', minid] (view d) = Some (RInt (int (length ?old)), ?kv)"
    using a(1) minid by (simp add: queue_does_def queue_does4_def)
  from queue_call [OF laws 1(2) this]
  obtain d2 where 2: "redis_call R [''XTRIM'', queue_key m, ''MINID'', minid] d1 = (Inr (RInt (int (length ?old))), d2)" "view d2 = ?kv"
    by blast
  have st: "stream_of (view d2) (queue_key m) = Some ?new" and ct: "counter_of (view d2) (bytes_key m) = Some (total_size es)"
    using a(1,2) 2(2) by (auto simp: stream_of_def)
  obtain d3 where 3: "uncount R (bytes_key m) (int (total_size ?old)) d2 = (Inr (), d3)"
    "view d3 = view d2 \<and> total_size ?old = 0 \<or> view d3 = (view d2)(bytes_key m \<mapsto> QStr (show_nat (total_size es - total_size ?old)))"
    using uncount_ok [OF laws ct, of "total_size ?old"] sum a(4) by auto
  have "stream_of (view d3) (queue_key m) = Some ?new" using 3(2) st by auto
  moreover have "counter_of (view d3) (bytes_key m) = Some (total_size ?new)"
  proof -
    have eq: "total_size es - total_size ?old = total_size ?new" and lt: "total_size ?new < 2 ^ 53" using sum a(4) by simp_all
    show ?thesis using 3(2)
    proof
      assume "view d3 = view d2 \<and> total_size ?old = 0"
      then show ?thesis using ct sum by simp
    next
      assume "view d3 = (view d2)(bytes_key m \<mapsto> QStr (show_nat (total_size es - total_size ?old)))"
      then show ?thesis unfolding eq using counter_show_nat [OF lt] by simp
    qed
  qed
  ultimately have "queue_at (view d3) m ?new" by (rule queue_at_smaller [OF q refl])
  moreover have "queue_trim R (queue_key m) (bytes_key m) minid d = (Inr (), d3)"
    using 1(1) sizes 2(1) 3(1) by (simp add: queue_trim_def bind_act_def lua_list_def)
  ultimately show ?thesis by blast
qed


text \<open>A new message is appended if there is room, with its body under its own key.\<close>

lemma total_size_append: "total_size (es @ [(i, [a, b, c, show_nat n])]) = total_size es + n"
  by (simp add: total_size_def size_of_def)

lemma queue_at_append:
  assumes "queue_at kv m es" "\<forall>e\<in>set es. earlier (fst e) i" "total_size es + n < 2 ^ 53"
    and "stream_of kv' (queue_key m) = Some (es @ [(i, [''r'', r, ''s'', show_nat n])])"
    and "counter_of kv' (bytes_key m) = Some (total_size es + n)"
  shows "queue_at kv' m (es @ [(i, [''r'', r, ''s'', show_nat n])])"
  using assms by (auto simp: queue_at_def total_size_append entry_ok_def earlier_def)

lemma bind_run: "f d = (Inr x, d') \<Longrightarrow> bind_act f g d = g x d'"
  by (simp add: bind_act_def)

lemma queue_add:
  assumes "queue_laws R view" "stream_of (view d) k = Some es" "\<forall>e\<in>set es. fst (stream_pos (fst e)) < 2 ^ 64 - 1"
  obtains i d' where "redis_call R (''XADD'' # k # ''*'' # vs) d = (Inr (RBulk i), d')" "stream_id i" "is_utf8 i"
    "\<forall>e\<in>set es. earlier (fst e) i" "view d' = (view d)(k \<mapsto> QStream (es @ [(i, vs)]))"
proof -
  obtain i d' where "rd_call R (''XADD'' # k # ''*'' # vs) d = (RBulk i, d')" "stream_id i" "is_utf8 i"
    "\<forall>e\<in>set es. earlier (fst e) i" "view d' = (view d)(k \<mapsto> QStream (es @ [(i, vs)]))"
    using conjunct2 [OF assms(1) [unfolded queue_laws_def], rule_format, OF assms(2), of vs] assms(3) by blast
  then show thesis using that by (simp add: redis_call_def)
qed

lemma ENQUEUE_ok:
  assumes laws: "queue_laws R view" and q: "queue_at (view d) m es" and minid: "stream_id minid"
    and left: "\<forall>e\<in>set es. fst (stream_pos (fst e)) < 2 ^ 64 - 1"
    and max_bytes: "unat max_bytes < 2 ^ 53" and ttl: "0 < unat ttl" "unat ttl < 2 ^ 53"
  defines "live \<equiv> filter (\<lambda>e. \<not> earlier (fst e) minid) es"
  shows "\<exists>rep d'. ENQUEUE R (queue_key m) (bytes_key m) minid max_messages max_bytes r (length body) body ttl (body_prefix m) d = (Inr rep, d')
    \<and> (if max_messages \<le> length live \<or> unat max_bytes < total_size live + length body
       then rep = RNil \<and> queue_at (view d') m live
       else \<exists>i. rep = RBulk i \<and> stream_id i \<and> is_utf8 i \<and> (\<forall>e\<in>set live. earlier (fst e) i)
         \<and> queue_at (view d') m (live @ [(i, [''r'', r, ''s'', show_nat (length body)])])
         \<and> view d' (body_prefix m @ i) = Some (QStr body))"
proof -
  obtain d1 where 1: "queue_trim R (queue_key m) (bytes_key m) minid d = (Inr (), d1)" "queue_at (view d1) m live"
    using queue_trim_ok [OF laws q minid] unfolding live_def by blast
  note a = queue_atD [OF 1(2)]
  have "queue_does [''XLEN'', queue_key m] (view d1) = Some (RInt (int (length live)), view d1)"
    using a(1) by (simp add: queue_does_def queue_does2_def)
  from queue_call [OF laws refl this]
  obtain d2 where 2: "redis_call R [''XLEN'', queue_key m] d1 = (Inr (RInt (int (length live))), d2)" "view d2 = view d1" by auto
  obtain g where g: "queue_does [''GET'', bytes_key m] (view d1) = Some (g, view d1)" "\<nexists>e. g = RErr e"
    "tonumber (if g = RNil then RBulk ''0'' else g) = Some (int (total_size live))"
  proof (cases "view d1 (bytes_key m)")
    case None
    moreover have "parse_u64 ''0'' = Some 0" by (simp add: parse_u64_def is_ascii_digit_def digits_val_def)
    ultimately show thesis using that [of RNil] a(2)
      by (simp add: queue_does_def queue_does2_def counter_of_def tonumber_def)
  next
    case (Some v)
    then obtain t z where t: "v = QStr t" "parse_u64 t = Some z" "unat z = total_size live"
      using a(2) by (cases v) (auto simp: counter_of_def)
    have "uint z = int (total_size live)" unfolding t(3) [symmetric] by (rule uint_nat)
    then show thesis using that [of "RBulk t"] t(1,2) Some
      by (simp add: queue_does_def queue_does2_def tonumber_def)
  qed
  obtain d3 where 3: "redis_call R [''GET'', bytes_key m] d2 = (Inr g, d3)" "view d3 = view d1"
    using queue_call [OF laws 2(2) g(1,2)] by blast
  have head: "ENQUEUE R (queue_key m) (bytes_key m) minid max_messages max_bytes r (length body) body ttl (body_prefix m) d
    = (if max_messages \<le> length live then (Inr RNil, d2)
       else if unat max_bytes < total_size live + length body then (Inr RNil, d3)
       else
         bind_act (bind_act (redis_call R [''XADD'', queue_key m, ''*'', ''r'', r, ''s'', show_nat (length body)]) lua_string) (\<lambda>i.
         bind_act (redis_call R [''SET'', body_prefix m @ i, body, ''EX'', show_u64 ttl]) (\<lambda>_.
         bind_act (redis_call R [''INCRBY'', bytes_key m, show_nat (length body)]) (\<lambda>_.
         bind_act (redis_call R [''EXPIRE'', queue_key m, show_u64 ttl]) (\<lambda>_.
         bind_act (redis_call R [''EXPIRE'', bytes_key m, show_u64 ttl]) (\<lambda>_.
         return_act (RBulk i)))))) d3)"
  proof -
    have x: "bind_act (redis_call R [''XLEN'', queue_key m]) lua_int d1 = (Inr (int (length live)), d2)"
      by (simp add: bind_act_def 2(1) lua_int_def)
    have y: "lua_number (tonumber (if g = RNil then RBulk ''0'' else g)) d3 = (Inr (int (total_size live)), d3)"
      unfolding g(3) by (simp add: lua_number_def)
    have u: "uint max_bytes < int (total_size live) + int (length body) \<longleftrightarrow> unat max_bytes < total_size live + length body"
      using uint_nat [of max_bytes] by linarith
    show ?thesis
      unfolding ENQUEUE_def
      apply (subst bind_run, rule 1(1))
      apply (subst bind_run, rule x)
      apply (cases "max_messages \<le> length live")
       apply simp
      apply (simp only: of_nat_le_iff if_False)
      apply (subst bind_run, rule 3(1))
      apply (subst bind_run, rule y)
      apply (simp only: u)
      apply (cases "unat max_bytes < total_size live + length body")
       apply simp
      apply (simp only: if_False)
      done
  qed
  show ?thesis
  proof (cases "max_messages \<le> length live \<or> unat max_bytes < total_size live + length body")
    case True
    then show ?thesis unfolding head using 1(2) 2(2) 3(2) by auto
  next
    case False
    let ?n = "length body"
    let ?es = "\<lambda>i. live @ [(i, [''r'', r, ''s'', show_nat ?n])]"
    have n: "?n < 2 ^ 53" "total_size live + ?n < 2 ^ 53" using False max_bytes by auto
    have "stream_of (view d3) (queue_key m) = Some live" using a(1) 3(2) by simp
    moreover have "\<forall>e\<in>set live. fst (stream_pos (fst e)) < 2 ^ 64 - 1" using left by (simp add: live_def)
    ultimately have st3: "stream_of (view d3) (queue_key m) = Some live" "\<forall>e\<in>set live. fst (stream_pos (fst e)) < 2 ^ 64 - 1"
      by simp_all
    from queue_add [OF laws st3, of "[''r'', r, ''s'', show_nat ?n]"]
    obtain i d4 where 4: "redis_call R [''XADD'', queue_key m, ''*'', ''r'', r, ''s'', show_nat ?n] d3 = (Inr (RBulk i), d4)"
      "stream_id i" "is_utf8 i" "\<forall>e\<in>set live. earlier (fst e) i" "view d4 = (view d3)(queue_key m \<mapsto> QStream (?es i))"
      by metis
    have t: "small (show_u64 ttl) = Some (unat ttl)" using ttl(2) by (simp add: show_u64_def small_show_nat)
    have "queue_does [''SET'', body_prefix m @ i, body, ''EX'', show_u64 ttl] (view d4)
        = Some (RStatus ''OK'', (view d4)(body_prefix m @ i \<mapsto> QStr body))"
      using t ttl(1) by (simp add: queue_does_def)
    from queue_call [OF laws refl this]
    obtain d5 where 5: "redis_call R [''SET'', body_prefix m @ i, body, ''EX'', show_u64 ttl] d4 = (Inr (RStatus ''OK''), d5)"
      "view d5 = (view d4)(body_prefix m @ i \<mapsto> QStr body)" by auto
    have c5: "counter_of (view d5) (bytes_key m) = Some (total_size live)"
      using a(2) 5(2) 4(5) 3(2) by simp
    have "queue_does [''INCRBY'', bytes_key m, show_nat ?n] (view d5)
        = Some (RInt (int (total_size live + ?n)), (view d5)(bytes_key m \<mapsto> QStr (show_nat (total_size live + ?n))))"
      using c5 n by (simp add: queue_does_def queue_does3_def small_show_nat)
    from queue_call [OF laws refl this]
    obtain d6 where 6: "redis_call R [''INCRBY'', bytes_key m, show_nat ?n] d5 = (Inr (RInt (int (total_size live + ?n))), d6)"
      "view d6 = (view d5)(bytes_key m \<mapsto> QStr (show_nat (total_size live + ?n)))" by auto
    have expire: "\<exists>k d'. redis_call R [''EXPIRE'', key, show_u64 ttl] e = (Inr (RInt k), d') \<and> view d' = view e" for key e
    proof -
      have "queue_does [''EXPIRE'', key, show_u64 ttl] (view e) = Some (RInt (if view e key = None then 0 else 1), view e)"
        using t by (simp add: queue_does_def queue_does3_def)
      from queue_call [OF laws refl this] show ?thesis by blast
    qed
    obtain k d7 where 7: "redis_call R [''EXPIRE'', queue_key m, show_u64 ttl] d6 = (Inr (RInt k), d7)" "view d7 = view d6"
      using expire by blast
    obtain l d8 where 8: "redis_call R [''EXPIRE'', bytes_key m, show_u64 ttl] d7 = (Inr (RInt l), d8)" "view d8 = view d7"
      using expire by blast
    have run: "ENQUEUE R (queue_key m) (bytes_key m) minid max_messages max_bytes r ?n body ttl (body_prefix m) d = (Inr (RBulk i), d8)"
      unfolding head using False 4(1) 5(1) 6(1) 7(1) 8(1) by (simp add: bind_act_def lua_string_def)
    have st: "stream_of (view d8) (queue_key m) = Some (?es i)" and ct: "counter_of (view d8) (bytes_key m) = Some (total_size live + ?n)"
      and body: "view d8 (body_prefix m @ i) = Some (QStr body)"
      using 8(2) 7(2) 6(2) 5(2) 4(5) counter_show_nat [OF n(2)] by simp_all
    have "queue_at (view d8) m (?es i)" by (rule queue_at_append [OF 1(2) 4(4) n(2) st ct])
    then show ?thesis using run False 4(2,3,4) body by auto
  qed
qed

text \<open>Removing takes entries by id off the stream, their bytes off the counter, and deletes their bodies.\<close>

lemma one_at_position:
  assumes "distinct (map (stream_pos \<circ> fst) es)"
  shows "filter (\<lambda>e. stream_pos (fst e) = p) es = [] \<or> (\<exists>e\<in>set es. filter (\<lambda>e. stream_pos (fst e) = p) es = [e])"
  using assms
proof (induction es)
  case (Cons e es)
  have "p \<notin> stream_pos ` fst ` set es" if "stream_pos (fst e) = p" using that Cons.prems by (auto simp: image_comp)
  then have "filter (\<lambda>e. stream_pos (fst e) = p) es = []" if "stream_pos (fst e) = p"
    using that by (force simp: filter_empty_conv image_iff)
  then show ?case using Cons by auto
qed simp

lemma remove_step:
  assumes laws: "queue_laws R view" and st: "stream_of (view d) (queue_key m) = Some es"
    and ok: "\<forall>e\<in>set es. entry_ok e \<and> size_of (snd e) < 2 ^ 64" and dist: "distinct (map (stream_pos \<circ> fst) es)"
    and i: "stream_id i"
  defines "es' \<equiv> filter (\<lambda>e. stream_pos (fst e) \<noteq> stream_pos i) es"
  shows "\<exists>d'. remove_entries R (queue_key m) (body_prefix m) (i # ids) (n, k) d
      = remove_entries R (queue_key m) (body_prefix m) ids
          (n + (int (length es) - int (length es')), k + (int (total_size es) - int (total_size es'))) d'
    \<and> stream_of (view d') (queue_key m) = Some es' \<and> view d' (body_prefix m @ i) = None
    \<and> (\<forall>x. x \<noteq> queue_key m \<and> x \<noteq> body_prefix m @ i \<longrightarrow> view d' x = view d x)"
proof -
  let ?hit = "filter (\<lambda>e. stream_pos (fst e) = stream_pos i) es"
  have sz: "total_size ?hit + total_size es' = total_size es" unfolding es'_def by (rule total_size_split)
  have ln: "length ?hit + length es' = length es" unfolding es'_def by (simp add: sum_length_filter_compl)
  have "i \<noteq> ''-''" using i by (auto simp: stream_id_def is_queue_id_def)
  then have "queue_does [''XRANGE'', queue_key m, i, i] (view d) = Some (RArray (map entry_reply ?hit), view d)"
    using st i by (simp add: queue_does_def queue_does4_def)
  from queue_call [OF laws refl this]
  obtain d1 where 1: "redis_call R [''XRANGE'', queue_key m, i, i] d = (Inr (RArray (map entry_reply ?hit)), d1)"
    "view d1 = view d" by auto
  have del: "\<exists>z e'. redis_call R [''DEL'', body_prefix m @ i] e = (Inr (RInt z), e') \<and> view e' = (view e)(body_prefix m @ i := None)" for e
  proof -
    have "queue_does [''DEL'', body_prefix m @ i] (view e)
        = Some (RInt (if view e (body_prefix m @ i) = None then 0 else 1), (view e)(body_prefix m @ i := None))"
      by (simp add: queue_does_def queue_does2_def)
    from queue_call [OF laws refl this] show ?thesis by blast
  qed
  consider "?hit = []" | e where "e \<in> set es" "?hit = [e]" using one_at_position [OF dist, of "stream_pos i"] by blast
  then show ?thesis
  proof cases
    case none: 1
    obtain z d2 where 2: "redis_call R [''DEL'', body_prefix m @ i] d1 = (Inr (RInt z), d2)" "view d2 = (view d1)(body_prefix m @ i := None)"
      using del by blast
    have "es' = es" using none unfolding es'_def by (auto simp: filter_id_conv filter_empty_conv)
    have "remove_entries R (queue_key m) (body_prefix m) (i # ids) (n, k) d = remove_entries R (queue_key m) (body_prefix m) ids (n, k) d2"
      using 1(1) none 2(1) by (simp add: bind_act_def lua_list_def)
    then show ?thesis using \<open>es' = es\<close> st 2(2) 1(2)
      by (intro exI [of _ d2]) (simp add: stream_of_def)
  next
    case (2 e)
    let ?kv = "(view d)(queue_key m \<mapsto> QStream es')"
    have "view d (queue_key m) \<noteq> None" using st 2(1) by (cases "view d (queue_key m)") (auto simp: stream_of_def)
    then have "queue_does [''XDEL'', queue_key m, i] (view d) = Some (RInt 1, ?kv)"
      using st i 2(2) by (auto simp: queue_does_def queue_does3_def es'_def)
    from queue_call [OF laws 1(2) this]
    obtain d2 where x: "redis_call R [''XDEL'', queue_key m, i] d1 = (Inr (RInt 1), d2)" "view d2 = ?kv" by auto
    obtain z d3 where y: "redis_call R [''DEL'', body_prefix m @ i] d2 = (Inr (RInt z), d3)" "view d3 = (view d2)(body_prefix m @ i := None)"
      using del by blast
    have n: "int (length es) - int (length es') = 1" using ln 2(2) by simp
    have s: "int (total_size es) - int (total_size es') = int (size_of (snd e))" using sz 2(2) by (simp add: total_size_def)
    have "entry_size (entry_reply e) d1 = (Inr (int (size_of (snd e))), d1)" using ok 2(1) by (simp add: entry_size_reply)
    then have "remove_entries R (queue_key m) (body_prefix m) (i # ids) (n, k) d
        = remove_entries R (queue_key m) (body_prefix m) ids (n + 1, k + int (size_of (snd e))) d3"
      using 1(1) 2(2) x(1) y(1) by (simp add: bind_act_def lua_list_def lua_int_def)
    then show ?thesis unfolding n s using x(2) y(2) by (intro exI [of _ d3]) (simp add: stream_of_def)
  qed
qed

definition without :: "string list \<Rightarrow> (string \<times> string list) list \<Rightarrow> (string \<times> string list) list" where
  "without ids es = filter (\<lambda>e. stream_pos (fst e) \<notin> stream_pos ` set ids) es"

lemma without_Cons: "without (i # ids) es = without ids (filter (\<lambda>e. stream_pos (fst e) \<noteq> stream_pos i) es)"
  by (induction es) (auto simp: without_def)

lemma without_total: "total_size (without ids es) \<le> total_size es"
  using total_size_split [of "\<lambda>e. stream_pos (fst e) \<notin> stream_pos ` set ids" es] by (simp add: without_def)

lemma remove_entries_ok:
  assumes laws: "queue_laws R view" and "list_all stream_id ids" "stream_of (view d) (queue_key m) = Some es"
    and "\<forall>e\<in>set es. entry_ok e \<and> size_of (snd e) < 2 ^ 64" "distinct (map (stream_pos \<circ> fst) es)"
  shows "\<exists>d'. remove_entries R (queue_key m) (body_prefix m) ids (n, k) d
      = (Inr (n + (int (length es) - int (length (without ids es))),
              k + (int (total_size es) - int (total_size (without ids es)))), d')
    \<and> stream_of (view d') (queue_key m) = Some (without ids es)
    \<and> (\<forall>i\<in>set ids. view d' (body_prefix m @ i) = None)
    \<and> (\<forall>x. x \<noteq> queue_key m \<and> x \<notin> (@) (body_prefix m) ` set ids \<longrightarrow> view d' x = view d x)"
  using assms(2-)
proof (induction ids arbitrary: d es n k)
  case Nil
  have "without [] es = es" by (simp add: without_def)
  then show ?case using Nil by simp
next
  case (Cons i ids)
  let ?es = "filter (\<lambda>e. stream_pos (fst e) \<noteq> stream_pos i) es"
  have i: "stream_id i" "list_all stream_id ids" using Cons.prems(1) by simp_all
  obtain d1 where 1: "remove_entries R (queue_key m) (body_prefix m) (i # ids) (n, k) d
      = remove_entries R (queue_key m) (body_prefix m) ids
          (n + (int (length es) - int (length ?es)), k + (int (total_size es) - int (total_size ?es))) d1"
    "stream_of (view d1) (queue_key m) = Some ?es" "view d1 (body_prefix m @ i) = None"
    "\<forall>x. x \<noteq> queue_key m \<and> x \<noteq> body_prefix m @ i \<longrightarrow> view d1 x = view d x"
    using remove_step [OF laws Cons.prems(2-4) i(1)] by blast
  have p: "\<forall>e\<in>set ?es. entry_ok e \<and> size_of (snd e) < 2 ^ 64" "distinct (map (stream_pos \<circ> fst) ?es)"
    using Cons.prems(3) by simp (rule distinct_map_filter [OF Cons.prems(4)])
  from Cons.IH [OF i(2) 1(2) p] obtain d2 where 2:
    "remove_entries R (queue_key m) (body_prefix m) ids
          (n + (int (length es) - int (length ?es)), k + (int (total_size es) - int (total_size ?es))) d1
      = (Inr (n + (int (length es) - int (length ?es)) + (int (length ?es) - int (length (without ids ?es))),
              k + (int (total_size es) - int (total_size ?es)) + (int (total_size ?es) - int (total_size (without ids ?es)))), d2)"
    "stream_of (view d2) (queue_key m) = Some (without ids ?es)"
    "\<forall>i\<in>set ids. view d2 (body_prefix m @ i) = None"
    "\<forall>x. x \<noteq> queue_key m \<and> x \<notin> (@) (body_prefix m) ` set ids \<longrightarrow> view d2 x = view d1 x" by blast
  have "view d2 (body_prefix m @ i) = None" using 2(3) spec [OF 2(4), of "body_prefix m @ i"] 1(3) by (cases "i \<in> set ids") auto
  moreover have "\<forall>x. x \<noteq> queue_key m \<and> x \<notin> (@) (body_prefix m) ` set (i # ids) \<longrightarrow> view d2 x = view d x"
    using 2(4) 1(4) by auto
  ultimately show ?case unfolding without_Cons using 1(1) 2(1,2,3) by (intro exI [of _ d2]) simp
qed

lemma REMOVE_ok:
  assumes laws: "queue_laws R view" and ids: "list_all stream_id ids" and q: "queue_at (view d) m es"
  shows "\<exists>d'. REMOVE R (queue_key m) (bytes_key m) (body_prefix m) ids d
      = (Inr (RInt (int (length es - length (without ids es)))), d')
    \<and> queue_at (view d') m (without ids es) \<and> (\<forall>i\<in>set ids. view d' (body_prefix m @ i) = None)"
proof -
  note a = queue_atD [OF q]
  have dist: "distinct (map (stream_pos \<circ> fst) es)" using q by (simp add: queue_at_def)
  have ok: "\<forall>e\<in>set es. entry_ok e \<and> size_of (snd e) < 2 ^ 64" using a(3) by blast
  let ?es = "without ids es"
  let ?freed = "total_size es - total_size ?es"
  have le: "length ?es \<le> length es" "total_size ?es \<le> total_size es"
    by (simp add: without_def) (rule without_total)
  obtain d1 where 1: "remove_entries R (queue_key m) (body_prefix m) ids (0, 0) d
      = (Inr (int (length es - length ?es), int ?freed), d1)"
    "stream_of (view d1) (queue_key m) = Some ?es" "\<forall>i\<in>set ids. view d1 (body_prefix m @ i) = None"
    "\<forall>x. x \<noteq> queue_key m \<and> x \<notin> (@) (body_prefix m) ` set ids \<longrightarrow> view d1 x = view d x"
    using remove_entries_ok [OF laws ids a(1) ok dist, of 0 0] le by (auto simp: of_nat_diff)
  have "view d1 (bytes_key m) = view d (bytes_key m)" using spec [OF 1(4), of "bytes_key m"] by auto
  then have ct: "counter_of (view d1) (bytes_key m) = Some (total_size es)" using a(2) by (simp add: counter_of_def)
  obtain d2 where 2: "uncount R (bytes_key m) (int ?freed) d1 = (Inr (), d2)"
    "view d2 = view d1 \<and> ?freed = 0 \<or> view d2 = (view d1)(bytes_key m \<mapsto> QStr (show_nat (total_size es - ?freed)))"
    using uncount_ok [OF laws ct, of ?freed] a(4) by auto
  have eq: "total_size es - ?freed = total_size ?es" and lt: "total_size ?es < 2 ^ 53" using le a(4) by simp_all
  have c: "counter_of (view d2) (bytes_key m) = Some (total_size ?es)"
    using 2(2)
  proof
    assume "view d2 = view d1 \<and> ?freed = 0"
    then show ?thesis using ct le by simp
  next
    assume "view d2 = (view d1)(bytes_key m \<mapsto> QStr (show_nat (total_size es - ?freed)))"
    then show ?thesis unfolding eq using counter_show_nat [OF lt] by simp
  qed
  have s: "stream_of (view d2) (queue_key m) = Some ?es" using 2(2) 1(2) by auto
  have "queue_at (view d2) m ?es" by (rule queue_at_smaller [OF q _ s c]) (simp add: without_def)
  moreover have "\<forall>i\<in>set ids. view d2 (body_prefix m @ i) = None" using 2(2) 1(3) by auto
  moreover have "REMOVE R (queue_key m) (bytes_key m) (body_prefix m) ids d = (Inr (RInt (int (length es - length ?es))), d2)"
    using 1(1) 2(1) by (simp add: REMOVE_def bind_act_def)
  ultimately show ?thesis by blast
qed

end
