(* ===== verification/Redis_Queue_Properties.thy ===== *)
theory Redis_Queue_Properties
  imports Redis_Queue
begin

text \<open>The operations of the Redis store on a queue, from its scripts.\<close>

lemma stream_pos_id: "stream_pos (show_nat t @ ''-'' @ show_nat n) = (t, n)"
proof -
  have "split_once (CHR ''-'') (show_nat t @ CHR ''-'' # show_nat n) = Some (show_nat t, show_nat n)"
    by (rule split_once_append) simp
  then show ?thesis by (simp add: stream_pos_def)
qed

lemma stream_id_id: "t < 2 ^ 64 \<Longrightarrow> n < 2 ^ 64 \<Longrightarrow> stream_id (show_nat t @ ''-'' @ show_nat n)"
  using is_queue_id_id [of "of_nat t" "of_nat n"] stream_pos_id [of t n]
  by (simp add: stream_id_def show_u64_def unat_of_nat take_bit_eq_mod)

lemma show_nat_0: "show_nat 0 = ''0''"
  by (simp add: show_nat.simps) (simp add: char_of_eq_iff)

lemma stream_id_min_id: "stream_id (min_id now ttl)"
proof -
  have "unat (saturating_sub now ttl * 1000) < 2 ^ 64" using unsigned_less [of "saturating_sub now ttl * 1000"] by simp
  from stream_id_id [OF this, of 0] show ?thesis by (simp add: min_id_def show_u64_def show_nat_0)
qed

lemma invoke_reached:
  assumes "rd_trip R d = (Reached, d)" "script d = (Inr r, d')" "decode r = Inr a"
  shows "invoke R script decode d = (Inr a, d')"
  using assms by (simp add: invoke_def round_trip_def bind_act_def)

text \<open>The Redis store keeps each queue's byte counter in step with its stream and the queue within its
  limits, on a server that does what Redis documents for streams and counters. \<open>enqueue\<close> drops what has
  expired, with its bytes; then it refuses the message exactly if it does not fit into the limits, and
  otherwise appends it with its size under a new, later id and stores its text under that id.
  \<open>remove\<close> takes exactly the entries with the given ids away, with their bytes, reports how many they were, and
  deletes their texts.\<close>

theorem redis_queue_in_step:
  fixes R :: "'d redis"
  assumes "queue_laws R view" "rd_trip R d = (Reached, d)" "queue_at (view d) m es" "length es < 2 ^ 63"
    and "\<forall>e\<in>set es. fst (stream_pos (fst e)) < 2 ^ 64 - 1"
    and "unat (ql_max_bytes lims) < 2 ^ 53" "unat (ql_ttl_secs lims) < 2 ^ 53" "list_all stream_id ids"
  shows "(\<exists>res d' live. live = filter (\<lambda>e. \<not> earlier (fst e) (min_id now (ql_ttl_secs lims))) es
      \<and> enqueue (redis_store X R) m r message now lims d = (Inr res, d')
      \<and> (if ql_max_messages lims \<le> length live \<or> unat (ql_max_bytes lims) < total_size live + length message
         then res = None \<and> queue_at (view d') m live
         else \<exists>i. res = Some i \<and> stream_id i \<and> (\<forall>e\<in>set live. earlier (fst e) i)
           \<and> queue_at (view d') m (live @ [(i, [''r'', r, ''s'', show_nat (length message)])])
           \<and> view d' (body_prefix m @ i) = Some (QStr message)))
    \<and> (\<exists>d'. remove (redis_store X R) m ids d = (Inr (length es - length (without ids es)), d')
      \<and> queue_at (view d') m (without ids es) \<and> (\<forall>i\<in>set ids. view d' (body_prefix m @ i) = None))"
proof -
  let ?live = "filter (\<lambda>e. \<not> earlier (fst e) (min_id now (ql_ttl_secs lims))) es"
  have ttl: "0 < unat (max (ql_ttl_secs lims) 1)" "unat (max (ql_ttl_secs lims) 1) < 2 ^ 53"
    using assms(7) by (auto simp: max_def word_le_nat_alt unat_gt_0)
  obtain rep d' where e: "ENQUEUE R (queue_key m) (bytes_key m) (min_id now (ql_ttl_secs lims)) (ql_max_messages lims) (ql_max_bytes lims) r
      (length message) message (max (ql_ttl_secs lims) 1) (body_prefix m) d = (Inr rep, d')"
    and c: "if ql_max_messages lims \<le> length ?live \<or> unat (ql_max_bytes lims) < total_size ?live + length message
       then rep = RNil \<and> queue_at (view d') m ?live
       else \<exists>i. rep = RBulk i \<and> stream_id i \<and> is_utf8 i \<and> (\<forall>e\<in>set ?live. earlier (fst e) i)
         \<and> queue_at (view d') m (?live @ [(i, [''r'', r, ''s'', show_nat (length message)])])
         \<and> view d' (body_prefix m @ i) = Some (QStr message)"
    using ENQUEUE_ok [OF assms(1,3) stream_id_min_id assms(5,6) ttl, of now "ql_ttl_secs lims" "ql_max_messages lims" r message] by blast
  define dec where "dec = (case rep of RBulk i \<Rightarrow> Some i | _ \<Rightarrow> None)"
  have dec: "to_opt to_text rep = Inr dec"
    using c to_text_bulk by (auto simp: to_opt_def dec_def split: if_splits simp del: to_text.simps(1))
  have run: "enqueue (redis_store X R) m r message now lims d = (Inr dec, d')"
    unfolding redis_store_def red_enqueue_def store_ops.simps by (rule invoke_reached [OF assms(2)]) (rule e, rule dec)
  have "\<exists>res d' live. live = ?live
      \<and> enqueue (redis_store X R) m r message now lims d = (Inr res, d')
      \<and> (if ql_max_messages lims \<le> length live \<or> unat (ql_max_bytes lims) < total_size live + length message
         then res = None \<and> queue_at (view d') m live
         else \<exists>i. res = Some i \<and> stream_id i \<and> (\<forall>e\<in>set live. earlier (fst e) i)
           \<and> queue_at (view d') m (live @ [(i, [''r'', r, ''s'', show_nat (length message)])])
           \<and> view d' (body_prefix m @ i) = Some (QStr message))"
    using c run by (intro exI [of _ dec] exI [of _ d'] exI [of _ ?live]) (auto simp: dec_def split: if_splits)
  moreover have "\<exists>d'. remove (redis_store X R) m ids d = (Inr (length es - length (without ids es)), d')
      \<and> queue_at (view d') m (without ids es) \<and> (\<forall>i\<in>set ids. view d' (body_prefix m @ i) = None)"
  proof (cases "ids = []")
    case True
    then show ?thesis using assms(3) by (simp add: redis_store_def red_remove_def without_def)
  next
    case False
    have "filter is_queue_id ids = ids" using assms(8) by (auto simp: filter_id_conv list_all_iff stream_id_def)
    moreover obtain d2 where rm: "REMOVE R (queue_key m) (bytes_key m) (body_prefix m) ids d
        = (Inr (RInt (int (length es - length (without ids es)))), d2)"
      "queue_at (view d2) m (without ids es) \<and> (\<forall>i\<in>set ids. view d2 (body_prefix m @ i) = None)"
      using REMOVE_ok [OF assms(1,8,3)] by blast
    moreover have "invoke R (REMOVE R (queue_key m) (bytes_key m) (body_prefix m) ids) (\<lambda>r. map_sum id unat (to_u64 r)) d
        = (Inr (length es - length (without ids es)), d2)"
      by (rule invoke_reached [OF assms(2)], rule rm(1)) (use assms(4) in \<open>simp add: unat_of_nat take_bit_eq_mod\<close>)
    ultimately show ?thesis using False
      by (intro exI [of _ d2]) (simp add: redis_store_def red_remove_def)
  qed
  ultimately show ?thesis by blast
qed

text \<open>A server that numbers its entries.\<close>

definition next_id :: "(string \<times> string list) list \<Rightarrow> string" where
  "next_id es = show_nat (Suc (foldr max (map (fst \<circ> stream_pos \<circ> fst) es) 0)) @ ''-'' @ show_nat 0"

definition sample_streams :: "qspace redis" where
  "sample_streams = \<lparr>
     rd_call = (\<lambda>c kv.
       case c of
         xadd # k # star # vs \<Rightarrow>
           if xadd = ''XADD'' then
             (case stream_of kv k of
                Some es \<Rightarrow> (RBulk (next_id es), kv(k \<mapsto> QStream (es @ [(next_id es, vs)])))
              | None \<Rightarrow> (RErr ''WRONGTYPE'', kv))
           else (case queue_does c kv of Some x \<Rightarrow> x | None \<Rightarrow> (RErr ''ERR unknown command'', kv))
       | _ \<Rightarrow> (case queue_does c kv of Some x \<Rightarrow> x | None \<Rightarrow> (RErr ''ERR unknown command'', kv))),
     rd_trip = (\<lambda>kv. (Reached, kv)), rd_cjson = (\<lambda>_. None)\<rparr>"

lemma foldr_max: "x \<in> set xs \<Longrightarrow> x \<le> foldr max xs (0 :: nat)" "\<forall>x\<in>set xs. x < n \<Longrightarrow> 0 < n \<Longrightarrow> foldr max xs 0 < n"
  by (induction xs) auto

lemma next_id_ok:
  assumes "\<forall>e\<in>set es. fst (stream_pos (fst e)) < 2 ^ 64 - 1"
  shows "stream_id (next_id es)" "is_utf8 (next_id es)" "e \<in> set es \<Longrightarrow> earlier (fst e) (next_id es)"
proof -
  let ?n = "foldr max (map (fst \<circ> stream_pos \<circ> fst) es) 0"
  have "?n < 2 ^ 64 - 1" using assms by (intro foldr_max(2)) auto
  then show "stream_id (next_id es)" unfolding next_id_def by (intro stream_id_id) simp_all
  show "e \<in> set es \<Longrightarrow> earlier (fst e) (next_id es)"
    using foldr_max(1) [of "fst (stream_pos (fst e))" "map (fst \<circ> stream_pos \<circ> fst) es"]
    unfolding earlier_def next_id_def stream_pos_id by force
  have digit: "is_ascii_digit c \<Longrightarrow> of_char c < (128 :: nat)" for c by (auto simp: is_ascii_digit_def)
  then have "\<forall>c\<in>set (next_id es). of_char c < (128 :: nat)"
    using show_nat_digits [of "Suc ?n"] show_nat_digits [of 0] by (auto simp: next_id_def list_all_iff)
  then show "is_utf8 (next_id es)" unfolding is_utf8_def by (rule from_utf8_ascii)
qed

lemma queue_does_not_xadd: "queue_does (''XADD'' # k # v # vs) kv = None"
  by (auto simp: queue_does_def queue_does3_def queue_does4_def split: list.split)

lemma sample_streams_laws: "queue_laws sample_streams id"
proof -
  have "rd_call sample_streams c d = (r, kv)" if q: "queue_does c d = Some (r, kv)" for c d r kv
  proof -
    have "\<nexists>k v vs. c = ''XADD'' # k # v # vs" using q queue_does_not_xadd by (metis option.distinct(1))
    then show ?thesis using q by (auto simp: sample_streams_def split: list.split)
  qed
  then show ?thesis using next_id_ok by (auto simp: queue_laws_def sample_streams_def)
qed

theorem redis_queue_in_step_witness:
  "\<exists>i d'. enqueue (redis_store sample_ext sample_streams) ''did:a'' ''did:r'' ''text'' 7
      \<lparr>ql_ttl_secs = 60, ql_max_messages = 1, ql_max_bytes = 10\<rparr> Map.empty = (Inr (Some i), d')
    \<and> queue_at d' ''did:a'' [(i, [''r'', ''did:r'', ''s'', ''4''])] \<and> d' (body_prefix ''did:a'' @ i) = Some (QStr ''text'')"
proof -
  let ?lims = "\<lparr>ql_ttl_secs = 60, ql_max_messages = 1, ql_max_bytes = 10\<rparr>"
  have q: "queue_at (id Map.empty) ''did:a'' []" by (simp add: queue_at_def stream_of_def counter_of_def total_size_def)
  have t: "rd_trip sample_streams Map.empty = (Reached, Map.empty)" by (simp add: sample_streams_def)
  have "show_nat 4 = ''4''" by (simp add: show_nat.simps) (simp add: char_of_eq_iff)
  then have n: "show_nat (Suc (Suc (Suc (Suc 0)))) = ''4''" by (simp add: eval_nat_numeral)
  have "\<exists>res d' live. live = filter (\<lambda>e. \<not> earlier (fst e) (min_id 7 (ql_ttl_secs ?lims))) []
      \<and> enqueue (redis_store sample_ext sample_streams) ''did:a'' ''did:r'' ''text'' 7 ?lims Map.empty = (Inr res, d')
      \<and> (if ql_max_messages ?lims \<le> length live \<or> unat (ql_max_bytes ?lims) < total_size live + length ''text''
         then res = None \<and> queue_at (id d') ''did:a'' live
         else \<exists>i. res = Some i \<and> stream_id i \<and> (\<forall>e\<in>set live. earlier (fst e) i)
           \<and> queue_at (id d') ''did:a'' (live @ [(i, [''r'', ''did:r'', ''s'', show_nat (length ''text'')])])
           \<and> id d' (body_prefix ''did:a'' @ i) = Some (QStr ''text''))"
    by (rule conjunct1 [OF redis_queue_in_step [where view = id and d = Map.empty and ids = "[]", OF sample_streams_laws t q]])
      simp_all
  then show ?thesis by (auto simp: total_size_def n)
qed

end
