(* ===== verification/Startup.thy ===== *)
theory Startup
  imports Retries Routes Key_File Providers Redis
begin

text \<open>
  Starting the mediator: \<open>crates/mediator/src/main.rs\<close>, \<open>Mediator::new\<close> and \<open>with_pusher\<close> of
  \<open>dispatch/mod.rs\<close>, and the rounds of its two periodic tasks. The command line decides between a health
  check, a key rotation and serving; serving reads the keys, opens the store and puts the parts together
  from the configuration. Listening, signals and logging are left out.
\<close>

section \<open>The mediator\<close>

definition mediator_new ::
  "ext \<Rightarrow> identity \<Rightarrow> 's store_ops \<Rightarrow> limits \<Rightarrow> 'n transport option \<Rightarrow> ('n, 's) mediator" where
  "mediator_new X i st lims transport =
     \<lparr>md_ext = X, md_identity = i, md_store = st, md_limits = lims, md_transport = transport, md_pusher = None\<rparr>"

definition with_pusher :: "('n, 's) mediator \<Rightarrow> 'n pusher \<Rightarrow> ('n, 's) mediator" where
  "with_pusher md p = md\<lparr>md_pusher := Some p\<rparr>"

text \<open>One tick of \<open>start_cleanup\<close> and of \<open>spawn_retries\<close>; an error is only logged.\<close>

definition cleanup_tick :: "('n, 's) mediator \<Rightarrow> u64 \<Rightarrow> ('n, 's) world \<Rightarrow> ('n, 's) world option" where
  "cleanup_tick md now w =
     (let ttl = lm_mediation_ttl_secs (md_limits md) in
      if ttl = 0 then Some w else map_option snd (remove_idle md ttl now w))"

definition retries_tick :: "('n, 's) mediator \<Rightarrow> u64 \<Rightarrow> ('n, 's) world \<Rightarrow> ('n, 's) world" where
  "retries_tick md now w = (case md_transport md of Some tp \<Rightarrow> snd (retry_due md tp now w) | None \<Rightarrow> w)"

section \<open>The libraries a start needs\<close>

text \<open>\<open>en_http\<close> builds the client for other mediators, with or without the guards, and \<open>en_push\<close> the one for
  push services; either may fail. The clients share the network, which is the state of the push services' tokens extended with what the clients keep. \<open>en_exchange\<close>
  connects to an address, sends a text and reads the answer.\<close>

record ('m, 's) environment =
  en_header_name :: "string \<Rightarrow> bool"
  en_lookup :: "string \<Rightarrow> string option"
  en_args :: "string list"
  en_pretty :: "json \<Rightarrow> bytes"
  en_faults :: faults
  en_http :: "bool \<Rightarrow> string + 'm http_client"
  en_push :: "string + 'm push_client"
  en_ec_key :: "string \<Rightarrow> string + (bytes \<Rightarrow> bytes option)"
  en_rsa_key :: "string \<Rightarrow> string + (bytes \<Rightarrow> bytes option)"
  en_open :: "string \<Rightarrow> string option \<Rightarrow> string + 's store_ops"
  en_exchange :: "socket_addr \<Rightarrow> string \<Rightarrow> string + string"

definition secret_text :: "secret \<Rightarrow> string" where
  "secret_text s = (case s of Secret t \<Rightarrow> t)"

text \<open>A transport next to the push services.\<close>

definition beside_push :: "'m transport \<Rightarrow> 'm providers transport" where
  "beside_push tp =
     \<lparr>tp_get_json = (\<lambda>url. on_push_net (tp_get_json tp url)),
      tp_post_didcomm = (\<lambda>url body. on_push_net (tp_post_didcomm tp url body))\<rparr>"

text \<open>\<open>fs::read_to_string\<close>.\<close>

definition read_to_string :: "faults \<Rightarrow> string \<Rightarrow> (files, 'e, string + string) act" where
  "read_to_string faults path fs =
     (case fs_read faults path fs of
        (Inl e, fs) \<Rightarrow> (Inr (Inl e), fs)
      | (Inr bs, fs) \<Rightarrow> (Inr (ok_or ''stream did not contain valid UTF-8'' (from_utf8 bs)), fs))"

section \<open>Health check\<close>

text \<open>The first line of the answer, as \<open>lines().next()\<close> has it.\<close>

definition first_line :: "string \<Rightarrow> string" where
  "first_line t =
     (let l = takeWhile (\<lambda>c. c \<noteq> char_of (10 :: nat)) t in
      if length l < length t \<and> ends_with l [char_of (13 :: nat)] then butlast l else l)"

definition CRLF :: string where
  "CRLF = [char_of (13 :: nat), char_of (10 :: nat)]"

definition healthcheck :: "(socket_addr \<Rightarrow> string \<Rightarrow> string + string) \<Rightarrow> config \<Rightarrow> string + unit" where
  "healthcheck exchange cfg =
     bind_res (exchange \<lparr>sa_ip = V4 127 0 0 1, sa_port = sa_port (cf_bind cfg)\<rparr>
       (''GET /health HTTP/1.1'' @ CRLF @ ''Host: localhost'' @ CRLF @ ''Connection: close'' @ CRLF @ CRLF)) (\<lambda>response.
     ensure (starts_with response ''HTTP/1.1 200'') (''unhealthy: '' @ first_line response))"

section \<open>Putting the parts together\<close>

definition http_transport_new :: "(bool \<Rightarrow> string + 'm http_client) \<Rightarrow> bool \<Rightarrow> string + 'm transport" where
  "http_transport_new build allow_insecure =
     bind_res (map_err (\<lambda>_. ''building the HTTP client'') (build allow_insecure)) (\<lambda>C.
     Inr (http_transport C allow_insecure))"

definition transport_of :: "(bool \<Rightarrow> string + 'm http_client) \<Rightarrow> config \<Rightarrow> string + 'm providers transport option" where
  "transport_of build cfg =
     (if cf_federation cfg then
        bind_res (http_transport_new build (cf_outbound_allow_insecure cfg)) (\<lambda>tp. Inr (Some (beside_push tp)))
      else Inr None)"

text \<open>\<open>Option::map(..).transpose()?\<close>\<close>

definition transpose_act :: "('a \<Rightarrow> ('w, 'e, 'b) act) \<Rightarrow> 'a option \<Rightarrow> ('w, 'e, 'b option) act" where
  "transpose_act f v = (case v of None \<Rightarrow> return_act None | Some a \<Rightarrow> bind_act (f a) (\<lambda>b. return_act (Some b)))"

text \<open>An error of the start: one of the key file, or the text of any other.\<close>

datatype start_error = StartKeys key_error | StartText string

definition pusher_of :: "ext \<Rightarrow> ('m, 's) environment \<Rightarrow> config \<Rightarrow> ('r host, string, 'm providers pusher option) act" where
  "pusher_of X E cfg =
     (if pc_mode (cf_push cfg) = PushDirect then
        bind_act (transpose_act (\<lambda>path. bind_act (on_disk (read_to_string (en_faults E) path)) (\<lambda>t.
          lift_act (fcm_from_file X (en_rsa_key E) (en_push E) path t))) (pc_fcm_service_account (cf_push cfg))) (\<lambda>fcm.
        bind_act (transpose_act (\<lambda>a. bind_act (on_disk (read_to_string (en_faults E) (ac_key_path a))) (\<lambda>t.
          lift_act (apns_new (en_ec_key E) (en_push E) a t))) (pc_apns (cf_push cfg))) (\<lambda>apns.
        return_act (Some (direct_pusher (map_option (\<lambda>(C, f). fcm_wake X C f) fcm) (map_option (\<lambda>(C, a). apns_wake X C a) apns)))))
      else return_act None)"

definition serve :: "ext \<Rightarrow> ('m, 's) environment \<Rightarrow> config \<Rightarrow> ('r host, start_error, ('m providers, 's) app_state) act" where
  "serve X E cfg =
     bind_act (map_err_act StartKeys (load_or_create X (en_pretty E) (en_faults E) (cf_keys_path cfg) (cf_public_url cfg))) (\<lambda>i.
     bind_act (lift_act (map_err StartText (en_open E (cf_redis_url cfg) (map_option secret_text (cf_redis_password cfg))))) (\<lambda>st.
     bind_act (lift_act (map_err StartText (transport_of (en_http E) cfg))) (\<lambda>tp.
     let md = mediator_new X i st (limits_of cfg) tp in
     bind_act (map_err_act StartText (pusher_of X E cfg)) (\<lambda>pusher.
     let md = (case pusher of Some p \<Rightarrow> with_pusher md p | None \<Rightarrow> md) in
     bind_act (lift_act (case cf_client_ip_header cfg of
         Some name \<Rightarrow> if en_header_name E name then Inr () else Inl (StartText ''invalid HTTP header name'')
       | None \<Rightarrow> Inr ())) (\<lambda>_.
     return_act \<lparr>as_mediator = md, as_rate_limit = cf_rate_limit cfg, as_client_ip_header = cf_client_ip_header cfg,
       as_public_url = cf_public_url cfg\<rparr>)))))"

datatype 'a ran = Healthy | Rotated | Serving 'a

definition main :: "ext \<Rightarrow> ('m, 's) environment \<Rightarrow> ('r host, start_error, ('m providers, 's) app_state ran) act" where
  "main X E =
     bind_act (lift_act (map_err StartText (from_lookup (en_header_name E) (en_lookup E)))) (\<lambda>cfg.
     case en_args E of
       _ # cmd # _ \<Rightarrow>
         if cmd = ''healthcheck'' then bind_act (lift_act (map_err StartText (healthcheck (en_exchange E) cfg))) (\<lambda>_. return_act Healthy)
         else if cmd = ''rotate-keys'' then
           bind_act (map_err_act StartKeys (rotate_keys X (en_pretty E) (en_faults E) (cf_keys_path cfg))) (\<lambda>_. return_act Rotated)
         else bind_act (serve X E cfg) (\<lambda>app. return_act (Serving app))
     | _ \<Rightarrow> bind_act (serve X E cfg) (\<lambda>app. return_act (Serving app)))"

end
