(* ===== verification/Startup_Properties.thy ===== *)
theory Startup_Properties
  imports Startup Config_Properties Key_File_Properties
begin

text \<open>A mediator that serves does so as it was configured.\<close>

lemma map_err_act_Inr_iff: "map_err_act f m s = (Inr a, s') \<longleftrightarrow> m s = (Inr a, s')"
  by (auto simp: map_err_act_def split: prod.splits)

text \<open>The parts of what is served.\<close>

lemma serve_Inr:
  fixes h :: "'r host"
  assumes "serve X E cfg h = (Inr app, h')"
  shows "\<exists>i st tp p h1 (h2 :: 'r host). load_or_create X (en_pretty E) (en_faults E) (cf_keys_path cfg) (cf_public_url cfg) h = (Inr i, h1)
    \<and> en_open E (cf_redis_url cfg) (map_option secret_text (cf_redis_password cfg)) = Inr st
    \<and> transport_of (en_http E) cfg = Inr tp \<and> pusher_of X E cfg h1 = (Inr p, h2)
    \<and> app = \<lparr>as_mediator = (mediator_new X i st (limits_of cfg) tp)\<lparr>md_pusher := p\<rparr>,
        as_rate_limit = cf_rate_limit cfg, as_client_ip_header = cf_client_ip_header cfg, as_public_url = cf_public_url cfg\<rparr>"
proof -
  have md: "(case p of Some p \<Rightarrow> with_pusher (mediator_new X i st l t) p | None \<Rightarrow> mediator_new X i st l t)
      = (mediator_new X i st l t)\<lparr>md_pusher := p\<rparr>" for i st l t p
    by (cases p) (simp_all add: mediator_new_def with_pusher_def)
  show ?thesis
    using assms unfolding serve_def Let_def md bind_act_Inr map_err_act_Inr_iff lift_act_apply return_act_apply
    by (elim exE conjE) (simp only: prod.inject sum.inject map_err_Inr, blast)
qed

lemma transpose_act_Inr:
  "transpose_act f v s = (Inr r, s') \<Longrightarrow> (r = None) = (v = None)"
  by (auto simp: transpose_act_def bind_act_Inr split: option.splits)

lemma pusher_of_services:
  assumes "pusher_of X E cfg h = (Inr r, h')"
  shows "(r \<noteq> None) = (pc_mode (cf_push cfg) = PushDirect)"
    and "r = Some p \<Longrightarrow> ps_services p = (if pc_fcm_service_account (cf_push cfg) \<noteq> None then [Fcm] else [])
       @ (if pc_apns (cf_push cfg) \<noteq> None then [Apns] else [])"
  using assms
  by (auto simp: pusher_of_def bind_act_Inr direct_pusher_def split: if_splits dest!: transpose_act_Inr)

lemma transport_of_Inr:
  "transport_of build cfg = Inr tp \<Longrightarrow> if cf_federation cfg
     then \<exists>C. build (cf_outbound_allow_insecure cfg) = Inr C \<and> tp = Some (beside_push (http_transport C (cf_outbound_allow_insecure cfg)))
     else tp = None"
  by (auto simp: transport_of_def http_transport_new_def)

lemma load_or_create_url:
  assumes "load_or_create X pretty faults path url h = (Inr i, h')"
  shows "\<exists>keys. identity_new X keys url = Inr i"
  using assms by (auto simp: load_or_create_def bind_act_Inr)

lemma identity_new_did:
  "identity_new X keys url = Inr i \<Longrightarrow> did_from_origin url = Inr (id_did i) \<and> d_id (id_document i) = id_did i
    \<and> d_service (id_document i) = [own_service (id_did i) url]"
  by (auto simp: identity_new_def Let_def)

lemma main_serving:
  assumes "main X E h = (Inr (Serving app), h')"
  obtains cfg where "from_lookup (en_header_name E) (en_lookup E) = Inr cfg" "serve X E cfg h = (Inr app, h')"
proof -
  obtain cfg s where cfg: "map_err StartText (from_lookup (en_header_name E) (en_lookup E)) = Inr cfg" and
    served: "bind_act (serve X E cfg) (\<lambda>app. return_act (Serving app)) h = (Inr (Serving app), h')"
    using assms unfolding main_def
    by (subst (asm) bind_act_Inr) (cases "en_args E" rule: remdups_adj.cases, auto simp: bind_act_Inr split: if_split_asm)
  then show thesis using that by (auto simp: bind_act_Inr)
qed

text \<open>C37: A mediator that comes up serves what was configured. Its public URL, rate limit, client header and
  each of its limits are the configured ones; its identity is the one of the configured key file and public
  URL, with a document for that DID that offers the service at that URL; its store is the one opened at the
  configured address with the configured password; other mediators are reached only with federation on, with the
  client and the address filter that were configured; a pusher is there exactly in direct mode, for exactly
  the services that were configured, at least one; whatever message it accepts fits into an empty queue.\<close>

theorem startup_serves:
  fixes h :: "'r host"
  assumes "main X E h = (Inr (Serving app), h')"
  shows "\<exists>cfg md h1. from_lookup (en_header_name E) (en_lookup E) = Inr cfg
    \<and> app = \<lparr>as_mediator = md, as_rate_limit = cf_rate_limit cfg, as_client_ip_header = cf_client_ip_header cfg,
        as_public_url = cf_public_url cfg\<rparr>
    \<and> (\<forall>name. cf_client_ip_header cfg = Some name \<longrightarrow> en_header_name E name)
    \<and> md_ext md = X
    \<and> md_limits md = \<lparr>lm_max_message_bytes = cf_max_message_bytes cfg,
        lm_queue = \<lparr>ql_ttl_secs = cf_queue_ttl_secs cfg, ql_max_messages = cf_queue_max_messages cfg,
          ql_max_bytes = cf_queue_max_bytes cfg\<rparr>,
        lm_max_recipient_dids = cf_max_recipient_dids cfg, lm_push_min_interval_secs = pc_min_interval_secs (cf_push cfg),
        lm_recipient_proof = cf_recipient_proof cfg, lm_mediation_ttl_secs = cf_mediation_ttl_secs cfg\<rparr>
    \<and> load_or_create X (en_pretty E) (en_faults E) (cf_keys_path cfg) (cf_public_url cfg) h = (Inr (md_identity md), h1)
    \<and> did_from_origin (cf_public_url cfg) = Inr (id_did (md_identity md))
    \<and> d_id (id_document (md_identity md)) = id_did (md_identity md)
    \<and> d_service (id_document (md_identity md)) = [own_service (id_did (md_identity md)) (cf_public_url cfg)]
    \<and> en_open E (cf_redis_url cfg) (map_option secret_text (cf_redis_password cfg)) = Inr (md_store md)
    \<and> (if cf_federation cfg
       then \<exists>C. en_http E (cf_outbound_allow_insecure cfg) = Inr C
         \<and> md_transport md = Some (beside_push (http_transport C (cf_outbound_allow_insecure cfg)))
       else md_transport md = None)
    \<and> (case md_pusher md of
         None \<Rightarrow> pc_mode (cf_push cfg) = PushOff
       | Some p \<Rightarrow> pc_mode (cf_push cfg) = PushDirect \<and> ps_services p \<noteq> []
           \<and> ps_services p = (if pc_fcm_service_account (cf_push cfg) \<noteq> None then [Fcm] else [])
               @ (if pc_apns (cf_push cfg) \<noteq> None then [Apns] else []))
    \<and> (\<forall>m r t now s. \<not> poisoned s \<and> queue_of s m = [] \<and> length t \<le> lm_max_message_bytes (md_limits md)
        \<longrightarrow> (\<exists>i s'. mem_enqueue m r t now (lm_queue (md_limits md)) s = (Inr (Some i), s')))"
proof -
  obtain cfg where cfg: "from_lookup (en_header_name E) (en_lookup E) = Inr cfg" and s: "serve X E cfg h = (Inr app, h')"
    by (rule main_serving [OF assms])
  note a = accepted_config [OF cfg]
  obtain i st tp p h1 and h2 :: "'r host" where
    l: "load_or_create X (en_pretty E) (en_faults E) (cf_keys_path cfg) (cf_public_url cfg) h = (Inr i, h1)" and
    st: "en_open E (cf_redis_url cfg) (map_option secret_text (cf_redis_password cfg)) = Inr st" and
    tp: "transport_of (en_http E) cfg = Inr tp" and p: "pusher_of X E cfg h1 = (Inr p, h2)" and
    app: "app = \<lparr>as_mediator = (mediator_new X i st (limits_of cfg) tp)\<lparr>md_pusher := p\<rparr>,
        as_rate_limit = cf_rate_limit cfg, as_client_ip_header = cf_client_ip_header cfg, as_public_url = cf_public_url cfg\<rparr>"
    using serve_Inr [OF s] by blast
  let ?md = "(mediator_new X i st (limits_of cfg) tp)\<lparr>md_pusher := p\<rparr>"
  have md: "md_ext ?md = X" "md_identity ?md = i" "md_store ?md = st" "md_limits ?md = limits_of cfg" "md_transport ?md = tp"
    "md_pusher ?md = p"
    by (simp_all add: mediator_new_def)
  obtain keys where "identity_new X keys (cf_public_url cfg) = Inr i" using load_or_create_url [OF l] by blast
  note i = identity_new_did [OF this]
  have hdr: "\<forall>name. cf_client_ip_header cfg = Some name \<longrightarrow> en_header_name E name"
    and room: "\<forall>m r t now s. \<not> poisoned s \<and> queue_of s m = [] \<and> length t \<le> lm_max_message_bytes (limits_of cfg)
        \<longrightarrow> (\<exists>i s'. mem_enqueue m r t now (lm_queue (limits_of cfg)) s = (Inr (Some i), s'))"
    using a by simp_all
  have services: "case p of None \<Rightarrow> pc_mode (cf_push cfg) = PushOff
       | Some p \<Rightarrow> pc_mode (cf_push cfg) = PushDirect \<and> ps_services p \<noteq> []
           \<and> ps_services p = (if pc_fcm_service_account (cf_push cfg) \<noteq> None then [Fcm] else [])
               @ (if pc_apns (cf_push cfg) \<noteq> None then [Apns] else [])"
    using pusher_of_services [OF p] a push_mode.exhaust [of "pc_mode (cf_push cfg)"] by (cases p) auto
  define md where "md = ?md"
  have parts: "md_ext md = X" "md_identity md = i" "md_store md = st" "md_limits md = limits_of cfg" "md_transport md = tp"
    "md_pusher md = p"
    unfolding md_def by (rule md)+
  show ?thesis
    by (intro exI [of _ cfg] exI [of _ md] exI [of _ h1] conjI cfg hdr)
      (simp_all only: parts app md_def [symmetric] st l i services limits_of_def [of cfg, symmetric],
        rule transport_of_Inr [OF tp], rule room)
qed

definition sample_disk :: "unit host" where
  "sample_disk = \<lparr>resolver_state = (), draws = 0,
     ho_files = [''data/keys.json'' \<mapsto> \<lparr>fl_bytes = key_bytes sample_ext sample_print sample_keys, fl_mode = 384\<rparr>]\<rparr>"

text \<open>No network, and no variable set.\<close>

definition sample_environment :: "(unit, inner) environment" where
  "sample_environment = \<lparr>en_header_name = (\<lambda>_. True), en_lookup = (\<lambda>_. None), en_args = [''almena-mediator''],
     en_pretty = sample_print, en_faults = (\<lambda>_ _. None),
     en_http = (\<lambda>_. Inr \<lparr>hc_parse = (\<lambda>_. None), hc_get = (\<lambda>_ n. (Inl [], n)), hc_post = (\<lambda>_ _ _ n. (Inl [], n))\<rparr>),
     en_push = Inr \<lparr>pc_send = (\<lambda>_ _ _ _ n. (Inl [], n)), pc_unix = (\<lambda>_. 0), pc_instant = (\<lambda>_. 0), pc_status = show_nat\<rparr>,
     en_ec_key = (\<lambda>_. Inl []), en_rsa_key = (\<lambda>_. Inl []), en_open = (\<lambda>_ _. Inr memory_store),
     en_exchange = (\<lambda>_ _. Inl [])\<rparr>"

lemma sample_loads:
  "\<exists>i. fst ((load_or_create sample_ext sample_print (\<lambda>_ _. None) ''data/keys.json'' ''http://localhost:8080''
      :: (unit host, key_error, identity) act) sample_disk) = Inr i"
proof -
  have "pretty_law sample_ext sample_print" using sample_text_laws by (simp add: pretty_law_def text_laws_def)
  then have "parse_keys sample_ext (key_bytes sample_ext sample_print sample_keys) = Inr sample_keys"
    by (rule parse_key_bytes [OF sample_text_laws _ sample_keys_ok])
  then have "fst ((load_or_create sample_ext sample_print (\<lambda>_ _. None) ''data/keys.json'' ''http://localhost:8080''
      :: (unit host, key_error, identity) act) sample_disk) = map_err KeyLibrary (identity_new sample_ext sample_keys ''http://localhost:8080'')"
    by (intro load_existing [where f = "\<lparr>fl_bytes = key_bytes sample_ext sample_print sample_keys, fl_mode = 384\<rparr>"])
      (simp add: sample_disk_def, simp only: disk_file.select_convs)
  then show ?thesis by (simp add: identity_new_def default_url map_err_def Let_def)
qed

theorem startup_serves_witness:
  "\<exists>app h'. main sample_ext sample_environment sample_disk = (Inr (Serving app), h')
     \<and> did_from_origin (as_public_url app) = Inr (id_did (md_identity (as_mediator app)))
     \<and> md_store (as_mediator app) = memory_store"
proof -
  obtain i h1 where "(load_or_create sample_ext sample_print (\<lambda>_ _. None) ''data/keys.json'' ''http://localhost:8080''
      :: (unit host, key_error, identity) act) sample_disk = (Inr i, h1)"
    using sample_loads by (metis prod.collapse)
  then have "\<exists>app. serve sample_ext sample_environment default_config sample_disk = (Inr app, h1)"
    by (simp add: serve_def sample_environment_def default_config_def default_push_def bind_act_def map_err_act_def map_err_def
        pusher_of_def transport_of_def http_transport_new_def Let_def)
  then obtain app where m: "main sample_ext sample_environment sample_disk = (Inr (Serving app), h1)"
    using default_config_accepted [of "\<lambda>_. True"]
    by (auto simp: main_def bind_act_def sample_environment_def map_err_def)
  obtain cfg :: config and md where "app = \<lparr>as_mediator = md, as_rate_limit = cf_rate_limit cfg, as_client_ip_header = cf_client_ip_header cfg,
      as_public_url = cf_public_url cfg\<rparr>" "did_from_origin (cf_public_url cfg) = Inr (id_did (md_identity md))"
    "en_open sample_environment (cf_redis_url cfg) (map_option secret_text (cf_redis_password cfg)) = Inr (md_store md)"
    using startup_serves [OF m] by blast
  then show ?thesis using m by (auto simp: sample_environment_def)
qed

end
