(* ===== verification/Spec2Isabelle.thy ===== *)
theory Spec2Isabelle
  imports Retries Routes_Properties Config_Properties Key_File_Properties Providers_Properties Redis_Queue_Properties Startup_Properties
begin

text \<open>
  A verification library for the Almena mediator: the Rust crates \<open>almena-didcomm\<close>
  (\<open>src/crates/didcomm\<close>), a DIDComm v2 messaging library, and \<open>almena-mediator\<close>
  (\<open>src/crates/mediator\<close>), the server that registers wallets, takes in \<open>forward\<close> messages for them,
  queues what they cannot receive yet, pushes wake-ups and relays to other mediators.

  \<^bold>\<open>How the program works.\<close> An envelope arrives at \<open>POST /didcomm\<close> or on a WebSocket (\<open>routes.rs\<close>).
  After the rate limit, \<open>Mediator::receive\<close> (\<open>dispatch/mod.rs\<close>) unpacks it with the DIDComm library:
  nested JWE and JWS layers are opened, keys are found in DID documents, and the headers are
  checked against the keys that were used. The message then goes to the protocol it names. A
  \<open>forward\<close> may come from anyone; the protocols of a wallet (mediation, pick-up, devices) need an
  authenticated sender and act on the account of that sender only. Replies go back on the
  connection, into the sender's queue, or to another mediator. All state that survives a message
  is in the store (\<open>store/mod.rs\<close>); live sessions, counters and background tasks live beside it.

  \<^bold>\<open>How the model is written.\<close> Every operation is a definition over explicit state: an action of type
  \<open>('s, 'e, 'a) act\<close> takes a state and returns a result, \<open>Inl\<close> an error or \<open>Inr\<close> a value, and the
  state it leaves, also when it fails (\<open>Prelude\<close>). Rust strings and byte vectors are lists of
  characters, one per byte; \<open>u64\<close>, \<open>u32\<close>, \<open>u16\<close> and \<open>u8\<close> are words, with wrap-around where the code
  would wrap in release mode; \<open>usize\<close> counts are natural numbers. \<open>async\<close> calls run in the
  order in which the code awaits them. A poisoned mutex is a flag of the state.
  The clock is an argument (\<open>now\<close>), read once per handled message.

  \<^bold>\<open>What is a parameter.\<close> Code outside the repository is an argument of the definitions that use it:
  the record \<open>ext\<close> (theory \<open>Extern\<close>) holds the JSON reader and printer, base64 and base58, the hash
  functions, curve arithmetic, ciphers, and the random draws; \<open>transport\<close>, \<open>pusher\<close> and
  \<open>http_client\<close> hold the network; \<open>HeaderName\<close> is a predicate. Theorems that rely on documented behaviour of
  these say so with a named hypothesis (\<open>text_laws\<close>: what is printed or encoded is read back;
  \<open>key_laws\<close>: both sides agree on a shared secret, and a wrapped key unwraps;
  \<open>jwk_law\<close>; \<open>ciphers_ok\<close>; \<open>sig_laws\<close>), and \<open>Sample_Ext\<close> has a concrete \<open>ext\<close> on which all of
  them hold and the witnesses evaluate.

  \<^bold>\<open>Theories and the code they model.\<close>
  \<^item> \<open>Prelude\<close>: results, actions, their loops, and the calculus of guarantees (\<open>steps\<close>, the locale
    \<open>guarantee\<close>) in which most invariants of handlers are proved. \<open>Rust_Std\<close>, \<open>Json\<close>, \<open>Net\<close>: the parts
    of Rust's standard library and of \<open>serde_json\<close>'s values the code uses (text scanning, decimal numbers, UTF-8,
    trimming, IP and socket addresses).
  \<^item> \<open>Extern\<close>, \<open>Keys\<close>, \<open>Content\<close>, \<open>Jwe\<close>, \<open>Jws\<close>: \<open>didcomm/src/crypto\<close>, \<open>jwk.rs\<close>, \<open>b64.rs\<close>, \<open>error.rs\<close>.
    \<open>Message\<close>: \<open>message.rs\<close>. \<open>Did_Document\<close>, \<open>Resolver\<close>: \<open>did/*.rs\<close> and \<open>secrets.rs\<close>.
    \<open>Pack\<close>, \<open>Unpack\<close>: \<open>pack.rs\<close>, \<open>unpack.rs\<close>, \<open>from_prior.rs\<close>, \<open>possession.rs\<close>.
  \<^item> \<open>Store_Spec\<close>: the trait of \<open>store/mod.rs\<close> as a record of operations, and the contract handlers rely on as the
    locale \<open>store\<close>. \<open>Memory_Store\<close>: \<open>store/memory.rs\<close>, and the interpretation of the contract on it.
  \<^item> \<open>Live\<close>: \<open>dispatch/live.rs\<close>. \<open>Metrics\<close>: \<open>metrics.rs\<close>. \<open>Mediator\<close>: \<open>identity.rs\<close> and the state of
    \<open>dispatch/mod.rs\<close>. \<open>Protocols\<close>, \<open>Relay\<close>, \<open>Mediation\<close>, \<open>Pickup\<close>, \<open>Push\<close>, \<open>Dispatch\<close>: the rest of
    \<open>dispatch/\<close>, and \<open>push/mod.rs\<close>.
  \<^item> \<open>Outbound\<close>: \<open>transport.rs\<close>. \<open>Routes\<close>: \<open>routes.rs\<close>. \<open>Config\<close>: \<open>config.rs\<close> and the limits of \<open>main.rs\<close>.
  \<^item> \<open>Oob\<close>: \<open>oob.rs\<close>. \<open>Key_File\<close>: the key file of \<open>identity.rs\<close>. \<open>Providers\<close>: \<open>push/apns.rs\<close>, \<open>push/fcm.rs\<close>
    and \<open>push/jwt.rs\<close>.
  \<^item> \<open>Redis\<close>: \<open>store/redis.rs\<close>. A Redis server is a parameter that runs one command at a time; the Lua scripts
    are actions made of such commands.
  \<^item> \<open>Startup\<close>: the command line, the health check and the building of the mediator in \<open>main.rs\<close>, and one round
    of each periodic task.

  \<^bold>\<open>What is proved, and where.\<close>
  \<^item> \<open>Envelope_Properties\<close>, \<open>End_To_End\<close>, \<open>Anonymous\<close>: what \<open>unpack\<close> reports (authenticated, signed,
    encrypted for whom) is what the keys of the resolved documents prove, read off the envelopes
    that were opened (\<open>opened\<close> in \<open>Unpack\<close>); packing and unpacking are
    inverse; at most three envelopes are opened; possession proofs round-trip.
  \<^item> \<open>Memory_Store\<close>: the invariant of the store over any sequence of operations, queue bounds,
    delivery order, ids, push intervals, leases, hit counts.
  \<^item> \<open>Frames\<close>, \<open>Isolation\<close>, \<open>Effects\<close>: what a handler can change. \<open>Isolation\<close> proves from the contract
    \<open>store\<close> that a message only touches the account of its sender; \<open>Effects\<close> lists the elementary
    changes once, and its interpretations give the hub's and the rate limit's guarantees.
  \<^item> \<open>Mediator_Properties\<close>, \<open>Mediation_Properties\<close>: isolation of accounts, anonymous senders, refused
    envelopes and forwards, possession proofs, queries. \<open>Live\<close>, \<open>Protocols\<close>: subscriptions, matching.
  \<^item> \<open>Delivery\<close>, \<open>Cleanup\<close>, \<open>Retries\<close>: forwarded messages arrive, the clean-up ends and is exact, retries end.
  \<^item> \<open>Outbound\<close>, \<open>Routes_Properties\<close>, \<open>Config_Properties\<close>: the URLs the transport asks for and the
    addresses it keeps out (redirects are left to the HTTP client, and the code does not check them), the
    rate limit, the client behind a proxy, the end of a WebSocket session, accepted configurations.
  \<^item> \<open>Oob\<close>, \<open>Key_File_Properties\<close>, \<open>Providers_Properties\<close>: an invitation decodes to itself and escaped text
    stays text; creating and rotating the keys is atomic whatever fails on the disk; what APNs is asked, and
    how long tokens are reused.
  \<^item> \<open>Redis_Refinement\<close>: on mediations and recipient DIDs the Redis store refines the in-process one, unless
    two keys collide; what Redis documents of the commands is the hypothesis \<open>redis_laws\<close> (scores are doubles, so
    times up to \<open>2 ^ 53\<close>). \<open>Redis_Queue\<close>, \<open>Redis_Queue_Properties\<close>: the queue scripts keep the byte counter in
    step with the stream and the queue within its limits, under \<open>queue_laws\<close>.
  \<^item> \<open>Startup_Properties\<close>: a mediator that comes up serves what was configured.
  \<^item> \<open>Sample_Ext\<close>, \<open>Sample_Mediator\<close>: the concrete library, mediator and wallet of the witnesses.

  \<^bold>\<open>Loops, fuel and bounds.\<close> Loops over lists are structural. \<open>unpack_loop\<close> ends because the layers
  it may still open shrink (\<open>layer_measure\<close>). \<open>SecretKey::generate\<close> draws until a draw is a valid
  scalar and has fuel \<open>GENERATE_FUEL = 64\<close>; a draw is invalid with probability below \<open>2 ^ -32\<close>, and running
  out is reported like a failed generator. The clean-up loop is a \<open>partial_function\<close>, and its
  theorem proves that it returns. Theorems about fresh session ids ask for less than \<open>2 ^ 64\<close> sessions.

  \<^bold>\<open>Not modelled.\<close> Listening, shutdown, logging, tracing and the timers of the periodic tasks
  (\<open>main.rs\<close>; what the tasks do at a tick is modelled); the HTML of \<open>home.rs\<close> and the OpenAPI document and routing
  tables of \<open>routes.rs\<close>, which have no state; the HTTP server of the metrics listener. Concurrency is modelled only
  where the code synchronises it: each operation of the memory store runs under its mutex, and other
  connections enter a WebSocket session's loop between two of its iterations.
\<close>

end
